(* ===== verification/Prelude.thy ===== *)
theory Prelude
  imports Main "HOL-Library.Word" "HOL-Library.AList"
begin

text \<open>
  Shared vocabulary of the development.

  \<^item> Machine integers: Rust's \<open>u8\<close>, \<open>u16\<close>, \<open>u32\<close>, \<open>u64\<close>, \<open>u128\<close> are words of that width;
    \<open>+\<close> and \<open>*\<close> on them wrap, as they do in the release profile the project ships
    (\<open>Cargo.toml\<close> sets no \<open>overflow-checks\<close>).  Lengths and indices (\<open>usize\<close>) are \<open>nat\<close>.
  \<^item> Big-endian byte order: \<open>to_be_bytes\<close> and \<open>from_be_bytes\<close> of the standard library.
  \<^item> \<open>HashMap\<close>: an association list with distinct keys, whose list order plays the part of the
    unspecified iteration order.
  \<^item> \<open>codec\<close>: the contract of an encoder and a decoder, interpreted by each wire format.
\<close>

unbundle bit_operations_syntax

named_theorems codec_simps \<open>unfolding rules of the wire formats\<close>

type_synonym u8 = "8 word"
type_synonym u16 = "16 word"
type_synonym u32 = "32 word"
type_synonym u64 = "64 word"
type_synonym u128 = "128 word"
type_synonym bytes = "u8 list"

section \<open>Big-endian byte order\<close>

definition u16_to_be_bytes :: "u16 \<Rightarrow> bytes" where
  "u16_to_be_bytes w = [ucast (drop_bit 8 w), ucast w]"

definition u16_from_be_bytes :: "u8 \<Rightarrow> u8 \<Rightarrow> u16" where
  "u16_from_be_bytes a b = push_bit 8 (ucast a) OR ucast b"

definition u32_to_be_bytes :: "u32 \<Rightarrow> bytes" where
  "u32_to_be_bytes w =
     [ucast (drop_bit 24 w), ucast (drop_bit 16 w), ucast (drop_bit 8 w), ucast w]"

definition u32_from_be_bytes :: "u8 \<Rightarrow> u8 \<Rightarrow> u8 \<Rightarrow> u8 \<Rightarrow> u32" where
  "u32_from_be_bytes a b c d =
     push_bit 24 (ucast a) OR push_bit 16 (ucast b) OR push_bit 8 (ucast c) OR ucast d"

lemma bit_u8_beyond [simp]: "8 \<le> n \<Longrightarrow> \<not> bit (w :: u8) n"
  by (auto dest: bit_imp_le_length)

lemma length_u16_to_be_bytes [simp]: "length (u16_to_be_bytes w) = 2"
  by (simp add: u16_to_be_bytes_def)

lemma length_u32_to_be_bytes [simp]: "length (u32_to_be_bytes w) = 4"
  by (simp add: u32_to_be_bytes_def)

lemma u16_from_to_be_bytes [simp]:
  "u16_from_be_bytes (ucast (drop_bit 8 w)) (ucast w) = w"
  unfolding u16_from_be_bytes_def
  by (rule bit_word_eqI) (auto simp: bit_simps)

lemma u16_to_from_be_bytes [simp]:
  "u16_to_be_bytes (u16_from_be_bytes a b) = [a, b]"
  unfolding u16_from_be_bytes_def u16_to_be_bytes_def
  by (auto intro!: bit_word_eqI simp: bit_simps)

lemma u32_from_to_be_bytes [simp]:
  "u32_from_be_bytes (ucast (drop_bit 24 w)) (ucast (drop_bit 16 w)) (ucast (drop_bit 8 w)) (ucast w) = w"
proof (rule bit_word_eqI)
  fix n assume "n < LENGTH(32)"
  then consider "n < 8" | "8 \<le> n" "n < 16" | "16 \<le> n" "n < 24" | "24 \<le> n" "n < 32"
    by fastforce
  then show "bit (u32_from_be_bytes (ucast (drop_bit 24 w)) (ucast (drop_bit 16 w))
      (ucast (drop_bit 8 w)) (ucast w)) n = bit w n"
    by cases (auto simp: u32_from_be_bytes_def bit_simps)
qed

lemma u32_to_from_be_bytes [simp]:
  "u32_to_be_bytes (u32_from_be_bytes a b c d) = [a, b, c, d]"
  unfolding u32_from_be_bytes_def u32_to_be_bytes_def
  by (auto intro!: bit_word_eqI simp: bit_simps)

lemma unat_word_of_nat_u16 [simp]: "n < 65536 \<Longrightarrow> unat (word_of_nat n :: u16) = n"
  by (simp add: unat_of_nat)

lemma unat_word_of_nat_u8 [simp]: "n < 256 \<Longrightarrow> unat (word_of_nat n :: u8) = n"
  by (simp add: unat_of_nat)

lemma word_of_nat_eqI: "unat w = n \<Longrightarrow> word_of_nat n = w"
  by auto

lemma unat_u16_less [simp]: "unat (w :: u16) < 65536"
proof -
  have "unat w < 2 ^ LENGTH(16)" by (rule unsigned_less)
  then show ?thesis by simp
qed

lemma unat_u8_less [simp]: "unat (w :: u8) < 256"
proof -
  have "unat w < 2 ^ LENGTH(8)" by (rule unsigned_less)
  then show ?thesis by simp
qed

lemma unat_u32_less [simp]: "unat (w :: u32) < 4294967296"
proof -
  have "unat w < 2 ^ LENGTH(32)" by (rule unsigned_less)
  then show ?thesis by simp
qed

section \<open>Slices\<close>

text \<open>\<open>&data[a..b]\<close>, used only where the code has checked \<open>a \<le> b \<le> data.len()\<close>.\<close>

definition slice :: "nat \<Rightarrow> nat \<Rightarrow> 'a list \<Rightarrow> 'a list" where
  "slice a b xs = take (b - a) (drop a xs)"

lemma length_slice [simp]: "length (slice a b xs) = min (length xs - a) (b - a)"
  by (simp add: slice_def min.commute)

lemma list_ge2_cases: "2 \<le> length xs \<Longrightarrow> \<exists>a b ys. xs = a # b # ys"
  by (cases xs rule: list.exhaust) (auto simp: Suc_le_length_iff numeral_2_eq_2)

section \<open>Outcomes\<close>

text \<open>
  What a call comes to: it returns, it panics (an \<open>unwrap\<close>, an index out of range, a division by
  zero), or a loop of it has not ended within the given number of iterations.
\<close>

datatype 'a outcome = Returned 'a | Panicked | Unfinished

fun and_then :: "'a outcome \<Rightarrow> ('a \<Rightarrow> 'b outcome) \<Rightarrow> 'b outcome" where
  "and_then (Returned x) f = f x"
| "and_then Panicked f = Panicked"
| "and_then Unfinished f = Unfinished"

lemma and_then_Returned: "and_then r f = Returned y \<longleftrightarrow> (\<exists>x. r = Returned x \<and> f x = Returned y)"
  by (cases r) auto

text \<open>
  A machine whose steps refine an abstract relation as long as each operation meets its guard in the
  state it finds: what holds of one step holds of every guarded run.
\<close>

locale refined_machine =
  fixes step :: "'op \<Rightarrow> 's \<Rightarrow> 's outcome"
    and run :: "'op list \<Rightarrow> 's \<Rightarrow> 's outcome"
    and ok :: "'s \<Rightarrow> bool"
    and guard :: "'op \<Rightarrow> 's \<Rightarrow> bool"
    and guarded :: "'op list \<Rightarrow> 's \<Rightarrow> bool"
    and abs :: "'s \<Rightarrow> 'a"
    and spec :: "'a \<Rightarrow> 'a \<Rightarrow> bool"
  assumes run_Nil: "run [] s = Returned s"
    and run_Cons: "run (op # ops) s = and_then (step op s) (run ops)"
    and guarded_Cons: "guarded (op # ops) s \<Longrightarrow> guard op s"
    and guarded_tail: "guarded (op # ops) s \<Longrightarrow> step op s = Returned s' \<Longrightarrow> guarded ops s'"
    and step_refines: "ok s \<Longrightarrow> guard op s \<Longrightarrow> step op s = Returned s' \<Longrightarrow> ok s' \<and> spec\<^sup>*\<^sup>* (abs s) (abs s')"
begin

lemma run_append: "run (xs @ ys) s = and_then (run xs s) (run ys)"
proof (induction xs arbitrary: s)
  case Nil
  then show ?case by (simp add: run_Nil)
next
  case (Cons x xs)
  then show ?case by (cases "step x s") (simp_all add: run_Cons)
qed

lemma run_refines:
  assumes "ok s" and "guarded ops s" and "run ops s = Returned s'"
  shows "ok s' \<and> spec\<^sup>*\<^sup>* (abs s) (abs s')"
  using assms
proof (induction ops arbitrary: s)
  case Nil
  then show ?case by (simp add: run_Nil)
next
  case (Cons op ops)
  then obtain s1 where s1: "step op s = Returned s1" and r: "run ops s1 = Returned s'"
    by (auto simp: run_Cons and_then_Returned)
  have "ok s1 \<and> spec\<^sup>*\<^sup>* (abs s) (abs s1)"
    using step_refines [OF Cons.prems(1) guarded_Cons [OF Cons.prems(2)] s1] .
  moreover from this have "ok s' \<and> spec\<^sup>*\<^sup>* (abs s1) (abs s')"
    using Cons.IH [OF _ guarded_tail [OF Cons.prems(2) s1] r] by blast
  ultimately show ?case by (meson rtranclp_trans)
qed

end

section \<open>HashMap\<close>

type_synonym ('k, 'v) hmap = "('k \<times> 'v) list"

definition hm_ok :: "('k, 'v) hmap \<Rightarrow> bool" where
  "hm_ok m \<longleftrightarrow> distinct (map fst m)"

definition hm_get :: "('k, 'v) hmap \<Rightarrow> 'k \<Rightarrow> 'v option" where
  "hm_get m k = map_of m k"

definition hm_insert :: "'k \<Rightarrow> 'v \<Rightarrow> ('k, 'v) hmap \<Rightarrow> ('k, 'v) hmap" where
  "hm_insert k v m = AList.update k v m"

definition hm_remove :: "'k \<Rightarrow> ('k, 'v) hmap \<Rightarrow> ('k, 'v) hmap" where
  "hm_remove k m = AList.delete k m"

definition hm_retain :: "('k \<Rightarrow> 'v \<Rightarrow> bool) \<Rightarrow> ('k, 'v) hmap \<Rightarrow> ('k, 'v) hmap" where
  "hm_retain P m = filter (\<lambda>(k, v). P k v) m"

definition hm_contains :: "('k, 'v) hmap \<Rightarrow> 'k \<Rightarrow> bool" where
  "hm_contains m k \<longleftrightarrow> hm_get m k \<noteq> None"

definition hm_keys :: "('k, 'v) hmap \<Rightarrow> 'k set" where
  "hm_keys m = fst ` set m"

lemma hm_get_mem: "hm_ok m \<Longrightarrow> (k, v) \<in> set m \<longleftrightarrow> hm_get m k = Some v"
  by (auto simp: hm_ok_def hm_get_def)

lemma hm_keys_get: "k \<in> hm_keys m \<longleftrightarrow> hm_get m k \<noteq> None"
  by (auto simp: hm_keys_def hm_get_def map_of_eq_None_iff)

text \<open>The contract of a map, and what its clients derive from it once.\<close>

locale hash_map =
  fixes ok :: "'m \<Rightarrow> bool"
    and get :: "'m \<Rightarrow> 'k \<Rightarrow> 'v option"
    and ins :: "'k \<Rightarrow> 'v \<Rightarrow> 'm \<Rightarrow> 'm"
    and rem :: "'k \<Rightarrow> 'm \<Rightarrow> 'm"
    and ret :: "('k \<Rightarrow> 'v \<Rightarrow> bool) \<Rightarrow> 'm \<Rightarrow> 'm"
    and len :: "'m \<Rightarrow> nat"
    and emp :: "'m"
  assumes ok_emp: "ok emp"
    and get_emp: "get emp k = None"
    and get_ins: "get (ins k v m) k' = (if k' = k then Some v else get m k')"
    and get_rem: "get (rem k m) k' = (if k' = k then None else get m k')"
    and get_ret: "ok m \<Longrightarrow> get (ret P m) k' =
          (case get m k' of None \<Rightarrow> None | Some v \<Rightarrow> if P k' v then Some v else None)"
    and ok_ins: "ok m \<Longrightarrow> ok (ins k v m)"
    and ok_rem: "ok m \<Longrightarrow> ok (rem k m)"
    and ok_ret: "ok m \<Longrightarrow> ok (ret P m)"
    and len_card: "ok m \<Longrightarrow> len m = card {k. get m k \<noteq> None}"
    and fin: "finite {k. get m k \<noteq> None}"
begin

lemma get_ins_same: "get (ins k v m) k = Some v"
  by (simp add: get_ins)

lemma get_rem_same: "get (rem k m) k = None"
  by (simp add: get_rem)

lemma get_ins_other: "k' \<noteq> k \<Longrightarrow> get (ins k v m) k' = get m k'"
  by (simp add: get_ins)

lemma get_rem_Some: "get (rem k m) k' = Some v \<longleftrightarrow> k' \<noteq> k \<and> get m k' = Some v"
  by (simp add: get_rem)

lemma get_ret_Some: "ok m \<Longrightarrow> get (ret P m) k = Some v \<longleftrightarrow> get m k = Some v \<and> P k v"
  by (auto simp: get_ret split: option.splits if_splits)

lemma dom_ins: "{k'. get (ins k v m) k' \<noteq> None} = insert k {k'. get m k' \<noteq> None}"
  by (auto simp: get_ins)

lemma len_ins_new:
  assumes "ok m" and "get m k = None"
  shows "len (ins k v m) = Suc (len m)"
  using assms by (simp add: len_card ok_ins dom_ins fin del: not_None_eq)

lemma len_ins_old:
  assumes "ok m" and "get m k \<noteq> None"
  shows "len (ins k v m) = len m"
proof -
  have "insert k {k'. get m k' \<noteq> None} = {k'. get m k' \<noteq> None}"
    using assms(2) by auto
  then show ?thesis using assms by (simp add: len_card ok_ins dom_ins del: not_None_eq)
qed

text \<open>A map with fewer entries than a key set is large misses one of its keys.\<close>

lemma free_key:
  assumes "ok m" and "finite K" and "len m < card K"
  shows "\<exists>k\<in>K. get m k = None"
proof (rule ccontr)
  assume "\<not> ?thesis"
  then have "K \<subseteq> {k. get m k \<noteq> None}" by auto
  then have "card K \<le> card {k. get m k \<noteq> None}" by (rule card_mono [OF fin])
  with assms show False by (simp add: len_card)
qed

end

lemma hm_dom_eq: "{k. hm_get m k \<noteq> None} = fst ` set m"
  by (auto simp: hm_get_def map_of_eq_None_iff)

lemma hm_get_filter:
  "hm_ok m \<Longrightarrow> hm_get (hm_retain P m) k =
     (case hm_get m k of None \<Rightarrow> None | Some v \<Rightarrow> if P k v then Some v else None)"
proof (induction m)
  case Nil
  then show ?case by (simp add: hm_get_def hm_retain_def)
next
  case (Cons kv m)
  obtain a b where kv: "kv = (a, b)" by (cases kv)
  from Cons.prems kv have ok: "hm_ok m" and na: "map_of m a = None"
    by (auto simp: hm_ok_def map_of_eq_None_iff)
  have na': "map_of (filter (\<lambda>(k, v). P k v) m) a = None"
    using na by (auto simp: map_of_eq_None_iff)
  show ?case
    using Cons.IH [OF ok] kv na na'
    by (auto simp: hm_get_def hm_retain_def split: option.splits)
qed

interpretation hm: hash_map hm_ok hm_get hm_insert hm_remove hm_retain length "[]"
proof (unfold_locales, goal_cases)
  case 1 show ?case by (simp add: hm_ok_def)
next
  case 2 show ?case by (simp add: hm_get_def)
next
  case 3 show ?case by (simp add: hm_get_def hm_insert_def update_conv')
next
  case 4 show ?case by (simp add: hm_get_def hm_remove_def delete_conv')
next
  case 5 then show ?case by (rule hm_get_filter)
next
  case 6 then show ?case by (simp add: hm_ok_def hm_insert_def distinct_update)
next
  case 7 then show ?case by (simp add: hm_ok_def hm_remove_def distinct_delete)
next
  case 8 then show ?case by (auto simp: hm_ok_def hm_retain_def intro: distinct_map_filter)
next
  case 9 then show ?case
    by (metis distinct_card hm_dom_eq hm_ok_def length_map list.set_map)
next
  case 10 show ?case by (simp add: hm_dom_eq del: not_None_eq)
qed

lemmas hm_simps [simp] = hm.get_emp hm.get_ins hm.get_rem hm.ok_emp hm.ok_ins hm.ok_rem hm.ok_ret
  hm.get_ret_Some

section \<open>Codecs\<close>

text \<open>
  The contract of a wire format: on well-formed values the decoder inverts the encoder, whatever
  follows on the wire (Ethernet pads short frames), and whatever it accepts is well formed and
  re-encodes to a prefix of the input.
\<close>

locale codec =
  fixes wf :: "'a \<Rightarrow> bool"
    and enc :: "'a \<Rightarrow> bytes"
    and dec :: "bytes \<Rightarrow> 'a option"
  assumes dec_enc: "wf x \<Longrightarrow> dec (enc x @ pad) = Some x"
    and dec_wf: "dec bs = Some x \<Longrightarrow> wf x"
    and enc_dec: "dec bs = Some x \<Longrightarrow> \<exists>pad. bs = enc x @ pad"
begin

lemma round_trip: "wf x \<Longrightarrow> dec (enc x) = Some x"
  using dec_enc [of x "[]"] by simp

lemma enc_inj: "wf x \<Longrightarrow> wf y \<Longrightarrow> enc x = enc y \<Longrightarrow> x = y"
  using round_trip by (metis option.inject)

lemma enc_prefix_free: "wf x \<Longrightarrow> wf y \<Longrightarrow> enc x @ p = enc y @ q \<Longrightarrow> x = y \<and> p = q"
  by (metis dec_enc option.inject same_append_eq)

lemma dec_pad: "dec bs = Some x \<Longrightarrow> dec (bs @ pad) = Some x"
  using dec_enc dec_wf enc_dec by (metis append_assoc)

lemma dec_iff: "dec bs = Some x \<longleftrightarrow> wf x \<and> (\<exists>pad. bs = enc x @ pad)"
  using dec_enc dec_wf enc_dec by blast

end

text \<open>
  A stream of type-length-value elements, decoded by a loop that stops silently at the first
  element it cannot read.  \<open>stop\<close> marks elements after which the loop also stops.
\<close>

locale tlv_stream =
  fixes wf :: "'a \<Rightarrow> bool"
    and stop :: "'a \<Rightarrow> bool"
    and enc :: "'a \<Rightarrow> bytes"
    and dec :: "bytes \<Rightarrow> 'a list"
  assumes dec_nil: "dec [] = []"
    and dec_cons: "wf x \<Longrightarrow> \<not> stop x \<Longrightarrow> dec (enc x @ rest) = x # dec rest"
    and dec_stop: "wf x \<Longrightarrow> stop x \<Longrightarrow> dec (enc x @ rest) = [x]"
    and dec_wf: "x \<in> set (dec bs) \<Longrightarrow> wf x"
begin

lemma dec_append:
  "\<forall>x\<in>set xs. wf x \<and> \<not> stop x \<Longrightarrow> dec (concat (map enc xs) @ rest) = xs @ dec rest"
  by (induction xs) (auto simp: dec_cons)

lemma dec_concat: "\<forall>x\<in>set xs. wf x \<and> \<not> stop x \<Longrightarrow> dec (concat (map enc xs)) = xs"
  using dec_append [of xs "[]"] by (simp add: dec_nil)

lemma dec_concat_stop:
  "\<forall>x\<in>set xs. wf x \<and> \<not> stop x \<Longrightarrow> wf y \<Longrightarrow> stop y \<Longrightarrow>
     dec (concat (map enc xs) @ enc y @ rest) = xs @ [y]"
  by (simp add: dec_append dec_stop)

end

locale tlv_exact = tlv_stream +
  assumes dec_prefix: "\<exists>rest. bs = concat (map enc (dec bs)) @ rest"
begin

text \<open>What was read, written back, is a prefix of the input and reads back the same.\<close>

lemma dec_length: "length (concat (map enc (dec bs))) \<le> length bs"
  using dec_prefix [of bs] by (metis le_add1 length_append)

lemma canonical:
  assumes "\<forall>x\<in>set (dec bs). \<not> stop x"
  shows "dec (concat (map enc (dec bs))) = dec bs"
  using assms dec_wf by (blast intro: dec_concat)

end

end
