(* ===== verification/Net.thy ===== *)
theory Net
  imports Prelude
begin

text \<open>
  MAC addresses (\<open>landscape-common/src/net.rs\<close>) and the standard library's lossy UTF-8 decoding,
  which the PPPoE client uses on the access concentrator's name.
\<close>

section \<open>MacAddr\<close>

datatype MacAddr = MacAddr u8 u8 u8 u8 u8 u8

definition MacAddr_new :: "u8 \<Rightarrow> u8 \<Rightarrow> u8 \<Rightarrow> u8 \<Rightarrow> u8 \<Rightarrow> u8 \<Rightarrow> MacAddr" where
  "MacAddr_new a b c d e f = MacAddr a b c d e f"

definition MacAddr_zero :: MacAddr where
  "MacAddr_zero = MacAddr 0 0 0 0 0 0"

definition MacAddr_broadcast :: MacAddr where
  "MacAddr_broadcast = MacAddr 0xff 0xff 0xff 0xff 0xff 0xff"

definition MacAddr_dummy :: MacAddr where
  "MacAddr_dummy = MacAddr_new 0x00 0x00 0x5e 0x00 0x53 0x00"

definition MacAddr_is_zero :: "MacAddr \<Rightarrow> bool" where
  "MacAddr_is_zero m \<longleftrightarrow> m = MacAddr_zero"

fun MacAddr_is_local :: "MacAddr \<Rightarrow> bool" where
  "MacAddr_is_local (MacAddr a b c d e f) \<longleftrightarrow> a AND 0x02 = 0x02"

definition MacAddr_is_universal :: "MacAddr \<Rightarrow> bool" where
  "MacAddr_is_universal m \<longleftrightarrow> \<not> MacAddr_is_local m"

fun MacAddr_is_multicast :: "MacAddr \<Rightarrow> bool" where
  "MacAddr_is_multicast (MacAddr a b c d e f) \<longleftrightarrow> a AND 0x01 = 0x01"

definition MacAddr_is_unicast :: "MacAddr \<Rightarrow> bool" where
  "MacAddr_is_unicast m \<longleftrightarrow> \<not> MacAddr_is_multicast m"

definition MacAddr_is_broadcast :: "MacAddr \<Rightarrow> bool" where
  "MacAddr_is_broadcast m \<longleftrightarrow> m = MacAddr_broadcast"

fun octets :: "MacAddr \<Rightarrow> bytes" where
  "octets (MacAddr a b c d e f) = [a, b, c, d, e, f]"

fun u32_ckecksum :: "MacAddr \<Rightarrow> u32" where
  "u32_ckecksum (MacAddr a b c d e f) =
     (push_bit 24 (ucast a) + push_bit 16 (ucast b) + push_bit 8 (ucast c) + ucast d) +
     push_bit 16 (push_bit 24 (ucast e) + ucast f)"

text \<open>\<open>to_ipv6_link_local\<close>: the eight 16-bit segments handed to \<open>Ipv6Addr::new\<close>.\<close>

fun to_ipv6_link_local :: "MacAddr \<Rightarrow> u16 list" where
  "to_ipv6_link_local (MacAddr a b c d e f) =
     [0xfe80, 0, 0, 0,
      push_bit 8 (ucast (a XOR 0x02)) OR ucast b,
      push_bit 8 (ucast c) OR 0xff,
      push_bit 8 0xfe OR ucast d,
      push_bit 8 (ucast e) OR ucast f]"

definition MacAddr_from_arry :: "bytes \<Rightarrow> MacAddr option" where
  "MacAddr_from_arry s =
     (if length s \<noteq> 6 then None
      else Some (MacAddr_new (s ! 0) (s ! 1) (s ! 2) (s ! 3) (s ! 4) (s ! 5)))"

lemma length_octets [simp]: "length (octets m) = 6"
  by (cases m) simp

lemma octets_inject: "octets m = octets m' \<longleftrightarrow> m = m'"
  by (cases m; cases m') simp

lemma from_arry_octets [simp]: "MacAddr_from_arry (octets m) = Some m"
  by (cases m) (simp add: MacAddr_from_arry_def MacAddr_new_def)

lemma from_arry_Some: "MacAddr_from_arry s = Some m \<longleftrightarrow> s = octets m"
proof
  assume a: "MacAddr_from_arry s = Some m"
  then have "length s = 6" by (simp add: MacAddr_from_arry_def split: if_splits)
  then obtain a b c d e f where "s = [a, b, c, d, e, f]"
    by (auto simp: length_Suc_conv eval_nat_numeral)
  with a show "s = octets m" by (auto simp: MacAddr_from_arry_def MacAddr_new_def)
qed simp

section \<open>String::from\_utf8\_lossy\<close>

definition is_cont :: "u8 \<Rightarrow> bool" where
  "is_cont b \<longleftrightarrow> 0x80 \<le> b \<and> b \<le> 0xbf"

text \<open>
  One step of the scanner of \<open>Utf8Chunks\<close>: how many bytes the next character or the next maximal
  broken subpart takes, and whether it is a character.
\<close>

fun second_ok3 :: "u8 \<Rightarrow> u8 \<Rightarrow> bool" where
  "second_ok3 b0 b1 \<longleftrightarrow>
     (if b0 = 0xe0 then 0xa0 \<le> b1 \<and> b1 \<le> 0xbf
      else if b0 = 0xed then 0x80 \<le> b1 \<and> b1 \<le> 0x9f
      else is_cont b1)"

fun second_ok4 :: "u8 \<Rightarrow> u8 \<Rightarrow> bool" where
  "second_ok4 b0 b1 \<longleftrightarrow>
     (if b0 = 0xf0 then 0x90 \<le> b1 \<and> b1 \<le> 0xbf
      else if b0 = 0xf4 then 0x80 \<le> b1 \<and> b1 \<le> 0x8f
      else is_cont b1)"

definition byte_at :: "bytes \<Rightarrow> nat \<Rightarrow> u8" where
  "byte_at s i = (if i < length s then s ! i else 0)"

definition utf8_step :: "bytes \<Rightarrow> nat \<times> bool" where
  "utf8_step s =
     (let b0 = byte_at s 0; b1 = byte_at s 1; b2 = byte_at s 2; b3 = byte_at s 3
      in if b0 < 0x80 then (1, True)
         else if 0xc2 \<le> b0 \<and> b0 \<le> 0xdf then (if is_cont b1 then (2, True) else (1, False))
         else if 0xe0 \<le> b0 \<and> b0 \<le> 0xef then
           (if \<not> second_ok3 b0 b1 then (1, False)
            else if \<not> is_cont b2 then (2, False) else (3, True))
         else if 0xf0 \<le> b0 \<and> b0 \<le> 0xf4 then
           (if \<not> second_ok4 b0 b1 then (1, False)
            else if \<not> is_cont b2 then (2, False)
            else if \<not> is_cont b3 then (3, False) else (4, True))
         else (1, False))"

lemma utf8_step_pos: "0 < fst (utf8_step s)"
  by (simp add: utf8_step_def Let_def)

function from_utf8_lossy :: "bytes \<Rightarrow> bytes" where
  "from_utf8_lossy s =
     (if s = [] then []
      else let n = fst (utf8_step s); ok = snd (utf8_step s)
           in (if ok then take n s else [0xef, 0xbf, 0xbd]) @ from_utf8_lossy (drop n s))"
  by pat_completeness auto
termination
  by (relation "measure length") (use utf8_step_pos in auto)

declare from_utf8_lossy.simps [simp del]

lemma from_utf8_lossy_ascii: "\<forall>b\<in>set s. b < 0x80 \<Longrightarrow> from_utf8_lossy s = s"
proof (induction s)
  case Nil
  then show ?case by (simp add: from_utf8_lossy.simps)
next
  case (Cons b s)
  then have "utf8_step (b # s) = (1, True)" by (simp add: utf8_step_def byte_at_def)
  with Cons show ?case by (subst from_utf8_lossy.simps) simp
qed

end
