(* ===== verification/Ppp_Codec.thy ===== *)
theory Ppp_Codec
  imports Prelude
begin

text \<open>
  The PPP packet format, \<open>landscape-common/src/net_proto/ppp/\<close>: the packet \<open>PointToPoint\<close>
  (\<open>frame.rs\<close>) with its parser, printer, classifiers and constructors, and the option list
  \<open>PPPOption\<close> (\<open>options.rs\<close>).  Both are shown to be codecs: parsing inverts printing, also under
  trailing padding, and printing inverts parsing up to that padding.
  Rust strings are their UTF-8 bytes; MD5 is an argument of the CHAP response.
\<close>

section \<open>PointToPoint\<close>

record PointToPoint =
  ppp_protocol :: u16
  ppp_code :: u8
  ppp_id :: u8
  ppp_length :: u16
  ppp_payload :: bytes

definition PointToPoint_new :: "bytes \<Rightarrow> PointToPoint option" where
  "PointToPoint_new data =
     (if length data < 6 then None
      else let protocol = u16_from_be_bytes (data ! 0) (data ! 1);
               code = data ! 2;
               id = data ! 3;
               len = u16_from_be_bytes (data ! 4) (data ! 5)
           in if len < 4 then None
              else let data_end = unat len + 2
                   in if data_end > length data then None
                      else Some \<lparr>ppp_protocol = protocol, ppp_code = code, ppp_id = id,
                                 ppp_length = len, ppp_payload = slice 6 data_end data\<rparr>)"

definition is_lcp_config :: "PointToPoint \<Rightarrow> bool" where
  "is_lcp_config p \<longleftrightarrow> ppp_protocol p = 0xc021"

definition is_pap_auth :: "PointToPoint \<Rightarrow> bool" where
  "is_pap_auth p \<longleftrightarrow> ppp_protocol p = 0xc023"

definition is_ipcp :: "PointToPoint \<Rightarrow> bool" where
  "is_ipcp p \<longleftrightarrow> ppp_protocol p = 0x8021"

definition is_ipv6cp :: "PointToPoint \<Rightarrow> bool" where
  "is_ipv6cp p \<longleftrightarrow> ppp_protocol p = 0x8057"

definition is_chap :: "PointToPoint \<Rightarrow> bool" where
  "is_chap p \<longleftrightarrow> ppp_protocol p = 0xc223"

definition is_request :: "PointToPoint \<Rightarrow> bool" where
  "is_request p \<longleftrightarrow> ppp_code p = 1"

definition is_ack :: "PointToPoint \<Rightarrow> bool" where
  "is_ack p \<longleftrightarrow> ppp_code p = 2"

definition is_nak :: "PointToPoint \<Rightarrow> bool" where
  "is_nak p \<longleftrightarrow> ppp_code p = 3"

definition is_reject :: "PointToPoint \<Rightarrow> bool" where
  "is_reject p \<longleftrightarrow> ppp_code p = 4"

definition is_termination :: "PointToPoint \<Rightarrow> bool" where
  "is_termination p \<longleftrightarrow> ppp_code p = 5"

definition is_termination_ack :: "PointToPoint \<Rightarrow> bool" where
  "is_termination_ack p \<longleftrightarrow> ppp_code p = 6"

definition is_proto_reject :: "PointToPoint \<Rightarrow> bool" where
  "is_proto_reject p \<longleftrightarrow> ppp_code p = 8"

definition is_echo_request :: "PointToPoint \<Rightarrow> bool" where
  "is_echo_request p \<longleftrightarrow> ppp_code p = 9"

definition is_echo_reply :: "PointToPoint \<Rightarrow> bool" where
  "is_echo_reply p \<longleftrightarrow> ppp_code p = 10"

definition is_challenge :: "PointToPoint \<Rightarrow> bool" where
  "is_challenge p \<longleftrightarrow> ppp_code p = 1"

definition is_chap_success :: "PointToPoint \<Rightarrow> bool" where
  "is_chap_success p \<longleftrightarrow> ppp_code p = 3"

definition is_chap_failure :: "PointToPoint \<Rightarrow> bool" where
  "is_chap_failure p \<longleftrightarrow> ppp_code p = 4"

lemmas ppp_code_defs = is_request_def is_ack_def is_nak_def is_reject_def is_termination_def
  is_termination_ack_def is_proto_reject_def is_echo_request_def is_echo_reply_def
  is_challenge_def is_chap_success_def is_chap_failure_def

lemmas ppp_protocol_defs = is_lcp_config_def is_pap_auth_def is_ipcp_def is_ipv6cp_def is_chap_def

subsection \<open>Constructors\<close>

definition request_mru :: "u8 \<Rightarrow> u16 \<Rightarrow> u32 \<Rightarrow> bytes" where
  "request_mru request_id mru magic_number =
     concat [[0xc0, 0x21, 1, request_id], u16_to_be_bytes 14, [1, 4], u16_to_be_bytes mru,
             [5, 6], u32_to_be_bytes magic_number]"

definition request_mru_with_auth :: "u8 \<Rightarrow> u16 \<Rightarrow> u32 \<Rightarrow> u16 \<Rightarrow> bytes" where
  "request_mru_with_auth request_id mru magic_number auth_type =
     concat [[0xc0, 0x21, 1, request_id], u16_to_be_bytes 18, [1, 4], u16_to_be_bytes mru,
             [3, 4], u16_to_be_bytes auth_type, [5, 6], u32_to_be_bytes magic_number]"

definition ack_mru :: "u8 \<Rightarrow> u16 \<Rightarrow> u32 \<Rightarrow> bytes" where
  "ack_mru request_id mru magic_number =
     concat [[0xc0, 0x21, 2, request_id], u16_to_be_bytes 14, [1, 4], u16_to_be_bytes mru,
             [5, 6], u32_to_be_bytes magic_number]"

definition nak_mru :: "u8 \<Rightarrow> u16 \<Rightarrow> u32 \<Rightarrow> bytes" where
  "nak_mru request_id mru magic_number =
     concat [[0xc0, 0x21, 3, request_id], u16_to_be_bytes 14, [1, 4], u16_to_be_bytes mru,
             [5, 6], u32_to_be_bytes magic_number]"

definition gen_reject :: "PointToPoint \<Rightarrow> bytes \<Rightarrow> bytes" where
  "gen_reject p reject_option =
     u16_to_be_bytes (ppp_protocol p) @ [4] @ [ppp_id p] @
     u16_to_be_bytes (word_of_nat (length reject_option) + 4) @ reject_option"

definition gen_ack :: "PointToPoint \<Rightarrow> bytes" where
  "gen_ack p =
     u16_to_be_bytes (ppp_protocol p) @ [2] @ [ppp_id p] @
     u16_to_be_bytes (ppp_length p) @ ppp_payload p"

definition gen_reply_with_magic :: "PointToPoint \<Rightarrow> u32 \<Rightarrow> bytes" where
  "gen_reply_with_magic p magic_number =
     u16_to_be_bytes (ppp_protocol p) @ [10] @ [ppp_id p] @
     u16_to_be_bytes 8 @ u32_to_be_bytes magic_number"

definition gen_echo_request_with_magic :: "u8 \<Rightarrow> u32 \<Rightarrow> bytes" where
  "gen_echo_request_with_magic req_id magic_number =
     [0xc0, 0x21] @ [9] @ [req_id] @ u16_to_be_bytes 8 @ u32_to_be_bytes magic_number"

definition gen_pap :: "bytes \<Rightarrow> bytes \<Rightarrow> PointToPoint" where
  "gen_pap peer_id password =
     (let payload = [word_of_nat (length peer_id)] @ peer_id @
                    [word_of_nat (length password)] @ password
      in \<lparr>ppp_protocol = 0xc023, ppp_code = 1, ppp_id = 1,
          ppp_length = word_of_nat (length payload) + 4, ppp_payload = payload\<rparr>)"

definition gen_chap_response :: "(bytes \<Rightarrow> bytes) \<Rightarrow> u8 \<Rightarrow> bytes \<Rightarrow> bytes \<Rightarrow> bytes \<Rightarrow> bytes" where
  "gen_chap_response md5 req_id peer_id password challenge =
     (let hash = md5 ([req_id] @ password @ challenge);
          payload = [16] @ hash @ peer_id;
          len = word_of_nat (length payload + 4) :: u16
      in [0xc2, 0x23, 2, req_id] @ u16_to_be_bytes len @ payload)"

definition get_ipcp_request_only_client_ip :: "u8 \<Rightarrow> u32 \<Rightarrow> PointToPoint" where
  "get_ipcp_request_only_client_ip req_id ip =
     \<lparr>ppp_protocol = 0x8021, ppp_code = 1, ppp_id = req_id, ppp_length = 10,
      ppp_payload = [3, 6] @ u32_to_be_bytes ip\<rparr>"

definition get_ipv6cp_request :: "bytes \<Rightarrow> u8 \<Rightarrow> PointToPoint" where
  "get_ipv6cp_request ipv6_interface_id req_id =
     (let options = [1, 0x0a] @ ipv6_interface_id
      in \<lparr>ppp_protocol = 0x8057, ppp_code = 1, ppp_id = req_id,
          ppp_length = word_of_nat (length options) + 4, ppp_payload = options\<rparr>)"

definition get_termination_request :: "u8 \<Rightarrow> PointToPoint" where
  "get_termination_request req_id =
     (let options = [0x55, 0x73, 0x65, 0x72, 0x20, 0x72, 0x65, 0x71, 0x75, 0x65, 0x73, 0x74]
      in \<lparr>ppp_protocol = 0xc021, ppp_code = 5, ppp_id = req_id,
          ppp_length = word_of_nat (length options) + 4, ppp_payload = options\<rparr>)"

definition get_termination_ack :: "PointToPoint \<Rightarrow> bytes" where
  "get_termination_ack p =
     u16_to_be_bytes (ppp_protocol p) @ [6] @ [ppp_id p] @
     u16_to_be_bytes (ppp_length p) @ ppp_payload p"

definition PointToPoint_convert_to_payload :: "PointToPoint \<Rightarrow> bytes" where
  "PointToPoint_convert_to_payload p =
     u16_to_be_bytes (ppp_protocol p) @ [ppp_code p] @ [ppp_id p] @
     u16_to_be_bytes (ppp_length p) @ ppp_payload p"

section \<open>PPPOption\<close>

record PPPOption =
  opt_t :: u8
  opt_length :: u8
  opt_data :: bytes

function PPPOption_loop :: "bytes \<Rightarrow> nat \<Rightarrow> PPPOption list" where
  "PPPOption_loop data index =
     (if index + 2 > length data then []
      else let t = data ! index
           in if t = 0 then []
              else let len = data ! (index + 1)
                   in if len < 2 then []
                      else let data_end = index + unat len
                           in if data_end > length data then []
                              else \<lparr>opt_t = t, opt_length = len,
                                    opt_data = slice (index + 2) data_end data\<rparr>
                                   # PPPOption_loop data data_end)"
  by pat_completeness auto
termination
proof (relation "measure (\<lambda>(data, index). length data - index)", goal_cases)
  case 1
  show ?case by simp
next
  case (2 data index t len data_end)
  then have "2 \<le> unat len" by (simp add: word_less_nat_alt)
  with 2 show ?case by auto
qed

declare PPPOption_loop.simps [simp del]

definition PPPOption_from_bytes :: "bytes \<Rightarrow> PPPOption list" where
  "PPPOption_from_bytes data = PPPOption_loop data 0"

definition is_mru :: "PPPOption \<Rightarrow> bool" where
  "is_mru op \<longleftrightarrow> opt_t op = 0x01"

definition is_auth_type :: "PPPOption \<Rightarrow> bool" where
  "is_auth_type op \<longleftrightarrow> opt_t op = 0x03"

definition is_magic_number :: "PPPOption \<Rightarrow> bool" where
  "is_magic_number op \<longleftrightarrow> opt_t op = 0x05"

definition PPPOption_convert_to_payload :: "PPPOption \<Rightarrow> bytes" where
  "PPPOption_convert_to_payload op = [opt_t op, opt_length op] @ opt_data op"

section \<open>The packet codec\<close>

definition ppp_wf :: "PointToPoint \<Rightarrow> bool" where
  "ppp_wf p \<longleftrightarrow> unat (ppp_length p) = length (ppp_payload p) + 4"

text \<open>All printers lay out the same header; only the four header bytes differ.\<close>

lemma new_header:
  assumes "unat len = length body + 4"
  shows "PointToPoint_new (u16_to_be_bytes proto @ [c] @ [i] @ u16_to_be_bytes len @ body @ pad) =
    Some \<lparr>ppp_protocol = proto, ppp_code = c, ppp_id = i, ppp_length = len, ppp_payload = body\<rparr>"
proof -
  have "\<not> len < 4" using assms by (simp add: word_less_nat_alt)
  moreover have "slice 6 (unat len + 2)
      (u16_to_be_bytes proto @ [c] @ [i] @ u16_to_be_bytes len @ body @ pad) = body"
    using assms by (simp add: slice_def u16_to_be_bytes_def)
  ultimately show ?thesis
    using assms by (simp add: PointToPoint_new_def u16_to_be_bytes_def Let_def slice_def)
qed

lemma new_SomeD:
  assumes "PointToPoint_new bs = Some p"
  shows "ppp_wf p \<and> (\<exists>pad. bs = PointToPoint_convert_to_payload p @ pad)"
proof -
  let ?len = "u16_from_be_bytes (bs ! 4) (bs ! 5)"
  from assms have l6: "6 \<le> length bs" and l4: "4 \<le> unat ?len" and le: "unat ?len + 2 \<le> length bs"
    and p: "p = \<lparr>ppp_protocol = u16_from_be_bytes (bs ! 0) (bs ! 1), ppp_code = bs ! 2,
        ppp_id = bs ! 3, ppp_length = ?len, ppp_payload = slice 6 (unat ?len + 2) bs\<rparr>"
    by (auto simp: PointToPoint_new_def Let_def word_less_nat_alt split: if_splits)
  obtain a b c d e f r where bs: "bs = a # b # c # d # e # f # r"
    using l6 by (auto simp: Suc_le_length_iff eval_nat_numeral)
  have wf: "ppp_wf p"
    using l4 le p by (auto simp: ppp_wf_def)
  have "PointToPoint_convert_to_payload p = [a, b, c, d, e, f] @ take (unat ?len - 4) r"
    using p bs by (simp add: PointToPoint_convert_to_payload_def slice_def)
  then have "bs = PointToPoint_convert_to_payload p @ drop (unat ?len - 4) r"
    using bs by simp
  with wf show ?thesis by blast
qed

interpretation ppp: codec ppp_wf PointToPoint_convert_to_payload PointToPoint_new
proof (unfold_locales, goal_cases)
  case (1 x pad)
  then show ?case
    using new_header [of "ppp_length x" "ppp_payload x" "ppp_protocol x" "ppp_code x" "ppp_id x" pad]
    by (simp add: ppp_wf_def PointToPoint_convert_to_payload_def)
next
  case 2
  then show ?case by (simp add: new_SomeD)
next
  case 3
  then show ?case by (simp add: new_SomeD)
qed

lemma new_gen_ack: "ppp_wf p \<Longrightarrow> PointToPoint_new (gen_ack p) = Some (p\<lparr>ppp_code := 2\<rparr>)"
  using new_header [of "ppp_length p" "ppp_payload p" _ _ _ "[]"]
  by (simp add: gen_ack_def ppp_wf_def)

lemma new_get_termination_ack:
  "ppp_wf p \<Longrightarrow> PointToPoint_new (get_termination_ack p) = Some (p\<lparr>ppp_code := 6\<rparr>)"
  using new_header [of "ppp_length p" "ppp_payload p" _ _ _ "[]"]
  by (simp add: get_termination_ack_def ppp_wf_def)

lemma unat_len_plus4:
  "n + 4 < 65536 \<Longrightarrow> unat ((word_of_nat n :: u16) + 4) = n + 4"
proof -
  assume a: "n + 4 < 65536"
  have "(word_of_nat n :: u16) + 4 = word_of_nat (n + 4)" by simp
  with a show ?thesis by (metis unat_word_of_nat_u16)
qed

lemma new_gen_reject:
  "length opts + 4 < 65536 \<Longrightarrow> PointToPoint_new (gen_reject p opts) =
     Some (p\<lparr>ppp_code := 4, ppp_length := word_of_nat (length opts) + 4, ppp_payload := opts\<rparr>)"
  using new_header [of "word_of_nat (length opts) + 4" opts _ _ _ "[]"]
  by (simp add: gen_reject_def unat_len_plus4)

lemma new_gen_reply_with_magic:
  "PointToPoint_new (gen_reply_with_magic p m) =
     Some (p\<lparr>ppp_code := 10, ppp_length := 8, ppp_payload := u32_to_be_bytes m\<rparr>)"
  using new_header [of 8 "u32_to_be_bytes m" _ _ _ "[]"]
  by (simp add: gen_reply_with_magic_def)

lemma c021_bytes: "u16_to_be_bytes 0xc021 = [0xc0, 0x21]"
  by (simp add: u16_to_be_bytes_def)

lemma c223_bytes: "u16_to_be_bytes 0xc223 = [0xc2, 0x23]"
  by (simp add: u16_to_be_bytes_def)

lemma new_gen_echo_request_with_magic:
  "PointToPoint_new (gen_echo_request_with_magic i m) =
     Some \<lparr>ppp_protocol = 0xc021, ppp_code = 9, ppp_id = i, ppp_length = 8,
           ppp_payload = u32_to_be_bytes m\<rparr>"
  using new_header [of 8 "u32_to_be_bytes m" "0xc021" 9 i "[]"]
  by (simp add: gen_echo_request_with_magic_def c021_bytes)

lemma new_gen_chap_response:
  assumes "\<And>x. length (md5 x) = 16" and "length peer_id + 21 < 65536"
  shows "PointToPoint_new (gen_chap_response md5 i peer_id password challenge) =
     Some \<lparr>ppp_protocol = 0xc223, ppp_code = 2, ppp_id = i,
           ppp_length = word_of_nat (length peer_id + 21),
           ppp_payload = [16] @ md5 ([i] @ password @ challenge) @ peer_id\<rparr>"
proof -
  let ?pl = "[16] @ md5 ([i] @ password @ challenge) @ peer_id"
  have l: "length ?pl + 4 = length peer_id + 21" using assms(1) by simp
  then have "unat (word_of_nat (length ?pl + 4) :: u16) = length ?pl + 4"
    using assms(2) by (simp only: unat_word_of_nat_u16)
  from new_header [OF this, of "0xc223" 2 i "[]"] show ?thesis
    by (simp only: gen_chap_response_def Let_def l) (simp add: c223_bytes)
qed

lemma ppp_wf_gen_pap:
  "length peer_id + length password + 6 < 65536 \<Longrightarrow> ppp_wf (gen_pap peer_id password)"
  using unat_len_plus4 [of "length peer_id + length password + 2"]
  by (simp add: ppp_wf_def gen_pap_def Let_def add.commute add.left_commute)

lemma ppp_wf_ipcp_request: "ppp_wf (get_ipcp_request_only_client_ip i ip)"
  by (simp add: ppp_wf_def get_ipcp_request_only_client_ip_def)

lemma ppp_wf_ipv6cp_request:
  "length iid + 6 < 65536 \<Longrightarrow> ppp_wf (get_ipv6cp_request iid i)"
  using unat_len_plus4 [of "length iid + 2"]
  by (simp add: ppp_wf_def get_ipv6cp_request_def Let_def)

lemma ppp_wf_termination_request: "ppp_wf (get_termination_request i)"
  by (simp add: ppp_wf_def get_termination_request_def Let_def)

section \<open>The option codec\<close>

definition opt_wf :: "PPPOption \<Rightarrow> bool" where
  "opt_wf op \<longleftrightarrow> opt_t op \<noteq> 0 \<and> unat (opt_length op) = length (opt_data op) + 2"

text \<open>The loop over an index is a recursion on the bytes that are left.\<close>

lemma loop_shift:
  "k \<le> length data \<Longrightarrow> PPPOption_loop (drop k data) i = PPPOption_loop data (k + i)"
proof (induction "length data - (k + i)" arbitrary: i rule: less_induct)
  case less
  show ?case
  proof (cases "k + i + 2 > length data")
    case True
    then show ?thesis by (subst (1 2) PPPOption_loop.simps) auto
  next
    case False
    have nth: "drop k data ! i = data ! (k + i)" "drop k data ! Suc i = data ! Suc (k + i)"
      using False by simp_all
    let ?len = "data ! Suc (k + i)"
    have sl: "slice (Suc (Suc i)) (i + unat ?len) (drop k data) =
              slice (Suc (Suc (k + i))) (k + i + unat ?len) data"
      by (simp add: slice_def add.commute add.left_commute)
    have rec: "PPPOption_loop (drop k data) (i + unat ?len) = PPPOption_loop data (k + i + unat ?len)"
      if "\<not> ?len < 2"
    proof -
      from that have "2 \<le> unat ?len" by (simp add: word_less_nat_alt)
      then have "length data - (k + (i + unat ?len)) < length data - (k + i)"
        using False by linarith
      then show ?thesis using less.hyps less.prems by (simp add: add.assoc)
    qed
    show ?thesis
      using False less.prems
      by (subst (1 2) PPPOption_loop.simps) (auto simp: nth sl rec Let_def)
  qed
qed

lemma from_bytes_unfold:
  "PPPOption_from_bytes data =
     (case data of
        t # len # rest \<Rightarrow>
          (if t = 0 \<or> len < 2 \<or> unat len > length data then []
           else \<lparr>opt_t = t, opt_length = len, opt_data = take (unat len - 2) rest\<rparr>
                # PPPOption_from_bytes (drop (unat len - 2) rest))
      | _ \<Rightarrow> [])"
proof (cases "length data < 2")
  case True
  then show ?thesis
    unfolding PPPOption_from_bytes_def
    by (subst PPPOption_loop.simps) (auto split: list.splits)
next
  case False
  then obtain t len rest where d: "data = t # len # rest"
    using list_ge2_cases [of data] by auto
  show ?thesis
  proof (cases "t = 0 \<or> len < 2 \<or> unat len > length data")
    case True
    then show ?thesis
      using d unfolding PPPOption_from_bytes_def
      by (subst PPPOption_loop.simps) (auto simp: Let_def)
  next
    case False
    then have ge: "2 \<le> unat len" by (simp add: word_less_nat_alt)
    then have dr: "drop (unat len) data = drop (unat len - 2) rest"
      using d by (cases "unat len") (auto simp: drop_Cons' )
    have "PPPOption_loop data (unat len) = PPPOption_loop (drop (unat len - 2) rest) 0"
      using loop_shift [of "unat len" data 0] False dr by simp
    then show ?thesis
      using d False ge unfolding PPPOption_from_bytes_def
      by (subst PPPOption_loop.simps) (auto simp: Let_def slice_def numeral_2_eq_2)
  qed
qed

lemma from_bytes_cons:
  assumes "opt_wf op"
  shows "PPPOption_from_bytes (PPPOption_convert_to_payload op @ rest) =
         op # PPPOption_from_bytes rest"
proof -
  have "\<not> opt_length op < 2"
    using assms by (simp add: opt_wf_def word_less_nat_alt)
  then show ?thesis
    using assms
    by (subst from_bytes_unfold) (simp add: PPPOption_convert_to_payload_def opt_wf_def)
qed

lemma from_bytes_wf_prefix:
  "(\<forall>op\<in>set (PPPOption_from_bytes bs). opt_wf op) \<and>
   (\<exists>rest. bs = concat (map PPPOption_convert_to_payload (PPPOption_from_bytes bs)) @ rest)"
proof (induction "length bs" arbitrary: bs rule: less_induct)
  case less
  show ?case
  proof (cases "PPPOption_from_bytes bs")
    case Nil
    then show ?thesis by simp
  next
    case (Cons op ops)
    obtain t len r where bs: "bs = t # len # r" and c: "t \<noteq> 0" "\<not> len < 2" "unat len \<le> length bs"
      and op: "op = \<lparr>opt_t = t, opt_length = len, opt_data = take (unat len - 2) r\<rparr>"
      and ops: "ops = PPPOption_from_bytes (drop (unat len - 2) r)"
      using Cons [unfolded from_bytes_unfold [of bs]] by (auto split: list.splits if_splits)
    have ge: "2 \<le> unat len" using c(2) by (simp add: word_less_nat_alt)
    let ?r = "drop (unat len - 2) r"
    have "length ?r < length bs" using bs by simp
    from less.hyps [OF this] obtain rest where
      wf: "\<forall>op\<in>set ops. opt_wf op" and pre: "?r = concat (map PPPOption_convert_to_payload ops) @ rest"
      unfolding ops by blast
    have "opt_wf op" using op c ge bs by (auto simp: opt_wf_def)
    moreover have "bs = PPPOption_convert_to_payload op @ ?r"
      using bs op by (simp add: PPPOption_convert_to_payload_def)
    then have "bs = concat (map PPPOption_convert_to_payload (op # ops)) @ rest"
      by (simp add: pre)
    ultimately show ?thesis
      unfolding Cons using wf by (metis set_ConsD)
  qed
qed

interpretation ppp_opts: tlv_exact opt_wf "\<lambda>_. False" PPPOption_convert_to_payload PPPOption_from_bytes
proof (unfold_locales, goal_cases)
  case 1
  show ?case by (subst from_bytes_unfold) simp
next
  case 2
  then show ?case by (simp add: from_bytes_cons)
next
  case 3
  then show ?case by simp
next
  case 4
  then show ?case using from_bytes_wf_prefix by blast
next
  case 5
  then show ?case using from_bytes_wf_prefix by blast
qed

section \<open>Properties\<close>

text \<open>C29: the PPP parser accepts exactly the printed packets.  \<open>PointToPoint::new\<close> returns a packet
  iff its length field is the payload's length plus four and the input is the packet's printed
  form followed by arbitrary padding, so printing then parsing and parsing then printing are
  inverse, and no other input is accepted.\<close>

theorem ppp_parser_exact:
  "PointToPoint_new bs = Some p \<longleftrightarrow>
     unat (ppp_length p) = length (ppp_payload p) + 4 \<and>
     (\<exists>pad. bs = PointToPoint_convert_to_payload p @ pad)"
  using ppp.dec_iff by (simp add: ppp_wf_def)

text \<open>The option parser is total and loses nothing before the point where it stops.  On any
  input the options it returns have a non-zero type and an exact length byte, their printed form
  is a prefix of the input, and parsing that prefix gives the same options again.\<close>

theorem ppp_options_canonical:
  "(\<exists>rest. bs = concat (map PPPOption_convert_to_payload (PPPOption_from_bytes bs)) @ rest) \<and>
   PPPOption_from_bytes (concat (map PPPOption_convert_to_payload (PPPOption_from_bytes bs))) =
     PPPOption_from_bytes bs \<and>
   list_all (\<lambda>op. opt_t op \<noteq> 0 \<and> unat (opt_length op) = length (opt_data op) + 2) (PPPOption_from_bytes bs)"
  using ppp_opts.dec_prefix [of bs] ppp_opts.canonical [of bs] ppp_opts.dec_wf [of _ bs]
  by (auto simp: list_all_iff opt_wf_def)

text \<open>C30: a PAP request carries its credentials unambiguously.  For a user name and a password of at
  most 255 bytes each, the request parses, and two requests with the same bytes have the same
  user name and the same password.\<close>

theorem pap_request_unambiguous:
  assumes "length u \<le> 255" "length w \<le> 255" "length u' \<le> 255" "length w' \<le> 255"
  shows "PointToPoint_new (PointToPoint_convert_to_payload (gen_pap u w)) = Some (gen_pap u w) \<and>
    (PointToPoint_convert_to_payload (gen_pap u w) = PointToPoint_convert_to_payload (gen_pap u' w')
       \<longleftrightarrow> u = u' \<and> w = w')"
proof -
  have wf: "ppp_wf (gen_pap u w)" "ppp_wf (gen_pap u' w')"
    using assms by (auto intro!: ppp_wf_gen_pap)
  have "u = u' \<and> w = w'" if "gen_pap u w = gen_pap u' w'"
  proof -
    from that have eq: "(word_of_nat (length u) :: u8) # u @ word_of_nat (length w) # w =
        word_of_nat (length u') # u' @ word_of_nat (length w') # w'"
      by (simp add: gen_pap_def Let_def)
    then have "unat (word_of_nat (length u) :: u8) = unat (word_of_nat (length u') :: u8)"
      by simp
    then have "length u = length u'"
      using assms by (simp add: unat_word_of_nat_u8)
    with eq show ?thesis by simp
  qed
  then show ?thesis
    using ppp.round_trip [OF wf(1)] ppp.enc_inj [OF wf] by blast
qed

theorem pap_request_unambiguous_witness:
  "PointToPoint_new (PointToPoint_convert_to_payload (gen_pap [0x75] [0x70, 0x77])) =
     Some (gen_pap [0x75] [0x70, 0x77]) \<and>
   PointToPoint_convert_to_payload (gen_pap [0x75] [0x70, 0x77]) \<noteq>
     PointToPoint_convert_to_payload (gen_pap [0x75, 0x70] [0x77])"
  using pap_request_unambiguous [of "[0x75]" "[0x70, 0x77]" "[0x75, 0x70]" "[0x77]"] by simp

end
