(* ===== verification/Pppoe_Codec.thy ===== *)
theory Pppoe_Codec
  imports Ppp_Codec
begin

text \<open>
  The PPPoE frame and its tags, \<open>landscape-common/src/net_proto/pppoe/\<close>: \<open>PPPoEFrame\<close>
  (\<open>frame.rs\<close>), and \<open>PPPoETag\<close> with the table the macro \<open>pppoe_tags!\<close> expands (\<open>tags.rs\<close>).
  \<open>PPPoEFrame::new\<close> keeps everything after the header as payload and does not cut it at the
  announced length, so the frame codec is exact only on unpadded input; the tag stream is a
  \<open>tlv_stream\<close> that stops at the first unknown tag type.
\<close>

section \<open>Tags\<close>

datatype PPPoETag =
    EndOfList
  | ServiceName bytes
  | AcName bytes
  | HostUniq u32
  | AcCookie bytes
  | VendorSpecific bytes
  | Credits u32
  | Metrics bytes
  | SequenceNumber u32
  | CreditScaleFactor u32
  | RelaySessionId bytes
  | HURL bytes
  | MOTM bytes
  | PPPMaxPayload u32
  | IPRouteAdd bytes
  | ServiceNameError bytes
  | ACSystemError bytes
  | GenericError bytes
  | Other u16 bytes

text \<open>\<open>impl TagDefined for u32\<close>; for \<open>Vec<u8>\<close> and \<open>EmptyTag\<close> decoding never fails.\<close>

definition TagDefined_u32_decode :: "bytes \<Rightarrow> u32 option" where
  "TagDefined_u32_decode data =
     (if length data \<noteq> 4 then None
      else Some (u32_from_be_bytes (data ! 0) (data ! 1) (data ! 2) (data ! 3)))"

definition u32_tag :: "u16 \<Rightarrow> (u32 \<Rightarrow> PPPoETag) \<Rightarrow> bytes \<Rightarrow> PPPoETag" where
  "u32_tag num mk data =
     (case TagDefined_u32_decode data of Some v \<Rightarrow> mk v | None \<Rightarrow> Other num data)"

text \<open>The \<open>match tag_type\<close> of the loop: the tag pushed, and whether the loop breaks.\<close>

definition match_tag :: "u16 \<Rightarrow> bytes \<Rightarrow> PPPoETag \<times> bool" where
  "match_tag tag_type tag_data =
     (if tag_type = 0x0000 then (EndOfList, False)
      else if tag_type = 0x0101 then (ServiceName tag_data, False)
      else if tag_type = 0x0102 then (AcName tag_data, False)
      else if tag_type = 0x0103 then (u32_tag 0x0103 HostUniq tag_data, False)
      else if tag_type = 0x0104 then (AcCookie tag_data, False)
      else if tag_type = 0x0105 then (VendorSpecific tag_data, False)
      else if tag_type = 0x0106 then (u32_tag 0x0106 Credits tag_data, False)
      else if tag_type = 0x0107 then (Metrics tag_data, False)
      else if tag_type = 0x0108 then (u32_tag 0x0108 SequenceNumber tag_data, False)
      else if tag_type = 0x0109 then (u32_tag 0x0109 CreditScaleFactor tag_data, False)
      else if tag_type = 0x0110 then (RelaySessionId tag_data, False)
      else if tag_type = 0x0111 then (HURL tag_data, False)
      else if tag_type = 0x0112 then (MOTM tag_data, False)
      else if tag_type = 0x0120 then (u32_tag 0x0120 PPPMaxPayload tag_data, False)
      else if tag_type = 0x0121 then (IPRouteAdd tag_data, False)
      else if tag_type = 0x0201 then (ServiceNameError tag_data, False)
      else if tag_type = 0x0202 then (ACSystemError tag_data, False)
      else if tag_type = 0x0203 then (GenericError tag_data, False)
      else (Other tag_type tag_data, True))"

function PPPoETag_loop :: "bytes \<Rightarrow> nat \<Rightarrow> PPPoETag list" where
  "PPPoETag_loop data start_index =
     (if 4 + start_index > length data then []
      else let tag_type = u16_from_be_bytes (data ! start_index) (data ! (start_index + 1));
               tag_len = u16_from_be_bytes (data ! (start_index + 2)) (data ! (start_index + 3));
               next_index = 4 + start_index + unat tag_len
           in if next_index > length data then []
              else let tag_data = (if tag_len = 0 then [] else slice (start_index + 4) next_index data);
                       m = match_tag tag_type tag_data
                   in if snd m then [fst m]
                      else fst m # PPPoETag_loop data next_index)"
  by pat_completeness auto
termination
  by (relation "measure (\<lambda>(data, i). length data - i)") auto

declare PPPoETag_loop.simps [simp del]

definition PPPoETag_from_bytes :: "bytes \<Rightarrow> PPPoETag list" where
  "PPPoETag_from_bytes data = PPPoETag_loop data 0"

text \<open>\<open>decode_options\<close> is the encoder, despite its name.\<close>

definition tlv :: "u16 \<Rightarrow> bytes \<Rightarrow> bytes" where
  "tlv num data = concat [u16_to_be_bytes num, u16_to_be_bytes (word_of_nat (length data)), data]"

fun decode_options :: "PPPoETag \<Rightarrow> bytes" where
  "decode_options EndOfList = tlv 0x0000 []"
| "decode_options (ServiceName v) = tlv 0x0101 v"
| "decode_options (AcName v) = tlv 0x0102 v"
| "decode_options (HostUniq v) = tlv 0x0103 (u32_to_be_bytes v)"
| "decode_options (AcCookie v) = tlv 0x0104 v"
| "decode_options (VendorSpecific v) = tlv 0x0105 v"
| "decode_options (Credits v) = tlv 0x0106 (u32_to_be_bytes v)"
| "decode_options (Metrics v) = tlv 0x0107 v"
| "decode_options (SequenceNumber v) = tlv 0x0108 (u32_to_be_bytes v)"
| "decode_options (CreditScaleFactor v) = tlv 0x0109 (u32_to_be_bytes v)"
| "decode_options (RelaySessionId v) = tlv 0x0110 v"
| "decode_options (HURL v) = tlv 0x0111 v"
| "decode_options (MOTM v) = tlv 0x0112 v"
| "decode_options (PPPMaxPayload v) = tlv 0x0120 (u32_to_be_bytes v)"
| "decode_options (IPRouteAdd v) = tlv 0x0121 v"
| "decode_options (ServiceNameError v) = tlv 0x0201 v"
| "decode_options (ACSystemError v) = tlv 0x0202 v"
| "decode_options (GenericError v) = tlv 0x0203 v"
| "decode_options (Other tag_code data) = tlv tag_code data"

section \<open>Frames\<close>

record PPPoEFrame =
  fr_ver :: u8
  fr_t :: u8
  fr_code :: u8
  fr_sid :: u16
  fr_length :: u16
  fr_payload :: bytes

definition PPPoEFrame_new :: "bytes \<Rightarrow> PPPoEFrame option" where
  "PPPoEFrame_new data =
     (if length data < 6 then None
      else Some \<lparr>fr_ver = drop_bit 4 (data ! 0), fr_t = data ! 0 AND 0x0f, fr_code = data ! 1,
                 fr_sid = u16_from_be_bytes (data ! 2) (data ! 3),
                 fr_length = u16_from_be_bytes (data ! 4) (data ! 5),
                 fr_payload = drop 6 data\<rparr>)"

definition is_offer :: "PPPoEFrame \<Rightarrow> bool" where
  "is_offer f \<longleftrightarrow> fr_code f = 0x07"

definition is_terminate :: "PPPoEFrame \<Rightarrow> bool" where
  "is_terminate f \<longleftrightarrow> fr_code f = 0xa7"

definition is_confirm :: "PPPoEFrame \<Rightarrow> bool" where
  "is_confirm f \<longleftrightarrow> fr_code f = 0x65"

definition PPPoEFrame_convert_to_payload :: "PPPoEFrame \<Rightarrow> bytes" where
  "PPPoEFrame_convert_to_payload f =
     [push_bit 4 (fr_ver f) OR (fr_t f AND 0x0f), fr_code f] @ u16_to_be_bytes (fr_sid f) @
     u16_to_be_bytes (word_of_nat (length (fr_payload f))) @ fr_payload f"

text \<open>
  The constructors start from \<open>PPPoEFrame::new(..).unwrap()\<close> on a literal of at least six bytes,
  so the \<open>unwrap\<close> is the frame below.
\<close>

definition frame_of_literal :: "bytes \<Rightarrow> PPPoEFrame" where
  "frame_of_literal data = the (PPPoEFrame_new data)"

definition get_discover_with_host_uniq :: "u32 \<Rightarrow> PPPoEFrame" where
  "get_discover_with_host_uniq host_uniq =
     (let result = frame_of_literal [17, 9, 0, 0, 0, 4, 1, 1, 0, 0]
      in result\<lparr>fr_payload := fr_payload result @ decode_options (HostUniq host_uniq)\<rparr>)"

definition get_offer_with_host_uniq :: "u32 \<Rightarrow> PPPoEFrame" where
  "get_offer_with_host_uniq host_uniq =
     (let result = frame_of_literal [17, 7, 0, 0, 0, 0];
          payload = fr_payload result @ decode_options (HostUniq host_uniq)
      in result\<lparr>fr_payload := payload, fr_length := word_of_nat (length payload)\<rparr>)"

definition get_request :: "u32 \<Rightarrow> bytes option \<Rightarrow> PPPoEFrame" where
  "get_request host_uniq_id ac_cookie =
     (let result = frame_of_literal [17, 25, 0, 0, 0, 12, 1, 1, 0, 0];
          payload = fr_payload result @
            (if host_uniq_id \<noteq> 0 then
               decode_options (HostUniq host_uniq_id) @
               (case ac_cookie of Some c \<Rightarrow> decode_options (AcCookie c) | None \<Rightarrow> [])
             else [])
      in result\<lparr>fr_payload := payload, fr_length := word_of_nat (length payload)\<rparr>)"

definition get_ppp_mru_config_request :: "u16 \<Rightarrow> u8 \<Rightarrow> u16 \<Rightarrow> u32 \<Rightarrow> PPPoEFrame" where
  "get_ppp_mru_config_request sid request_id mru magic_number =
     (let data = request_mru request_id mru magic_number
      in \<lparr>fr_ver = 1, fr_t = 1, fr_code = 0, fr_sid = sid,
          fr_length = word_of_nat (length data), fr_payload = data\<rparr>)"

section \<open>The tag stream\<close>

definition u32_tags :: "u16 list" where
  "u32_tags = [0x0103, 0x0106, 0x0108, 0x0109, 0x0120]"

definition known_tags :: "u16 list" where
  "known_tags = [0x0000, 0x0101, 0x0102, 0x0103, 0x0104, 0x0105, 0x0106, 0x0107, 0x0108, 0x0109,
     0x0110, 0x0111, 0x0112, 0x0120, 0x0121, 0x0201, 0x0202, 0x0203]"

fun tag_wf :: "PPPoETag \<Rightarrow> bool" where
  "tag_wf (Other num data) \<longleftrightarrow> length data < 65536 \<and>
     (if num \<in> set known_tags then num \<in> set u32_tags \<and> length data \<noteq> 4 else True)"
| "tag_wf t \<longleftrightarrow> length (decode_options t) < 65540"

fun tag_stop :: "PPPoETag \<Rightarrow> bool" where
  "tag_stop (Other num data) \<longleftrightarrow> num \<notin> set known_tags"
| "tag_stop _ \<longleftrightarrow> False"

lemma tag_loop_shift:
  "k \<le> length data \<Longrightarrow> PPPoETag_loop (drop k data) i = PPPoETag_loop data (k + i)"
proof (induction "length data - (k + i)" arbitrary: i rule: less_induct)
  case less
  show ?case
  proof (cases "4 + (k + i) > length data")
    case True
    then show ?thesis by (subst (1 2) PPPoETag_loop.simps) auto
  next
    case False
    have nth: "drop k data ! i = data ! (k + i)" "drop k data ! (i + 1) = data ! (k + i + 1)"
      "drop k data ! (i + 2) = data ! (k + i + 2)" "drop k data ! (i + 3) = data ! (k + i + 3)"
      using False by (simp_all add: add.assoc)
    define n where "n = unat (u16_from_be_bytes (data ! (k + i + 2)) (data ! (k + i + 3)))"
    have sl: "slice (i + 4) (4 + i + n) (drop k data) = slice (k + i + 4) (4 + (k + i) + n) data"
      by (simp add: slice_def ac_simps)
    have rec: "PPPoETag_loop (drop k data) (4 + i + n) = PPPoETag_loop data (4 + (k + i) + n)"
      using less.hyps [of "4 + i + n"] less.prems False by (simp add: ac_simps)
    have le: "length (drop k data) < 4 + i + n \<longleftrightarrow> length data < 4 + (k + i) + n"
      using less.prems by auto
    show ?thesis
      unfolding PPPoETag_loop.simps [of "drop k data" i] PPPoETag_loop.simps [of data "k + i"]
      using False less.prems
      by (simp only: nth Let_def flip: n_def) (simp only: sl rec le, auto)
  qed
qed

lemma tag_from_bytes_unfold:
  assumes "rest0 = a # b # c # d # rest"
  shows "PPPoETag_from_bytes rest0 =
     (let n = unat (u16_from_be_bytes c d);
          m = match_tag (u16_from_be_bytes a b) (take n rest)
      in if length rest < n then []
         else if snd m then [fst m] else fst m # PPPoETag_from_bytes (drop n rest))"
proof -
  define n where "n = unat (u16_from_be_bytes c d)"
  have td: "(if u16_from_be_bytes c d = 0 then [] else slice 4 (4 + n) rest0) = take n rest"
    using assms by (auto simp: n_def slice_def)
  have "drop (4 + n) rest0 = drop n (drop 4 rest0)" by (simp add: add.commute)
  then have dr: "drop (4 + n) rest0 = drop n rest" using assms by simp
  have rec: "PPPoETag_loop rest0 (4 + n) = PPPoETag_loop (drop n rest) 0" if "\<not> length rest < n"
    using tag_loop_shift [of "4 + n" rest0 0] that assms dr by simp
  have nth: "rest0 ! 0 = a" "rest0 ! (0 + 1) = b" "rest0 ! (0 + 2) = c" "rest0 ! (0 + 3) = d"
    using assms by simp_all
  have len: "\<not> 4 + 0 > length rest0" "4 + 0 + n > length rest0 \<longleftrightarrow> length rest < n"
    using assms by auto
  show ?thesis
    unfolding PPPoETag_from_bytes_def PPPoETag_loop.simps [of rest0 0]
    using td rec len by (simp only: nth Let_def flip: n_def) (auto simp: Let_def)
qed

lemma length_tlv [simp]: "length (tlv num v) = length v + 4"
  by (simp add: tlv_def)

lemma tag_from_bytes_short: "length bs < 4 \<Longrightarrow> PPPoETag_from_bytes bs = []"
  unfolding PPPoETag_from_bytes_def by (subst PPPoETag_loop.simps) auto

lemma tag_from_bytes_tlv:
  assumes "length v < 65536"
  shows "PPPoETag_from_bytes (tlv num v @ rest) =
     (let m = match_tag num v in if snd m then [fst m] else fst m # PPPoETag_from_bytes rest)"
proof -
  let ?l = "word_of_nat (length v) :: u16"
  have "tlv num v @ rest = ucast (drop_bit 8 num) # ucast num # ucast (drop_bit 8 ?l) # ucast ?l # v @ rest"
    by (simp add: tlv_def u16_to_be_bytes_def)
  from tag_from_bytes_unfold [OF this] assms show ?thesis
    by (simp add: Let_def)
qed

lemma u32_decode_encode [simp]: "TagDefined_u32_decode (u32_to_be_bytes v) = Some v"
  by (simp add: TagDefined_u32_decode_def u32_to_be_bytes_def)

lemma u32_decode_None: "TagDefined_u32_decode d = None \<longleftrightarrow> length d \<noteq> 4"
  by (simp add: TagDefined_u32_decode_def)

lemma tag_cons_Other:
  assumes "tag_wf (Other num v)"
  shows "PPPoETag_from_bytes (decode_options (Other num v) @ rest) =
     Other num v # (if tag_stop (Other num v) then [] else PPPoETag_from_bytes rest)"
proof (cases "num \<in> set known_tags")
  case True
  with assms have "num \<in> set u32_tags" "length v \<noteq> 4" "length v < 65536"
    by auto
  moreover have "TagDefined_u32_decode v = None"
    using \<open>length v \<noteq> 4\<close> by (simp add: u32_decode_None)
  ultimately have "match_tag num v = (Other num v, False)"
    by (auto simp: u32_tags_def match_tag_def u32_tag_def)
  with True \<open>length v < 65536\<close> show ?thesis
    by (simp add: tag_from_bytes_tlv)
next
  case False
  then have "match_tag num v = (Other num v, True)"
    by (simp add: match_tag_def known_tags_def)
  with False assms show ?thesis by (simp add: tag_from_bytes_tlv)
qed

lemma tag_cons:
  assumes "tag_wf t" and "\<not> tag_stop t"
  shows "PPPoETag_from_bytes (decode_options t @ rest) = t # PPPoETag_from_bytes rest"
proof (cases t)
  case (Other num v)
  with assms show ?thesis using tag_cons_Other [of num v rest] by simp
qed (use assms in \<open>simp_all add: tag_from_bytes_tlv match_tag_def u32_tag_def Let_def\<close>)

lemma match_tag_wf: "length v < 65536 \<Longrightarrow> tag_wf (fst (match_tag num v))"
  by (auto simp: match_tag_def u32_tag_def u32_decode_None known_tags_def u32_tags_def
      split: option.splits)

lemma tag_from_bytes_wf: "t \<in> set (PPPoETag_from_bytes bs) \<Longrightarrow> tag_wf t"
proof (induction "length bs" arbitrary: bs rule: less_induct)
  case less
  show ?case
  proof (cases "length bs < 4")
    case True
    with less.prems show ?thesis by (simp add: tag_from_bytes_short)
  next
    case False
    then obtain a b c d rest where bs: "bs = a # b # c # d # rest"
      by (auto simp: not_less Suc_le_length_iff eval_nat_numeral)
    let ?n = "unat (u16_from_be_bytes c d)"
    have "tag_wf (fst (match_tag (u16_from_be_bytes a b) (take ?n rest)))"
      by (rule match_tag_wf) (simp add: min.strict_coboundedI2)
    moreover have "tag_wf t" if "t \<in> set (PPPoETag_from_bytes (drop ?n rest))"
      using less.hyps [OF _ that] bs by simp
    ultimately show ?thesis
      using less.prems unfolding tag_from_bytes_unfold [OF bs]
      by (auto simp: Let_def split: if_splits)
  qed
qed

interpretation pppoe_tags: tlv_stream tag_wf tag_stop decode_options PPPoETag_from_bytes
proof (unfold_locales, goal_cases)
  case 1
  show ?case by (simp add: tag_from_bytes_short)
next
  case 2
  then show ?case by (rule tag_cons)
next
  case (3 x rest)
  then show ?case by (cases x) (auto simp del: decode_options.simps simp: tag_cons_Other)
next
  case 4
  then show ?case by (rule tag_from_bytes_wf)
qed

section \<open>The frame codec\<close>

definition frame_wf :: "PPPoEFrame \<Rightarrow> bool" where
  "frame_wf f \<longleftrightarrow> unat (fr_ver f) < 16 \<and> unat (fr_t f) < 16 \<and>
     unat (fr_length f) = length (fr_payload f)"

lemma nibble_bit: "unat (v :: u8) < 16 \<Longrightarrow> 4 \<le> n \<Longrightarrow> \<not> bit v n"
proof
  assume a: "unat v < 16" "4 \<le> n" "bit v n"
  then have "bit (unat v) n" by (simp add: bit_unsigned_iff)
  then have "odd (unat v div 2 ^ n)" by (simp add: bit_iff_odd)
  moreover have "unat v < 2 ^ n"
    using a(1) power_increasing [OF a(2), of "2 :: nat"] by simp
  ultimately show False by simp
qed

lemma nibble_pack:
  assumes "unat (v :: u8) < 16"
  shows "drop_bit 4 (push_bit 4 v OR (t AND 0x0f)) = v"
    and "unat t < 16 \<Longrightarrow> (push_bit 4 v OR (t AND 0x0f)) AND 0x0f = (t :: u8)"
proof -
  have m: "(0x0f :: u8) = mask 4" by (simp add: mask_eq_exp_minus_1)
  show "drop_bit 4 (push_bit 4 v OR (t AND 0x0f)) = v"
    unfolding m using nibble_bit [OF assms]
    by (intro bit_word_eqI) (auto simp: bit_simps not_le [symmetric])
  show "(push_bit 4 v OR (t AND 0x0f)) AND 0x0f = t" if "unat t < 16"
    unfolding m using nibble_bit [OF assms] nibble_bit [OF that]
    by (intro bit_word_eqI) (auto simp: bit_simps not_le [symmetric])
qed

lemma nibble_unpack:
  "push_bit 4 (drop_bit 4 x) OR ((x AND 0x0f) AND 0x0f) = (x :: u8)"
  "unat (drop_bit 4 x) < 16" "unat (x AND 0x0f) < 16"
proof -
  have m: "(0x0f :: u8) = mask 4" by (simp add: mask_eq_exp_minus_1)
  show "push_bit 4 (drop_bit 4 x) OR ((x AND 0x0f) AND 0x0f) = x"
    unfolding m by (intro bit_word_eqI) (auto simp: bit_simps)
  have "unat (drop_bit 4 x) = unat x div 16" by (simp add: drop_bit_eq_div unat_div)
  then show "unat (drop_bit 4 x) < 16"
    by (simp add: less_mult_imp_div_less)
  have "x AND 0x0f \<le> 0x0f" by (rule word_and_le1)
  then show "unat (x AND 0x0f) < 16" by (simp add: word_le_nat_alt)
qed

text \<open>
  Printing then parsing is the identity on frames whose announced length is right, and parsing
  then printing is the identity on input whose announced length is right.
\<close>

lemma frame_new_bytes:
  assumes "unat v < 16" and "unat t < 16"
  shows "PPPoEFrame_new ([push_bit 4 v OR (t AND 0x0f), c] @ u16_to_be_bytes sid @
           u16_to_be_bytes len @ body) =
    Some \<lparr>fr_ver = v, fr_t = t, fr_code = c, fr_sid = sid, fr_length = len, fr_payload = body\<rparr>"
  using nibble_pack [OF assms(1)] assms(2)
  by (simp add: PPPoEFrame_new_def u16_to_be_bytes_def)

lemma frame_new_convert:
  assumes "unat (fr_ver f) < 16" and "unat (fr_t f) < 16"
  shows "PPPoEFrame_new (PPPoEFrame_convert_to_payload f) =
         Some (f\<lparr>fr_length := word_of_nat (length (fr_payload f))\<rparr>)"
  unfolding PPPoEFrame_convert_to_payload_def by (simp only: frame_new_bytes [OF assms]) simp

lemma frame_convert_new:
  assumes "PPPoEFrame_new bs = Some f" and "unat (fr_length f) = length (fr_payload f)"
  shows "PPPoEFrame_convert_to_payload f = bs"
proof -
  from assms(1) have l6: "6 \<le> length bs" by (auto simp: PPPoEFrame_new_def split: if_splits)
  obtain a b c d e g r where bs: "bs = a # b # c # d # e # g # r"
    using l6 by (auto simp: Suc_le_length_iff eval_nat_numeral)
  have f: "f = \<lparr>fr_ver = drop_bit 4 a, fr_t = a AND 0x0f, fr_code = b,
      fr_sid = u16_from_be_bytes c d, fr_length = u16_from_be_bytes e g, fr_payload = r\<rparr>"
    using assms(1) bs by (simp add: PPPoEFrame_new_def)
  have "word_of_nat (length r) = u16_from_be_bytes e g"
    using assms(2) f by (intro word_of_nat_eqI) simp
  then show ?thesis
    using bs f nibble_unpack(1) [of a] by (simp add: PPPoEFrame_convert_to_payload_def)
qed

lemma frame_wf_convert: "frame_wf f \<Longrightarrow> PPPoEFrame_new (PPPoEFrame_convert_to_payload f) = Some f"
  using word_of_nat_eqI [of "fr_length f" "length (fr_payload f)"]
  by (simp add: frame_new_convert frame_wf_def)

lemma frame_new_short: "PPPoEFrame_new bs = None \<longleftrightarrow> length bs < 6"
  by (simp add: PPPoEFrame_new_def)

section \<open>Frames the client builds\<close>

lemma literal_PADI: "frame_of_literal [17, 9, 0, 0, 0, 4, 1, 1, 0, 0] =
    \<lparr>fr_ver = 1, fr_t = 1, fr_code = 9, fr_sid = 0, fr_length = 4, fr_payload = [1, 1, 0, 0]\<rparr>"
  by (simp add: frame_of_literal_def PPPoEFrame_new_def u16_from_be_bytes_def)

lemma literal_PADR: "frame_of_literal [17, 25, 0, 0, 0, 12, 1, 1, 0, 0] =
    \<lparr>fr_ver = 1, fr_t = 1, fr_code = 25, fr_sid = 0, fr_length = 12, fr_payload = [1, 1, 0, 0]\<rparr>"
  by (simp add: frame_of_literal_def PPPoEFrame_new_def u16_from_be_bytes_def)

lemma service_name_empty: "decode_options (ServiceName []) = [1, 1, 0, 0]"
  by (simp add: tlv_def u16_to_be_bytes_def)

lemma padi_tags:
  "PPPoETag_from_bytes (fr_payload (get_discover_with_host_uniq h)) = [ServiceName [], HostUniq h]"
  using pppoe_tags.dec_concat [of "[ServiceName [], HostUniq h]"]
  by (simp add: get_discover_with_host_uniq_def literal_PADI service_name_empty del: decode_options.simps)
     (simp add: tlv_def)

lemma padr_tags:
  assumes "h \<noteq> 0" and "length c < 65536"
  shows "PPPoETag_from_bytes (fr_payload (get_request h (Some c))) =
           [ServiceName [], HostUniq h, AcCookie c]"
    and "PPPoETag_from_bytes (fr_payload (get_request h None)) = [ServiceName [], HostUniq h]"
proof -
  have "\<forall>t\<in>set [ServiceName [], HostUniq h, AcCookie c]. tag_wf t \<and> \<not> tag_stop t"
    using assms(2) by simp
  from pppoe_tags.dec_concat [OF this] show
    "PPPoETag_from_bytes (fr_payload (get_request h (Some c))) =
       [ServiceName [], HostUniq h, AcCookie c]"
    using assms(1)
    by (simp add: get_request_def literal_PADR service_name_empty Let_def del: decode_options.simps)
  have "\<forall>t\<in>set [ServiceName [], HostUniq h]. tag_wf t \<and> \<not> tag_stop t"
    by simp
  from pppoe_tags.dec_concat [OF this] show
    "PPPoETag_from_bytes (fr_payload (get_request h None)) = [ServiceName [], HostUniq h]"
    using assms(1)
    by (simp add: get_request_def literal_PADR service_name_empty Let_def del: decode_options.simps)
qed

section \<open>Properties\<close>

text \<open>C31: the PPPoE frame codec round-trips.  A frame with nibble-sized version and type whose length
  field is its payload's length survives printing and parsing unchanged; conversely any input
  whose announced length is the number of bytes after the header is reproduced byte for byte.\<close>

theorem pppoe_frame_round_trip:
  "(unat (fr_ver f) < 16 \<and> unat (fr_t f) < 16 \<and> unat (fr_length f) = length (fr_payload f) \<longrightarrow>
      PPPoEFrame_new (PPPoEFrame_convert_to_payload f) = Some f) \<and>
   (PPPoEFrame_new bs = Some g \<and> unat (fr_length g) = length (fr_payload g) \<longrightarrow>
      PPPoEFrame_convert_to_payload g = bs)"
  using frame_wf_convert [of f] frame_convert_new [of bs g] by (simp add: frame_wf_def)

theorem pppoe_frame_round_trip_witness:
  "PPPoEFrame_new (PPPoEFrame_convert_to_payload
      \<lparr>fr_ver = 1, fr_t = 1, fr_code = 9, fr_sid = 3, fr_length = 2, fr_payload = [7, 8]\<rparr>) =
    Some \<lparr>fr_ver = 1, fr_t = 1, fr_code = 9, fr_sid = 3, fr_length = 2, fr_payload = [7, 8]\<rparr>"
  using pppoe_frame_round_trip
    [of "\<lparr>fr_ver = 1, fr_t = 1, fr_code = 9, fr_sid = 3, fr_length = 2, fr_payload = [7, 8]\<rparr>"]
  by simp

text \<open>The tag stream round-trips up to the first unknown tag.  A list of representable tags of
  known type, printed one after another, parses back to the same list; if an unknown tag follows,
  the parser keeps it as its last element and ignores everything behind it.\<close>

theorem pppoe_tags_round_trip:
  assumes "\<forall>t\<in>set ts. tag_wf t \<and> \<not> tag_stop t"
  shows "PPPoETag_from_bytes (concat (map decode_options ts)) = ts \<and>
    (num \<notin> set known_tags \<and> length v < 65536 \<longrightarrow>
       PPPoETag_from_bytes (concat (map decode_options ts) @ decode_options (Other num v) @ rest) =
       ts @ [Other num v])"
  using pppoe_tags.dec_concat [OF assms] pppoe_tags.dec_concat_stop [OF assms, of "Other num v" rest]
  by (simp del: decode_options.simps)

theorem pppoe_tags_round_trip_witness:
  "PPPoETag_from_bytes (concat (map decode_options [ServiceName [], HostUniq 5, AcCookie [1, 2]])) =
     [ServiceName [], HostUniq 5, AcCookie [1, 2]]"
  using pppoe_tags_round_trip [of "[ServiceName [], HostUniq 5, AcCookie [1, 2]]"] by simp

end
