(* ===== verification/Pppoe_Client.thy ===== *)
theory Pppoe_Client
  imports Net Pppoe_Codec
begin

text \<open>
  What the phases of the PPPoE client share (\<open>landscape/src/wan_service/pppoe_client/\<close>): the
  authenticators (\<open>auth.rs\<close>), the error type and its classification (\<open>error.rs\<close>), the
  configuration and the session-frame sender (\<open>mod.rs\<close>).

  Effects.  A phase is an asynchronous loop over \<open>select!\<close>.  Its model is a step function on the
  loop's local variables, one event per wake-up, in a monad over a channel: the log of effects
  (frames handed to the eBPF channel, timers armed) and the point at which the receiving half
  of the channel is dropped, after which every send fails.  An early return and a panic are
  values (\<open>Err e\<close>, \<open>Panic\<close>).  \<open>phase\<close> is the contract of such a loop.
\<close>

section \<open>Authenticators\<close>

record AuthResult =
  ar_response :: "bytes option"
  ar_done :: bool
  ar_failed :: bool

definition AuthResult_noop :: AuthResult where
  "AuthResult_noop = \<lparr>ar_response = None, ar_done = False, ar_failed = False\<rparr>"

record PapAuthenticator =
  pap_done :: bool
  pap_peer_id :: bytes
  pap_password :: bytes

record ChapAuthenticator =
  chap_peer_id :: bytes
  chap_password :: bytes
  chap_challenge :: "bytes option"
  chap_challenge_id :: u8

definition PapAuthenticator_new :: "bytes \<Rightarrow> bytes \<Rightarrow> PapAuthenticator" where
  "PapAuthenticator_new peer_id password =
     \<lparr>pap_done = False, pap_peer_id = peer_id, pap_password = password\<rparr>"

definition pap_handle_incoming :: "PapAuthenticator \<Rightarrow> PointToPoint \<Rightarrow> AuthResult \<times> PapAuthenticator" where
  "pap_handle_incoming a pkt =
     (if is_ack pkt
      then (\<lparr>ar_response = None, ar_done = True, ar_failed = False\<rparr>, a\<lparr>pap_done := True\<rparr>)
      else (\<lparr>ar_response = None, ar_done = True, ar_failed = True\<rparr>, a))"

definition pap_outgoing_packet :: "PapAuthenticator \<Rightarrow> bytes option" where
  "pap_outgoing_packet a =
     (if pap_done a then None
      else Some (PointToPoint_convert_to_payload (gen_pap (pap_peer_id a) (pap_password a))))"

definition ChapAuthenticator_new :: "bytes \<Rightarrow> bytes \<Rightarrow> ChapAuthenticator" where
  "ChapAuthenticator_new peer_id password =
     \<lparr>chap_peer_id = peer_id, chap_password = password, chap_challenge = None, chap_challenge_id = 0\<rparr>"

text \<open>
  \<open>None\<close> is a panic: \<open>payload[0]\<close> on an empty payload, or the slice \<open>payload[1..1 + value_size]\<close>
  past its end.
\<close>

definition chap_handle_incoming ::
  "(bytes \<Rightarrow> bytes) \<Rightarrow> ChapAuthenticator \<Rightarrow> PointToPoint \<Rightarrow> (AuthResult \<times> ChapAuthenticator) option" where
  "chap_handle_incoming md5 a pkt =
     (if is_challenge pkt then
        (if ppp_payload pkt = [] then None
         else let value_size = unat (ppp_payload pkt ! 0)
              in if 1 + value_size > length (ppp_payload pkt) then None
                 else let challenge = slice 1 (1 + value_size) (ppp_payload pkt);
                          a' = a\<lparr>chap_challenge := Some challenge, chap_challenge_id := ppp_id pkt\<rparr>;
                          resp = gen_chap_response md5 (ppp_id pkt) (chap_peer_id a') (chap_password a') challenge
                      in Some (\<lparr>ar_response = Some resp, ar_done = False, ar_failed = False\<rparr>, a'))
      else if is_chap_success pkt then Some (\<lparr>ar_response = None, ar_done = True, ar_failed = False\<rparr>, a)
      else if is_chap_failure pkt then Some (\<lparr>ar_response = None, ar_done = True, ar_failed = True\<rparr>, a)
      else Some (AuthResult_noop, a))"

datatype Authenticator = Pap PapAuthenticator | Chap ChapAuthenticator

fun handle_incoming ::
  "(bytes \<Rightarrow> bytes) \<Rightarrow> Authenticator \<Rightarrow> PointToPoint \<Rightarrow> (AuthResult \<times> Authenticator) option" where
  "handle_incoming md5 (Pap a) pkt = Some (map_prod id Pap (pap_handle_incoming a pkt))"
| "handle_incoming md5 (Chap a) pkt = map_option (map_prod id Chap) (chap_handle_incoming md5 a pkt)"

fun outgoing_packet :: "Authenticator \<Rightarrow> bytes option" where
  "outgoing_packet (Pap a) = pap_outgoing_packet a"
| "outgoing_packet (Chap a) = None"

fun auth_protocol :: "Authenticator \<Rightarrow> u16" where
  "auth_protocol (Pap a) = 0xc023"
| "auth_protocol (Chap a) = 0xc223"

section \<open>Errors\<close>

text \<open>\<open>AuthFailed\<close> carries a text: a literal, or the \<open>Debug\<close> print of the authenticator.\<close>

datatype auth_reason = AuthText string | AuthDebug Authenticator

datatype PppoeError =
    AuthFailed auth_reason
  | IfaceNotFound string
  | EbpfInitFailed string
  | LcpConfigRejected
  | IpRequiredButRejected
  | UnsupportedAuthType u16
  | DiscoveryTimeout
  | LcpTimeout
  | EchoFailed u8
  | PeerTerminated
  | Ipv6cpRejected
  | ChannelClosed
  | SendError string
  | ServiceStopped

fun is_fatal :: "PppoeError \<Rightarrow> bool" where
  "is_fatal (AuthFailed _) \<longleftrightarrow> True"
| "is_fatal (IfaceNotFound _) \<longleftrightarrow> True"
| "is_fatal (EbpfInitFailed _) \<longleftrightarrow> True"
| "is_fatal LcpConfigRejected \<longleftrightarrow> True"
| "is_fatal IpRequiredButRejected \<longleftrightarrow> True"
| "is_fatal (UnsupportedAuthType _) \<longleftrightarrow> True"
| "is_fatal _ \<longleftrightarrow> False"

definition can_redial :: "PppoeError \<Rightarrow> bool" where
  "can_redial e \<longleftrightarrow> \<not> is_fatal e \<and> e \<noteq> ServiceStopped"

section \<open>Configuration\<close>

definition DEFAULT_TIMEOUT :: nat where "DEFAULT_TIMEOUT = 3"
definition LCP_ECHO_INTERVAL :: nat where "LCP_ECHO_INTERVAL = 20"
definition DEFAULT_CLIENT_MRU :: u16 where "DEFAULT_CLIENT_MRU = 1492"
definition ETH_P_PPOED :: u16 where "ETH_P_PPOED = 0x8863"
definition ETH_P_PPOES :: u16 where "ETH_P_PPOES = 0x8864"
definition MAX_DISCOVERY_RETRIES :: u8 where "MAX_DISCOVERY_RETRIES = 5"
definition MAX_LCP_RETRIES :: u8 where "MAX_LCP_RETRIES = 5"

record PPPoEClientConfig =
  cfg_link_id :: u128
  cfg_index :: u32
  cfg_iface_name :: bytes
  cfg_iface_mac :: MacAddr
  cfg_peer_id :: bytes
  cfg_password :: bytes
  cfg_default_router :: bool
  cfg_requested_mru :: u16
  cfg_ac_name :: "bytes option"
  cfg_lcp_echo_interval :: "nat option"
  cfg_redial_backoff_base_secs :: "nat option"

definition PPPoEClientConfig_new ::
  "u128 \<Rightarrow> u32 \<Rightarrow> bytes \<Rightarrow> MacAddr \<Rightarrow> bytes \<Rightarrow> bytes \<Rightarrow> bool \<Rightarrow> u16 \<Rightarrow> bytes option \<Rightarrow> PPPoEClientConfig" where
  "PPPoEClientConfig_new link_id index iface_name iface_mac peer_id password default_router
     requested_mru ac_name =
     \<lparr>cfg_link_id = link_id, cfg_index = index, cfg_iface_name = iface_name, cfg_iface_mac = iface_mac,
      cfg_peer_id = peer_id, cfg_password = password, cfg_default_router = default_router,
      cfg_requested_mru = (if requested_mru = 0 then DEFAULT_CLIENT_MRU
                       else min requested_mru DEFAULT_CLIENT_MRU),
      cfg_ac_name = ac_name, cfg_lcp_echo_interval = None, cfg_redial_backoff_base_secs = None\<rparr>"

lemma new_requested_mru:
  "cfg_requested_mru (PPPoEClientConfig_new l i n m p w d r a) \<le> 1492"
  "0 < cfg_requested_mru (PPPoEClientConfig_new l i n m p w d r a)"
  by (auto simp: PPPoEClientConfig_new_def DEFAULT_CLIENT_MRU_def min_def word_gt_0)

section \<open>The channel\<close>

datatype effect = Sent bytes | ResetTimeout nat | ResetEcho nat

record chan =
  effects :: "effect list"
  closed_after :: "nat option"

datatype abort = Err PppoeError | Panic

type_synonym 'a io = "chan \<Rightarrow> (abort + 'a) \<times> chan"

definition io_return :: "'a \<Rightarrow> 'a io" where
  "io_return x = (\<lambda>c. (Inr x, c))"

definition io_throw :: "abort \<Rightarrow> 'a io" where
  "io_throw e = (\<lambda>c. (Inl e, c))"

definition io_bind :: "'a io \<Rightarrow> ('a \<Rightarrow> 'b io) \<Rightarrow> 'b io" where
  "io_bind m f = (\<lambda>c. case m c of (Inl e, c') \<Rightarrow> (Inl e, c') | (Inr x, c') \<Rightarrow> f x c')"

definition io_then :: "unit io \<Rightarrow> 'b io \<Rightarrow> 'b io" where
  "io_then m k = io_bind m (\<lambda>_. k)"

definition sends :: "chan \<Rightarrow> bytes list" where
  "sends c = List.map_filter (\<lambda>e. case e of Sent p \<Rightarrow> Some p | _ \<Rightarrow> None) (effects c)"

definition io_effect :: "effect \<Rightarrow> unit io" where
  "io_effect e = (\<lambda>c. (Inr (), c\<lparr>effects := effects c @ [e]\<rparr>))"

definition tx_closed :: "chan \<Rightarrow> bool" where
  "tx_closed c \<longleftrightarrow> (case closed_after c of None \<Rightarrow> False | Some n \<Rightarrow> n \<le> length (sends c))"

text \<open>\<open>tx.send(packet).await.map_err(|_| PppoeError::ChannelClosed)?\<close>\<close>

definition tx_send :: "bytes \<Rightarrow> unit io" where
  "tx_send packet = (\<lambda>c. if tx_closed c then (Inl (Err ChannelClosed), c) else io_effect (Sent packet) c)"

definition reset_timeout :: "nat \<Rightarrow> unit io" where
  "reset_timeout secs = io_effect (ResetTimeout secs)"

definition reset_echo :: "nat \<Rightarrow> unit io" where
  "reset_echo secs = io_effect (ResetEcho secs)"

section \<open>Frames on the wire\<close>

text \<open>\<open>copy_from_slice\<close> panics unless the destination address has six bytes.\<close>

definition build_l2_header :: "bytes \<Rightarrow> MacAddr \<Rightarrow> u16 \<Rightarrow> bytes option" where
  "build_l2_header dst src_mac ethertype =
     (if length dst \<noteq> 6 then None else Some (dst @ octets src_mac @ u16_to_be_bytes ethertype))"

definition send_l2 :: "bytes \<Rightarrow> MacAddr \<Rightarrow> u16 \<Rightarrow> PPPoEFrame \<Rightarrow> unit io" where
  "send_l2 dst src_mac ethertype frame =
     (case build_l2_header dst src_mac ethertype of
        None \<Rightarrow> io_throw Panic
      | Some l2 \<Rightarrow> tx_send (l2 @ PPPoEFrame_convert_to_payload frame))"

definition send_pppoe_session_frame :: "bytes \<Rightarrow> MacAddr \<Rightarrow> u16 \<Rightarrow> bytes \<Rightarrow> unit io" where
  "send_pppoe_session_frame server_mac src_mac session_id payload =
     send_l2 server_mac src_mac ETH_P_PPOES
       \<lparr>fr_ver = 1, fr_t = 1, fr_code = 0, fr_sid = session_id,
        fr_length = word_of_nat (length payload), fr_payload = payload\<rparr>"

definition extract_l2 :: "bytes \<Rightarrow> (bytes \<times> bytes) option" where
  "extract_l2 data = (if length data < 14 then None else Some (slice 6 12 data, drop 12 data))"

section \<open>Phases\<close>

datatype ('s, 'r) flow = Continue 's | Done 'r

fun run_events :: "('ev \<Rightarrow> 's \<Rightarrow> ('s, 'r) flow io) \<Rightarrow> 'ev list \<Rightarrow> 's \<Rightarrow> ('s, 'r) flow io" where
  "run_events step [] s = io_return (Continue s)"
| "run_events step (e # es) s =
     io_bind (step e s) (\<lambda>f. case f of Done r \<Rightarrow> io_return (Done r) | Continue s' \<Rightarrow> run_events step es s')"

lemmas io_defs = io_return_def io_throw_def io_bind_def io_then_def

lemma io_bind_Inr:
  "io_bind m f c = (Inr y, c') \<longleftrightarrow> (\<exists>x c1. m c = (Inr x, c1) \<and> f x c1 = (Inr y, c'))"
  by (auto simp: io_bind_def split: prod.splits sum.splits)

lemma io_bind_Inl:
  "io_bind m f c = (Inl e, c') \<longleftrightarrow>
     m c = (Inl e, c') \<or> (\<exists>x c1. m c = (Inr x, c1) \<and> f x c1 = (Inl e, c'))"
  by (auto simp: io_bind_def split: prod.splits sum.splits)

lemma io_then_Inr:
  "io_then m k c = (Inr y, c') \<longleftrightarrow> (\<exists>c1. m c = (Inr (), c1) \<and> k c1 = (Inr y, c'))"
  by (simp add: io_then_def io_bind_Inr)

lemma io_then_Inl:
  "io_then m k c = (Inl e, c') \<longleftrightarrow> m c = (Inl e, c') \<or> (\<exists>c1. m c = (Inr (), c1) \<and> k c1 = (Inl e, c'))"
  by (simp add: io_then_def io_bind_Inl)

lemma io_return_Inr [simp]: "io_return x c = (Inr y, c') \<longleftrightarrow> y = x \<and> c' = c"
  by (auto simp: io_return_def)

lemma io_return_Inl [simp]: "io_return x c \<noteq> (Inl e, c')"
  by (auto simp: io_return_def)

lemma io_throw_Inr [simp]: "io_throw e c \<noteq> (Inr y, c')"
  by (auto simp: io_throw_def)

lemma io_throw_Inl [simp]: "io_throw e c = (Inl e', c') \<longleftrightarrow> e' = e \<and> c' = c"
  by (auto simp: io_throw_def)

lemma io_effect_Inl [simp]: "io_effect e c \<noteq> (Inl a, c')"
  by (auto simp: io_effect_def)

lemma reset_Inl [simp]: "reset_timeout n c \<noteq> (Inl a, c')" "reset_echo n c \<noteq> (Inl a, c')"
  by (auto simp: reset_timeout_def reset_echo_def)

lemma tx_send_Inl: "tx_send p c = (Inl a, c') \<longleftrightarrow> tx_closed c \<and> a = Err ChannelClosed \<and> c' = c"
  by (auto simp: tx_send_def)

lemma send_l2_Inl:
  "length dst = 6 \<Longrightarrow> send_l2 dst m et f c = (Inl a, c') \<longleftrightarrow> tx_closed c \<and> a = Err ChannelClosed \<and> c' = c"
  by (simp add: send_l2_def build_l2_header_def tx_send_Inl)

lemma send_session_Inl:
  "length dst = 6 \<Longrightarrow> send_pppoe_session_frame dst m sid p c = (Inl a, c') \<longleftrightarrow>
     tx_closed c \<and> a = Err ChannelClosed \<and> c' = c"
  by (simp add: send_pppoe_session_frame_def send_l2_Inl)

lemmas io_elims = io_bind_Inr io_bind_Inl io_then_Inr io_then_Inl

lemma run_Cons_Continue:
  "run_events step (e # es) s c = (Inr (Continue s'), c') \<longleftrightarrow>
     (\<exists>s1 c1. step e s c = (Inr (Continue s1), c1) \<and> run_events step es s1 c1 = (Inr (Continue s'), c'))"
  by (auto simp: io_bind_def io_return_def split: prod.splits sum.splits flow.split_asm)

lemma run_Cons_Done:
  "run_events step (e # es) s c = (Inr (Done r), c') \<longleftrightarrow>
     step e s c = (Inr (Done r), c') \<or>
     (\<exists>s1 c1. step e s c = (Inr (Continue s1), c1) \<and> run_events step es s1 c1 = (Inr (Done r), c'))"
  by (auto simp: io_bind_def io_return_def split: prod.splits sum.splits flow.split_asm)

lemma run_Cons_Inl:
  "run_events step (e # es) s c = (Inl a, c') \<longleftrightarrow>
     step e s c = (Inl a, c') \<or>
     (\<exists>s1 c1. step e s c = (Inr (Continue s1), c1) \<and> run_events step es s1 c1 = (Inl a, c'))"
  by (auto simp: io_bind_def io_return_def split: prod.splits sum.splits flow.split_asm)

lemmas run_Cons = run_Cons_Continue run_Cons_Done run_Cons_Inl

declare run_events.simps(2) [simp del]

text \<open>A retry counter that is checked after each increment.\<close>

lemma unat_le_5: "(w :: u8) \<le> 5 \<longleftrightarrow> unat w \<le> 5"
  by (simp add: word_le_nat_alt)

lemma unat_inc_u8: "unat w \<le> 5 \<Longrightarrow> unat (w + 1 :: u8) = Suc (unat w)"
  by (simp add: unat_word_ariths)

lemma retry_inc: "(w :: u8) \<le> 5 \<Longrightarrow> \<not> 5 < w + 1 \<Longrightarrow>
    w + 1 \<le> 5 \<and> unat (w + 1) = Suc (unat w) \<and> Suc (unat w) \<le> 5"
  using unat_inc_u8 [of w] by (auto simp: unat_le_5 not_less)

text \<open>
  The contract of a phase: an invariant of the loop's variables, and a budget of timer expiries
  that a timer event consumes and no event increases.
\<close>

locale phase =
  fixes step :: "'ev \<Rightarrow> 's \<Rightarrow> ('s, 'r) flow io"
    and inv :: "'s \<Rightarrow> bool"
    and is_timer :: "'ev \<Rightarrow> bool"
    and budget :: "'s \<Rightarrow> nat"
  assumes step_inv: "inv s \<Longrightarrow> step e s c = (Inr (Continue s'), c') \<Longrightarrow> inv s'"
    and step_budget: "inv s \<Longrightarrow> step e s c = (Inr (Continue s'), c') \<Longrightarrow> budget s' \<le> budget s"
    and timer_budget: "inv s \<Longrightarrow> is_timer e \<Longrightarrow> step e s c = (Inr (Continue s'), c') \<Longrightarrow>
          budget s' < budget s"
begin

lemma run_inv: "inv s \<Longrightarrow> run_events step es s c = (Inr (Continue s'), c') \<Longrightarrow> inv s'"
proof (induction es arbitrary: s c)
  case Nil
  then show ?case by simp
next
  case (Cons e es)
  then show ?case by (auto simp: run_Cons intro: step_inv)
qed

text \<open>While the loop is still running, the timers that fired are paid for by the budget.\<close>

lemma run_timers:
  "inv s \<Longrightarrow> run_events step es s c = (Inr (Continue s'), c') \<Longrightarrow>
     length (filter is_timer es) + budget s' \<le> budget s"
proof (induction es arbitrary: s c)
  case Nil
  then show ?case by simp
next
  case (Cons e es)
  then obtain s1 c1 where s1: "step e s c = (Inr (Continue s1), c1)"
    and r: "run_events step es s1 c1 = (Inr (Continue s'), c')"
    by (auto simp: run_Cons)
  have "length (filter is_timer es) + budget s' \<le> budget s1"
    using Cons.IH step_inv [OF Cons.prems(1) s1] r by blast
  moreover have "budget s1 \<le> budget s" "is_timer e \<Longrightarrow> budget s1 < budget s"
    using step_budget timer_budget Cons.prems(1) s1 by blast+
  ultimately show ?case by (cases "is_timer e") auto
qed

lemma run_terminates:
  "inv s \<Longrightarrow> budget s < length (filter is_timer es) \<Longrightarrow>
     run_events step es s c \<noteq> (Inr (Continue s'), c')"
  using run_timers by fastforce

end

text \<open>A phase that does not panic on the events it is guarded against.\<close>

locale guarded_phase = phase +
  fixes ok :: "'a \<Rightarrow> bool"
  assumes step_no_panic: "inv s \<Longrightarrow> ok e \<Longrightarrow> step e s c \<noteq> (Inl Panic, c')"
begin

lemma run_no_panic: "inv s \<Longrightarrow> list_all ok es \<Longrightarrow> run_events step es s c \<noteq> (Inl Panic, c')"
proof (induction es arbitrary: s c)
  case Nil
  then show ?case by simp
next
  case (Cons e es)
  show ?case
  proof
    assume "run_events step (e # es) s c = (Inl Panic, c')"
    then obtain s1 c1 where "step e s c = (Inr (Continue s1), c1)"
      and "run_events step es s1 c1 = (Inl Panic, c')"
      using step_no_panic [OF Cons.prems(1)] Cons.prems(2) by (auto simp: run_Cons)
    then show False using Cons.IH step_inv [OF Cons.prems(1)] Cons.prems(2) by auto
  qed
qed

end

lemma io_total:
  obtains (ret) x c' where "m c = (Inr x, c')" | (err) e c' where "m c = (Inl (Err e), c')"
    | (panic) c' where "m c = (Inl Panic, c')"
proof (cases "m c")
  case (Pair r c')
  show ?thesis
  proof (cases r)
    case (Inl a)
    then show ?thesis using Pair err panic by (cases a) auto
  next
    case (Inr x)
    then show ?thesis using Pair ret by auto
  qed
qed

text \<open>
  Provenance: what a phase returns is justified by the events it has consumed.  \<open>hinv\<close> relates the
  loop's variables to the set of events seen so far, \<open>post\<close> the result.
\<close>

locale phase_history =
  fixes step :: "'ev \<Rightarrow> 's \<Rightarrow> ('s, 'r) flow io"
    and hinv :: "'ev set \<Rightarrow> 's \<Rightarrow> bool"
    and post :: "'ev set \<Rightarrow> 'r \<Rightarrow> bool"
  assumes step_hinv: "hinv H s \<Longrightarrow> step e s c = (Inr (Continue s'), c') \<Longrightarrow> hinv (insert e H) s'"
    and step_post: "hinv H s \<Longrightarrow> step e s c = (Inr (Done r), c') \<Longrightarrow> post (insert e H) r"
    and post_mono: "post H r \<Longrightarrow> H \<subseteq> H' \<Longrightarrow> post H' r"
begin

lemma run_post: "hinv H s \<Longrightarrow> run_events step es s c = (Inr (Done r), c') \<Longrightarrow> post (H \<union> set es) r"
proof (induction es arbitrary: H s c)
  case Nil
  then show ?case by simp
next
  case (Cons e es)
  from Cons.prems(2) consider "step e s c = (Inr (Done r), c')"
    | s1 c1 where "step e s c = (Inr (Continue s1), c1)" "run_events step es s1 c1 = (Inr (Done r), c')"
    by (auto simp: run_Cons)
  then show ?case
  proof cases
    case 1
    then have "post (insert e H) r" by (rule step_post [OF Cons.prems(1)])
    then show ?thesis by (rule post_mono) auto
  next
    case 2
    then have "post (insert e H \<union> set es) r"
      using Cons.IH step_hinv [OF Cons.prems(1)] by blast
    then show ?thesis by (rule post_mono) auto
  qed
qed

end

end
