(* ===== verification/Pppoe_Lcp.thy ===== *)
theory Pppoe_Lcp
  imports Pppoe_Client
begin

text \<open>
  Phase 1 of the PPPoE client, \<open>landscape/src/wan_service/pppoe_client/lcp.rs\<close>: discovery (PADI,
  PADO, PADR, PADS) and LCP option negotiation.  \<open>p1_step\<close> is one iteration of the \<open>select!\<close>
  loop of \<open>run\<close>, \<open>p1_start\<close> what precedes the loop; \<open>p1_run\<close> composes them over a list of events.
  The process id and the clock, from which \<open>run\<close> takes the Host-Uniq and the magic number, are
  arguments.
\<close>

section \<open>State\<close>

record LcpPhaseResult =
  lr_session_id :: u16
  lr_server_mac :: bytes
  lr_mru :: u16
  lr_magic_number :: u32
  lr_auth_type :: u16
  lr_peer_mru :: u16
  lr_peer_magic :: u32

record lcp_negotiating =
  ln_server_mac :: bytes
  ln_session_id :: u16
  ln_our_mru :: u16
  ln_our_magic :: u32
  ln_cfg_req_id :: u8
  ln_our_config_acked :: bool
  ln_peer_mru :: u16
  ln_peer_magic :: u32
  ln_auth_type :: u16
  ln_peer_config_received :: bool

datatype Phase1State =
    Discovering
  | ReuqestSession bytes "bytes option"
  | LcpNegotiating lcp_negotiating

record p1 =
  p1_state :: Phase1State
  p1_discovery_retries :: u8
  p1_lcp_retries :: u8

datatype p1_event = P1Stop | P1Recv "bytes option" | P1Timeout

section \<open>Sending\<close>

definition send_padi :: "PPPoEClientConfig \<Rightarrow> u32 \<Rightarrow> unit io" where
  "send_padi config host_uniq =
     send_l2 (octets MacAddr_broadcast) (cfg_iface_mac config) ETH_P_PPOED
       (get_discover_with_host_uniq host_uniq)"

definition send_padr :: "PPPoEClientConfig \<Rightarrow> u32 \<Rightarrow> bytes \<Rightarrow> bytes option \<Rightarrow> unit io" where
  "send_padr config host_uniq server_mac ac_cookie =
     send_l2 server_mac (cfg_iface_mac config) ETH_P_PPOED (get_request host_uniq ac_cookie)"

definition send_lcp_config_request ::
  "PPPoEClientConfig \<Rightarrow> u16 \<Rightarrow> u8 \<Rightarrow> u16 \<Rightarrow> u32 \<Rightarrow> bytes \<Rightarrow> unit io" where
  "send_lcp_config_request config session_id req_id mru magic server_mac =
     send_l2 server_mac (cfg_iface_mac config) ETH_P_PPOES
       (get_ppp_mru_config_request session_id req_id mru magic)"

section \<open>Receiving\<close>

text \<open>The common prefix of the three handlers: an Ethernet frame of the given type, parsed.\<close>

definition pppoe_frame_of :: "u16 \<Rightarrow> bytes \<Rightarrow> (bytes \<times> PPPoEFrame) option" where
  "pppoe_frame_of ethertype raw =
     (case extract_l2 raw of
        None \<Rightarrow> None
      | Some (src_mac, eth_payload) \<Rightarrow>
          (if length eth_payload < 4 \<or>
              u16_from_be_bytes (eth_payload ! 0) (eth_payload ! 1) \<noteq> ethertype then None
           else map_option (\<lambda>frame. (src_mac, frame)) (PPPoEFrame_new (drop 2 eth_payload))))"

fun scan_pado_tag ::
  "u32 \<Rightarrow> PPPoETag \<Rightarrow> bool \<times> bytes option \<times> bytes option \<Rightarrow> bool \<times> bytes option \<times> bytes option" where
  "scan_pado_tag host_uniq (HostUniq hid) (matched, ac_cookie, ac_name) =
     (hid = host_uniq, ac_cookie, ac_name)"
| "scan_pado_tag host_uniq (AcCookie cookie) (matched, ac_cookie, ac_name) =
     (matched, Some cookie, ac_name)"
| "scan_pado_tag host_uniq (AcName name) (matched, ac_cookie, ac_name) =
     (matched, ac_cookie, Some name)"
| "scan_pado_tag host_uniq _ acc = acc"

definition handle_discovery :: "bytes \<Rightarrow> PPPoEClientConfig \<Rightarrow> u32 \<Rightarrow> Phase1State option" where
  "handle_discovery raw config host_uniq =
     (case pppoe_frame_of ETH_P_PPOED raw of
        None \<Rightarrow> None
      | Some (src_mac, frame) \<Rightarrow>
          (if \<not> is_offer frame then None
           else let (matched, ac_cookie, ac_name) =
                      fold (scan_pado_tag host_uniq) (PPPoETag_from_bytes (fr_payload frame))
                        (host_uniq = 0, None, None)
                in if \<not> matched then None
                   else if (case cfg_ac_name config of
                              None \<Rightarrow> False
                            | Some allowed \<Rightarrow>
                                allowed \<noteq> [] \<and> map_option from_utf8_lossy ac_name \<noteq> Some allowed)
                        then None
                        else Some (ReuqestSession src_mac ac_cookie)))"

fun scan_pads_tag :: "u32 \<Rightarrow> PPPoETag \<Rightarrow> bool \<Rightarrow> bool" where
  "scan_pads_tag host_uniq (HostUniq hid) matched = (hid = host_uniq)"
| "scan_pads_tag host_uniq _ matched = matched"

definition handle_session_confirm ::
  "bytes \<Rightarrow> PPPoEClientConfig \<Rightarrow> u32 \<Rightarrow> bytes \<Rightarrow> Phase1State option" where
  "handle_session_confirm raw config host_uniq server_mac =
     (case pppoe_frame_of ETH_P_PPOED raw of
        None \<Rightarrow> None
      | Some (src, frame) \<Rightarrow>
          (if \<not> is_confirm frame then None
           else if \<not> fold (scan_pads_tag host_uniq) (PPPoETag_from_bytes (fr_payload frame)) (host_uniq = 0)
                then None
                else Some (LcpNegotiating
                       \<lparr>ln_server_mac = server_mac, ln_session_id = fr_sid frame,
                        ln_our_mru = cfg_requested_mru config, ln_our_magic = 0,
                        ln_cfg_req_id = 0, ln_our_config_acked = False,
                        ln_peer_mru = 0, ln_peer_magic = 0, ln_auth_type = 0,
                        ln_peer_config_received = False\<rparr>)))"

definition opt_u16 :: "PPPOption \<Rightarrow> u16" where
  "opt_u16 op = u16_from_be_bytes (opt_data op ! 0) (opt_data op ! 1)"

definition opt_u32 :: "PPPOption \<Rightarrow> u32" where
  "opt_u32 op = u32_from_be_bytes (opt_data op ! 0) (opt_data op ! 1) (opt_data op ! 2) (opt_data op ! 3)"

definition parse_lcp_request_option ::
  "PPPOption \<Rightarrow> u16 option \<times> u32 option \<times> u16 option \<times> nat \<Rightarrow> u16 option \<times> u32 option \<times> u16 option \<times> nat" where
  "parse_lcp_request_option op acc =
     (case acc of (mru, magic_number, auth_type, count) \<Rightarrow>
        if is_mru op \<and> length (opt_data op) \<ge> 2
        then (Some (opt_u16 op), magic_number, auth_type, count + 1)
        else if is_magic_number op \<and> length (opt_data op) \<ge> 4
        then (mru, Some (opt_u32 op), auth_type, count + 1)
        else if is_auth_type op \<and> length (opt_data op) \<ge> 2
        then (mru, magic_number, Some (opt_u16 op), count + 1)
        else (mru, magic_number, auth_type, count + 1))"

definition parse_lcp_request_options :: "bytes \<Rightarrow> u16 option \<times> u32 option \<times> u16 option \<times> nat" where
  "parse_lcp_request_options payload =
     fold parse_lcp_request_option (PPPOption_from_bytes payload) (None, None, None, 0)"

definition parse_lcp_mru_magic_option ::
  "PPPOption \<Rightarrow> u16 option \<times> u32 option \<Rightarrow> u16 option \<times> u32 option" where
  "parse_lcp_mru_magic_option op acc =
     (case acc of (mru, magic_number) \<Rightarrow>
        if is_mru op \<and> length (opt_data op) \<ge> 2 then (Some (opt_u16 op), magic_number)
        else if is_magic_number op \<and> length (opt_data op) \<ge> 4 then (mru, Some (opt_u32 op))
        else (mru, magic_number))"

definition parse_lcp_mru_magic_options :: "bytes \<Rightarrow> u16 option \<times> u32 option" where
  "parse_lcp_mru_magic_options payload =
     fold parse_lcp_mru_magic_option (PPPOption_from_bytes payload) (None, None)"

text \<open>The LCP packet of a session frame, or nothing.\<close>

definition lcp_packet_of :: "u16 \<Rightarrow> bytes \<Rightarrow> PointToPoint option" where
  "lcp_packet_of session_id raw =
     (case pppoe_frame_of ETH_P_PPOES raw of
        None \<Rightarrow> None
      | Some (src_mac, frame) \<Rightarrow>
          (if fr_sid frame \<noteq> session_id then None
           else case PointToPoint_new (fr_payload frame) of
                  None \<Rightarrow> None
                | Some lcp \<Rightarrow> if \<not> is_lcp_config lcp then None else Some lcp))"

definition lcp_phase_result :: "lcp_negotiating \<Rightarrow> LcpPhaseResult" where
  "lcp_phase_result n =
     \<lparr>lr_session_id = ln_session_id n, lr_server_mac = ln_server_mac n, lr_mru = ln_our_mru n,
      lr_magic_number = ln_our_magic n, lr_auth_type = ln_auth_type n,
      lr_peer_mru = ln_peer_mru n, lr_peer_magic = ln_peer_magic n\<rparr>"

text \<open>The three branches of \<open>handle_lcp_packet\<close> that change the negotiation.\<close>

definition on_lcp_request ::
  "PPPoEClientConfig \<Rightarrow> u32 \<Rightarrow> PointToPoint \<Rightarrow> lcp_negotiating \<Rightarrow> lcp_negotiating io" where
  "on_lcp_request config generated_magic lcp n =
     (case parse_lcp_request_options (ppp_payload lcp) of
        (Some mru, Some magic, Some at, count) \<Rightarrow>
          (let n1 = n\<lparr>ln_peer_config_received := True, ln_auth_type := at, ln_peer_mru := mru,
                      ln_peer_magic := magic\<rparr>
           in io_then (send_pppoe_session_frame (ln_server_mac n1) (cfg_iface_mac config)
                         (ln_session_id n1) (gen_ack lcp))
                (if \<not> ln_our_config_acked n1 then
                   (let n2 = n1\<lparr>ln_our_magic := generated_magic, ln_cfg_req_id := ln_cfg_req_id n1 + 1\<rparr>
                    in io_then (send_lcp_config_request config (ln_session_id n2) (ln_cfg_req_id n2)
                                  (ln_our_mru n2) (ln_our_magic n2) (ln_server_mac n2))
                         (io_return n2))
                 else io_return n1))
      | _ \<Rightarrow> io_throw (Err LcpConfigRejected))"

definition on_lcp_ack :: "PointToPoint \<Rightarrow> lcp_negotiating \<Rightarrow> lcp_negotiating" where
  "on_lcp_ack lcp n =
     (case parse_lcp_mru_magic_options (ppp_payload lcp) of
        (Some mru, Some magic) \<Rightarrow> n\<lparr>ln_our_config_acked := True\<rparr>
      | _ \<Rightarrow> n)"

definition on_lcp_nak :: "PPPoEClientConfig \<Rightarrow> PointToPoint \<Rightarrow> lcp_negotiating \<Rightarrow> lcp_negotiating io" where
  "on_lcp_nak config lcp n =
     (case parse_lcp_mru_magic_options (ppp_payload lcp) of
        (Some mru, Some magic) \<Rightarrow>
          (let n1 = n\<lparr>ln_our_config_acked := False, ln_cfg_req_id := ln_cfg_req_id n + 1,
                      ln_our_magic := magic, ln_our_mru := min mru (ln_our_mru n)\<rparr>
           in io_then (send_lcp_config_request config (ln_session_id n1) (ln_cfg_req_id n1)
                         (ln_our_mru n1) (ln_our_magic n1) (ln_server_mac n1))
                (io_return n1))
      | _ \<Rightarrow> io_return n)"

definition handle_lcp_packet ::
  "bytes \<Rightarrow> lcp_negotiating \<Rightarrow> PPPoEClientConfig \<Rightarrow> u32 \<Rightarrow> (lcp_negotiating \<times> LcpPhaseResult option) io" where
  "handle_lcp_packet raw n config generated_magic =
     (case lcp_packet_of (ln_session_id n) raw of
        None \<Rightarrow> io_return (n, None)
      | Some lcp \<Rightarrow>
          io_bind
            (if is_request lcp then on_lcp_request config generated_magic lcp n
             else if is_ack lcp then io_return (on_lcp_ack lcp n)
             else if is_nak lcp then on_lcp_nak config lcp n
             else if is_reject lcp then io_throw (Err LcpConfigRejected)
             else io_return n)
            (\<lambda>n'. io_return (n', if ln_our_config_acked n' \<and> ln_peer_config_received n'
                                 then Some (lcp_phase_result n') else None)))"

section \<open>The loop\<close>

definition on_p1_recv ::
  "PPPoEClientConfig \<Rightarrow> u32 \<Rightarrow> u32 \<Rightarrow> bytes \<Rightarrow> p1 \<Rightarrow> (p1, LcpPhaseResult) flow io" where
  "on_p1_recv config host_uniq magic_number raw s =
     (case p1_state s of
        Discovering \<Rightarrow>
          (case handle_discovery raw config host_uniq of
             None \<Rightarrow> io_return (Continue s)
           | Some next \<Rightarrow>
               io_then (case next of
                          ReuqestSession server_mac ac_cookie \<Rightarrow>
                            send_padr config host_uniq server_mac ac_cookie
                        | _ \<Rightarrow> io_return ())
                 (io_then (reset_timeout DEFAULT_TIMEOUT)
                   (io_return (Continue (s\<lparr>p1_state := next, p1_discovery_retries := 0\<rparr>)))))
      | ReuqestSession server_mac ac_cookie \<Rightarrow>
          (case handle_session_confirm raw config host_uniq server_mac of
             None \<Rightarrow> io_return (Continue s)
           | Some next \<Rightarrow>
               io_then (reset_timeout DEFAULT_TIMEOUT)
                 (io_return (Continue (s\<lparr>p1_state := next, p1_discovery_retries := 0\<rparr>))))
      | LcpNegotiating n \<Rightarrow>
          io_bind (handle_lcp_packet raw n config magic_number)
            (\<lambda>(n', result). case result of
               Some r \<Rightarrow> io_return (Done r)
             | None \<Rightarrow> io_return (Continue (s\<lparr>p1_state := LcpNegotiating n'\<rparr>))))"

definition on_p1_timeout :: "PPPoEClientConfig \<Rightarrow> u32 \<Rightarrow> p1 \<Rightarrow> (p1, LcpPhaseResult) flow io" where
  "on_p1_timeout config host_uniq s =
     (case p1_state s of
        Discovering \<Rightarrow>
          (let s' = s\<lparr>p1_discovery_retries := p1_discovery_retries s + 1\<rparr>
           in if p1_discovery_retries s' > MAX_DISCOVERY_RETRIES then io_throw (Err DiscoveryTimeout)
              else io_then (send_padi config host_uniq)
                     (io_then (reset_timeout DEFAULT_TIMEOUT) (io_return (Continue s'))))
      | ReuqestSession server_mac ac_cookie \<Rightarrow>
          (let s' = s\<lparr>p1_discovery_retries := p1_discovery_retries s + 1\<rparr>
           in if p1_discovery_retries s' > MAX_DISCOVERY_RETRIES then io_throw (Err DiscoveryTimeout)
              else io_then (send_padr config host_uniq server_mac ac_cookie)
                     (io_then (reset_timeout DEFAULT_TIMEOUT) (io_return (Continue s'))))
      | LcpNegotiating n \<Rightarrow>
          (let s' = s\<lparr>p1_lcp_retries := p1_lcp_retries s + 1\<rparr>
           in if p1_lcp_retries s' > MAX_LCP_RETRIES then io_throw (Err LcpTimeout)
              else let n' = (if \<not> ln_our_config_acked n then n\<lparr>ln_cfg_req_id := ln_cfg_req_id n + 1\<rparr> else n)
                   in io_then (if \<not> ln_our_config_acked n
                               then send_lcp_config_request config (ln_session_id n') (ln_cfg_req_id n')
                                      (ln_our_mru n') (ln_our_magic n') (ln_server_mac n')
                               else io_return ())
                        (io_then (reset_timeout (DEFAULT_TIMEOUT * (unat (p1_lcp_retries s') + 1)))
                          (io_return (Continue (s'\<lparr>p1_state := LcpNegotiating n'\<rparr>))))))"

fun p1_step ::
  "PPPoEClientConfig \<Rightarrow> u32 \<Rightarrow> u32 \<Rightarrow> p1_event \<Rightarrow> p1 \<Rightarrow> (p1, LcpPhaseResult) flow io" where
  "p1_step config host_uniq magic_number P1Stop s = io_throw (Err ServiceStopped)"
| "p1_step config host_uniq magic_number (P1Recv None) s = io_throw (Err ChannelClosed)"
| "p1_step config host_uniq magic_number (P1Recv (Some raw)) s =
     on_p1_recv config host_uniq magic_number raw s"
| "p1_step config host_uniq magic_number P1Timeout s = on_p1_timeout config host_uniq s"

definition swap_bytes_u32 :: "u32 \<Rightarrow> u32" where
  "swap_bytes_u32 w =
     (let b = u32_to_be_bytes w in u32_from_be_bytes (b ! 3) (b ! 2) (b ! 1) (b ! 0))"

definition p1_init :: p1 where
  "p1_init = \<lparr>p1_state = Discovering, p1_discovery_retries = 0, p1_lcp_retries = 0\<rparr>"

definition p1_start :: "PPPoEClientConfig \<Rightarrow> u32 \<Rightarrow> p1 io" where
  "p1_start config host_uniq =
     io_then (send_padi config host_uniq)
       (io_then (reset_timeout DEFAULT_TIMEOUT) (io_return p1_init))"

definition p1_run ::
  "PPPoEClientConfig \<Rightarrow> u32 \<Rightarrow> nat \<Rightarrow> p1_event list \<Rightarrow> (p1, LcpPhaseResult) flow io" where
  "p1_run config pid unix_secs es =
     (let host_uniq = swap_bytes_u32 pid; magic_number = word_of_nat unix_secs
      in io_bind (p1_start config host_uniq) (run_events (p1_step config host_uniq magic_number) es))"

section \<open>Invariant and budget\<close>

definition p1_inv :: "PPPoEClientConfig \<Rightarrow> p1 \<Rightarrow> bool" where
  "p1_inv config s \<longleftrightarrow> p1_discovery_retries s \<le> 5 \<and> p1_lcp_retries s \<le> 5 \<and>
     (case p1_state s of
        Discovering \<Rightarrow> True
      | ReuqestSession server_mac ac_cookie \<Rightarrow> length server_mac = 6
      | LcpNegotiating n \<Rightarrow> length (ln_server_mac n) = 6 \<and> ln_our_mru n \<le> cfg_requested_mru config)"

definition p1_budget :: "p1 \<Rightarrow> nat" where
  "p1_budget s = (5 - unat (p1_lcp_retries s)) +
     (case p1_state s of
        Discovering \<Rightarrow> (5 - unat (p1_discovery_retries s)) + 5
      | ReuqestSession _ _ \<Rightarrow> 5 - unat (p1_discovery_retries s)
      | LcpNegotiating _ \<Rightarrow> 0)"

definition is_p1_timeout :: "p1_event \<Rightarrow> bool" where
  "is_p1_timeout e \<longleftrightarrow> e = P1Timeout"

lemma handle_discovery_SomeD:
  "handle_discovery raw config h = Some st \<Longrightarrow>
     \<exists>mac cookie. st = ReuqestSession mac cookie \<and> length mac = 6 \<and> mac = slice 6 12 raw"
  by (auto simp: handle_discovery_def pppoe_frame_of_def extract_l2_def Let_def
      split: option.splits if_splits prod.splits)

lemma handle_session_confirm_SomeD:
  "handle_session_confirm raw config h mac = Some st \<Longrightarrow>
     \<exists>n. st = LcpNegotiating n \<and> ln_server_mac n = mac \<and> ln_our_mru n = cfg_requested_mru config \<and>
         \<not> ln_our_config_acked n \<and> \<not> ln_peer_config_received n"
  by (auto simp: handle_session_confirm_def split: option.splits if_splits prod.splits)

lemma on_lcp_request_cases:
  assumes "length (ln_server_mac n) = 6"
  shows "on_lcp_request config g lcp n c \<noteq> (Inl Panic, c')"
    and "on_lcp_request config g lcp n c = (Inr n', c') \<Longrightarrow>
      ln_server_mac n' = ln_server_mac n \<and> ln_session_id n' = ln_session_id n \<and>
      ln_our_mru n' = ln_our_mru n \<and> ln_our_config_acked n' = ln_our_config_acked n \<and>
      ln_peer_config_received n' \<and>
      (\<exists>cnt. parse_lcp_request_options (ppp_payload lcp) =
         (Some (ln_peer_mru n'), Some (ln_peer_magic n'), Some (ln_auth_type n'), cnt))"
  using assms
  by (auto simp: on_lcp_request_def send_lcp_config_request_def Let_def io_elims send_session_Inl
      send_l2_Inl split: option.splits prod.splits if_splits)

lemma on_lcp_nak_cases:
  assumes "length (ln_server_mac n) = 6"
  shows "on_lcp_nak config lcp n c \<noteq> (Inl Panic, c')"
    and "on_lcp_nak config lcp n c = (Inr n', c') \<Longrightarrow>
      ln_server_mac n' = ln_server_mac n \<and> ln_session_id n' = ln_session_id n \<and>
      ln_our_mru n' \<le> ln_our_mru n \<and> (ln_our_config_acked n' \<longrightarrow> ln_our_config_acked n) \<and>
      ln_peer_config_received n' = ln_peer_config_received n \<and>
      ln_peer_mru n' = ln_peer_mru n \<and> ln_peer_magic n' = ln_peer_magic n \<and>
      ln_auth_type n' = ln_auth_type n"
  using assms
  by (auto simp: on_lcp_nak_def send_lcp_config_request_def Let_def io_elims
      send_l2_Inl split: option.splits prod.splits if_splits)

lemma on_lcp_ack_frame:
  "ln_server_mac (on_lcp_ack lcp n) = ln_server_mac n"
  "ln_session_id (on_lcp_ack lcp n) = ln_session_id n"
  "ln_our_mru (on_lcp_ack lcp n) = ln_our_mru n"
  "ln_peer_config_received (on_lcp_ack lcp n) = ln_peer_config_received n"
  "ln_peer_mru (on_lcp_ack lcp n) = ln_peer_mru n"
  "ln_peer_magic (on_lcp_ack lcp n) = ln_peer_magic n"
  "ln_auth_type (on_lcp_ack lcp n) = ln_auth_type n"
  by (simp_all add: on_lcp_ack_def split: option.splits prod.splits)

lemma handle_lcp_packet_Inr:
  assumes "handle_lcp_packet raw n config g c = (Inr (n', r), c')"
  shows "r = (if ln_our_config_acked n' \<and> ln_peer_config_received n' \<and> r \<noteq> None
              then Some (lcp_phase_result n') else None)"
    and "n' = n \<or> (\<exists>lcp. lcp_packet_of (ln_session_id n) raw = Some lcp \<and>
      (is_request lcp \<and> on_lcp_request config g lcp n c = (Inr n', c') \<or>
       is_ack lcp \<and> n' = on_lcp_ack lcp n \<or>
       is_nak lcp \<and> on_lcp_nak config lcp n c = (Inr n', c')))"
proof -
  let ?m = "\<lambda>lcp. if is_request lcp then on_lcp_request config g lcp n
             else if is_ack lcp then io_return (on_lcp_ack lcp n)
             else if is_nak lcp then on_lcp_nak config lcp n
             else if is_reject lcp then io_throw (Err LcpConfigRejected)
             else io_return n"
  show "r = (if ln_our_config_acked n' \<and> ln_peer_config_received n' \<and> r \<noteq> None
              then Some (lcp_phase_result n') else None)"
    using assms by (auto simp: handle_lcp_packet_def io_bind_Inr split: option.splits)
  show "n' = n \<or> (\<exists>lcp. lcp_packet_of (ln_session_id n) raw = Some lcp \<and>
      (is_request lcp \<and> on_lcp_request config g lcp n c = (Inr n', c') \<or>
       is_ack lcp \<and> n' = on_lcp_ack lcp n \<or>
       is_nak lcp \<and> on_lcp_nak config lcp n c = (Inr n', c')))"
  proof (cases "lcp_packet_of (ln_session_id n) raw")
    case None
    with assms show ?thesis by (simp add: handle_lcp_packet_def)
  next
    case (Some lcp)
    with assms have "?m lcp c = (Inr n', c')"
      by (simp add: handle_lcp_packet_def io_bind_Inr del: if_split)
    with Some show ?thesis by (auto split: if_split_asm)
  qed
qed

lemma handle_lcp_packet_no_panic:
  assumes "length (ln_server_mac n) = 6"
  shows "handle_lcp_packet raw n config g c \<noteq> (Inl Panic, c')"
proof (cases "lcp_packet_of (ln_session_id n) raw")
  case None
  then show ?thesis by (simp add: handle_lcp_packet_def)
next
  case (Some lcp)
  then show ?thesis
    using on_lcp_request_cases(1) [OF assms] on_lcp_nak_cases(1) [OF assms]
    by (simp add: handle_lcp_packet_def io_bind_Inl)
qed

lemma handle_lcp_packet_frame:
  assumes "length (ln_server_mac n) = 6" and "handle_lcp_packet raw n config g c = (Inr (n', r), c')"
  shows "ln_server_mac n' = ln_server_mac n \<and> ln_session_id n' = ln_session_id n \<and>
     ln_our_mru n' \<le> ln_our_mru n"
  using handle_lcp_packet_Inr(2) [OF assms(2)] on_lcp_request_cases(2) [OF assms(1)]
    on_lcp_nak_cases(2) [OF assms(1)]
  by (elim disjE exE conjE) (simp_all add: on_lcp_ack_frame)

lemma on_p1_recv_Continue:
  assumes inv: "p1_inv config s" and st: "on_p1_recv config h g raw s c = (Inr (Continue s'), c')"
  shows "p1_inv config s' \<and> p1_budget s' \<le> p1_budget s"
proof (cases "p1_state s")
  case Discovering
  show ?thesis
  proof (cases "handle_discovery raw config h")
    case None
    with Discovering st inv show ?thesis by (simp add: on_p1_recv_def)
  next
    case (Some nxt)
    then obtain mac ck where "nxt = ReuqestSession mac ck" "length mac = 6"
      using handle_discovery_SomeD by blast
    with Discovering Some st inv show ?thesis
      by (auto simp: on_p1_recv_def io_then_Inr p1_inv_def p1_budget_def)
  qed
next
  case (ReuqestSession mac ck)
  show ?thesis
  proof (cases "handle_session_confirm raw config h mac")
    case None
    with ReuqestSession st inv show ?thesis by (simp add: on_p1_recv_def)
  next
    case (Some nxt)
    then obtain n where "nxt = LcpNegotiating n" "ln_server_mac n = mac"
      "ln_our_mru n = cfg_requested_mru config"
      using handle_session_confirm_SomeD by blast
    with ReuqestSession Some st inv show ?thesis
      by (auto simp: on_p1_recv_def io_then_Inr p1_inv_def p1_budget_def)
  qed
next
  case (LcpNegotiating n)
  with inv have l6: "length (ln_server_mac n) = 6" and mru: "ln_our_mru n \<le> cfg_requested_mru config"
    by (simp_all add: p1_inv_def)
  from st LcpNegotiating obtain n' where n': "handle_lcp_packet raw n config g c = (Inr (n', None), c')"
    and s': "s' = s\<lparr>p1_state := LcpNegotiating n'\<rparr>"
    by (auto simp: on_p1_recv_def io_bind_Inr split: prod.splits option.split_asm)
  from handle_lcp_packet_frame [OF l6 n'] LcpNegotiating inv mru s' show ?thesis
    by (auto simp: p1_inv_def p1_budget_def intro: order_trans)
qed

lemma on_p1_recv_no_panic:
  assumes inv: "p1_inv config s"
  shows "on_p1_recv config h g raw s c \<noteq> (Inl Panic, c')"
proof (cases "p1_state s")
  case Discovering
  then show ?thesis
    using handle_discovery_SomeD [of raw config h]
    by (auto simp: on_p1_recv_def io_then_Inl send_padr_def send_l2_Inl split: option.splits Phase1State.splits)
next
  case (ReuqestSession mac ck)
  then show ?thesis
    by (auto simp: on_p1_recv_def io_then_Inl split: option.splits)
next
  case (LcpNegotiating n)
  with inv have "length (ln_server_mac n) = 6" by (simp add: p1_inv_def)
  from handle_lcp_packet_no_panic [OF this] LcpNegotiating show ?thesis
    by (auto simp: on_p1_recv_def io_bind_Inl split: prod.splits option.split_asm)
qed

lemma on_p1_timeout_Continue:
  assumes inv: "p1_inv config s" and st: "on_p1_timeout config h s c = (Inr (Continue s'), c')"
  shows "p1_inv config s' \<and> p1_budget s' < p1_budget s"
proof (cases "p1_state s")
  case Discovering
  with st inv have "s' = s\<lparr>p1_discovery_retries := p1_discovery_retries s + 1\<rparr>"
    and "\<not> 5 < p1_discovery_retries s + 1" and "p1_discovery_retries s \<le> 5"
    by (auto simp: on_p1_timeout_def Let_def io_then_Inr MAX_DISCOVERY_RETRIES_def p1_inv_def
        split: if_split_asm)
  with Discovering inv retry_inc [of "p1_discovery_retries s"] show ?thesis
    by (auto simp: p1_inv_def p1_budget_def)
next
  case (ReuqestSession mac ck)
  with st inv have "s' = s\<lparr>p1_discovery_retries := p1_discovery_retries s + 1\<rparr>"
    and "\<not> 5 < p1_discovery_retries s + 1" and "p1_discovery_retries s \<le> 5"
    by (auto simp: on_p1_timeout_def Let_def io_then_Inr MAX_DISCOVERY_RETRIES_def p1_inv_def
        split: if_split_asm)
  with ReuqestSession inv retry_inc [of "p1_discovery_retries s"] show ?thesis
    by (auto simp: p1_inv_def p1_budget_def)
next
  case (LcpNegotiating n)
  with st inv obtain n' where s': "s' = s\<lparr>p1_lcp_retries := p1_lcp_retries s + 1, p1_state := LcpNegotiating n'\<rparr>"
    and "ln_server_mac n' = ln_server_mac n" "ln_our_mru n' = ln_our_mru n"
    and "\<not> 5 < p1_lcp_retries s + 1" and "p1_lcp_retries s \<le> 5"
    by (auto simp: on_p1_timeout_def Let_def io_then_Inr MAX_LCP_RETRIES_def p1_inv_def
        split: if_split_asm)
  with LcpNegotiating inv retry_inc [of "p1_lcp_retries s"] show ?thesis
    by (auto simp: p1_inv_def p1_budget_def)
qed

lemma on_p1_timeout_no_panic:
  "p1_inv config s \<Longrightarrow> on_p1_timeout config h s c \<noteq> (Inl Panic, c')"
  by (cases "p1_state s")
     (auto simp: on_p1_timeout_def Let_def io_then_Inl send_padi_def send_padr_def
        send_lcp_config_request_def send_l2_Inl p1_inv_def)

lemma p1_step_Continue:
  assumes inv: "p1_inv config s" and st: "p1_step config h g e s c = (Inr (Continue s'), c')"
  shows "p1_inv config s' \<and> p1_budget s' \<le> p1_budget s \<and> (e = P1Timeout \<longrightarrow> p1_budget s' < p1_budget s)"
proof (cases e)
  case P1Stop
  with st show ?thesis by simp
next
  case (P1Recv r)
  with st on_p1_recv_Continue [OF inv] show ?thesis by (cases r) auto
next
  case P1Timeout
  with st on_p1_timeout_Continue [OF inv] show ?thesis by fastforce
qed

lemma p1_step_no_panic:
  assumes inv: "p1_inv config s"
  shows "p1_step config h g e s c \<noteq> (Inl Panic, c')"
proof (cases e)
  case (P1Recv r)
  with on_p1_recv_no_panic [OF inv] show ?thesis by (cases r) auto
qed (use on_p1_timeout_no_panic [OF inv] in auto)

interpretation lcp_phase: guarded_phase "p1_step config h g" "p1_inv config" is_p1_timeout p1_budget "\<lambda>_. True"
  for config h g
proof (unfold_locales, goal_cases)
  case 1
  then show ?case using p1_step_Continue by blast
next
  case 2
  then show ?case using p1_step_Continue by blast
next
  case 3
  then show ?case using p1_step_Continue by (metis is_p1_timeout_def)
next
  case 4
  then show ?case using p1_step_no_panic by blast
qed

section \<open>Provenance of the result\<close>

text \<open>What the client must have received, as facts about the events consumed.\<close>

definition answers_us :: "u32 \<Rightarrow> PPPoEFrame \<Rightarrow> bool" where
  "answers_us h f \<longleftrightarrow> h = 0 \<or> HostUniq h \<in> set (PPPoETag_from_bytes (fr_payload f))"

definition heard_pado :: "p1_event set \<Rightarrow> u32 \<Rightarrow> bytes \<Rightarrow> bool" where
  "heard_pado H h mac \<longleftrightarrow> (\<exists>raw f. P1Recv (Some raw) \<in> H \<and>
     pppoe_frame_of ETH_P_PPOED raw = Some (mac, f) \<and> is_offer f \<and> answers_us h f)"

definition heard_pads :: "p1_event set \<Rightarrow> u32 \<Rightarrow> u16 \<Rightarrow> bool" where
  "heard_pads H h sid \<longleftrightarrow> (\<exists>raw src f. P1Recv (Some raw) \<in> H \<and>
     pppoe_frame_of ETH_P_PPOED raw = Some (src, f) \<and> is_confirm f \<and> answers_us h f \<and> fr_sid f = sid)"

definition heard_config_request :: "p1_event set \<Rightarrow> u16 \<Rightarrow> u16 \<Rightarrow> u32 \<Rightarrow> u16 \<Rightarrow> bool" where
  "heard_config_request H sid mru magic auth \<longleftrightarrow> (\<exists>raw lcp cnt. P1Recv (Some raw) \<in> H \<and>
     lcp_packet_of sid raw = Some lcp \<and> is_request lcp \<and>
     parse_lcp_request_options (ppp_payload lcp) = (Some mru, Some magic, Some auth, cnt))"

definition heard_config_ack :: "p1_event set \<Rightarrow> u16 \<Rightarrow> bool" where
  "heard_config_ack H sid \<longleftrightarrow> (\<exists>raw lcp mru magic. P1Recv (Some raw) \<in> H \<and>
     lcp_packet_of sid raw = Some lcp \<and> is_ack lcp \<and>
     parse_lcp_mru_magic_options (ppp_payload lcp) = (Some mru, Some magic))"

lemmas heard_defs = heard_pado_def heard_pads_def heard_config_request_def heard_config_ack_def

lemma heard_mono:
  assumes "H \<subseteq> H'"
  shows "heard_pado H h mac \<Longrightarrow> heard_pado H' h mac"
    and "heard_pads H h sid \<Longrightarrow> heard_pads H' h sid"
    and "heard_config_request H sid mru magic auth \<Longrightarrow> heard_config_request H' sid mru magic auth"
    and "heard_config_ack H sid \<Longrightarrow> heard_config_ack H' sid"
  using assms unfolding heard_defs by blast+

definition p1_hinv :: "PPPoEClientConfig \<Rightarrow> u32 \<Rightarrow> p1_event set \<Rightarrow> p1 \<Rightarrow> bool" where
  "p1_hinv config h H s \<longleftrightarrow> p1_inv config s \<and>
     (case p1_state s of
        Discovering \<Rightarrow> True
      | ReuqestSession mac ck \<Rightarrow> heard_pado H h mac
      | LcpNegotiating n \<Rightarrow> heard_pado H h (ln_server_mac n) \<and> heard_pads H h (ln_session_id n) \<and>
          (ln_peer_config_received n \<longrightarrow>
             heard_config_request H (ln_session_id n) (ln_peer_mru n) (ln_peer_magic n) (ln_auth_type n)) \<and>
          (ln_our_config_acked n \<longrightarrow> heard_config_ack H (ln_session_id n)))"

definition p1_post :: "PPPoEClientConfig \<Rightarrow> u32 \<Rightarrow> p1_event set \<Rightarrow> LcpPhaseResult \<Rightarrow> bool" where
  "p1_post config h H r \<longleftrightarrow>
     lr_mru r \<le> cfg_requested_mru config \<and> length (lr_server_mac r) = 6 \<and>
     heard_pado H h (lr_server_mac r) \<and> heard_pads H h (lr_session_id r) \<and>
     heard_config_request H (lr_session_id r) (lr_peer_mru r) (lr_peer_magic r) (lr_auth_type r) \<and>
     heard_config_ack H (lr_session_id r)"

lemma fold_scan_pads: "fold (scan_pads_tag h) tags b \<Longrightarrow> b \<or> HostUniq h \<in> set tags"
proof (induction tags arbitrary: b)
  case (Cons t ts)
  from Cons.prems Cons.IH have "scan_pads_tag h t b \<or> HostUniq h \<in> set ts" by auto
  then show ?case by (cases t) auto
qed simp

lemma fold_scan_pado: "fst (fold (scan_pado_tag h) tags (b, ck, nm)) \<Longrightarrow> b \<or> HostUniq h \<in> set tags"
proof (induction tags arbitrary: b ck nm)
  case (Cons t ts)
  obtain b' ck' nm' where t: "scan_pado_tag h t (b, ck, nm) = (b', ck', nm')" by (metis prod_cases3)
  with Cons.prems Cons.IH have "b' \<or> HostUniq h \<in> set ts" by auto
  with t show ?case by (cases t) auto
qed simp

lemma handle_discovery_heard:
  assumes "handle_discovery raw config h = Some (ReuqestSession mac ck)"
  shows "heard_pado {P1Recv (Some raw)} h mac"
proof -
  from assms obtain f where f: "pppoe_frame_of ETH_P_PPOED raw = Some (mac, f)" "is_offer f"
    "fst (fold (scan_pado_tag h) (PPPoETag_from_bytes (fr_payload f)) (h = 0, None, None))"
    by (auto simp: handle_discovery_def Let_def split: option.split_asm prod.splits if_split_asm)
  from fold_scan_pado [OF f(3)] f(1,2) show ?thesis
    by (auto simp: heard_pado_def answers_us_def)
qed

lemma handle_session_confirm_heard:
  assumes "handle_session_confirm raw config h mac = Some (LcpNegotiating n)"
  shows "heard_pads {P1Recv (Some raw)} h (ln_session_id n)"
proof -
  from assms obtain src f where f: "pppoe_frame_of ETH_P_PPOED raw = Some (src, f)" "is_confirm f"
    "fold (scan_pads_tag h) (PPPoETag_from_bytes (fr_payload f)) (h = 0)" "ln_session_id n = fr_sid f"
    by (auto simp: handle_session_confirm_def split: option.split_asm prod.splits if_split_asm)
  from fold_scan_pads [OF f(3)] f show ?thesis
    by (auto simp: heard_pads_def answers_us_def)
qed

lemma on_lcp_ack_heard:
  assumes "lcp_packet_of sid raw = Some lcp" "is_ack lcp" "ln_our_config_acked (on_lcp_ack lcp n)"
  shows "ln_our_config_acked n \<or> heard_config_ack {P1Recv (Some raw)} sid"
  using assms by (auto simp: on_lcp_ack_def heard_config_ack_def split: option.split_asm prod.splits)

text \<open>An LCP packet keeps the provenance of the negotiation's variables.\<close>

lemma handle_lcp_packet_heard:
  assumes n6: "length (ln_server_mac n) = 6"
    and req: "ln_peer_config_received n \<longrightarrow>
       heard_config_request H (ln_session_id n) (ln_peer_mru n) (ln_peer_magic n) (ln_auth_type n)"
    and ack: "ln_our_config_acked n \<longrightarrow> heard_config_ack H (ln_session_id n)"
    and st: "handle_lcp_packet raw n config g c = (Inr (n', r), c')"
  defines "H' \<equiv> insert (P1Recv (Some raw)) H"
  shows "(ln_peer_config_received n' \<longrightarrow>
       heard_config_request H' (ln_session_id n') (ln_peer_mru n') (ln_peer_magic n') (ln_auth_type n')) \<and>
     (ln_our_config_acked n' \<longrightarrow> heard_config_ack H' (ln_session_id n'))"
proof -
  have sub: "H \<subseteq> H'" "{P1Recv (Some raw)} \<subseteq> H'" by (auto simp: H'_def)
  from handle_lcp_packet_Inr(2) [OF st] consider (same) "n' = n"
    | (request) lcp where "lcp_packet_of (ln_session_id n) raw = Some lcp" "is_request lcp"
        "on_lcp_request config g lcp n c = (Inr n', c')"
    | (ack) lcp where "lcp_packet_of (ln_session_id n) raw = Some lcp" "is_ack lcp" "n' = on_lcp_ack lcp n"
    | (nak) lcp where "lcp_packet_of (ln_session_id n) raw = Some lcp" "is_nak lcp"
        "on_lcp_nak config lcp n c = (Inr n', c')"
    by blast
  then show ?thesis
  proof cases
    case same
    then show ?thesis using req ack heard_mono [OF sub(1)] by blast
  next
    case request
    from on_lcp_request_cases(2) [OF n6 request(3)] request(1,2)
    have "heard_config_request {P1Recv (Some raw)} (ln_session_id n') (ln_peer_mru n') (ln_peer_magic n') (ln_auth_type n')"
      by (auto simp: heard_config_request_def)
    then show ?thesis
      using on_lcp_request_cases(2) [OF n6 request(3)] heard_mono [OF sub(1)] heard_mono [OF sub(2)] ack
      by metis
  next
    case ack
    then show ?thesis
      using on_lcp_ack_heard [OF ack(1,2)] heard_mono [OF sub(1)] heard_mono [OF sub(2)] req assms(3)
      by (metis on_lcp_ack_frame)
  next
    case nak
    then show ?thesis
      using on_lcp_nak_cases(2) [OF n6 nak(3)] heard_mono [OF sub(1)] req ack by metis
  qed
qed



lemma on_p1_recv_heard:
  assumes hinv: "p1_hinv config h H s" and st: "on_p1_recv config h g raw s c = (Inr (Continue s'), c')"
  shows "p1_hinv config h (insert (P1Recv (Some raw)) H) s'"
proof -
  let ?H = "insert (P1Recv (Some raw)) H"
  have inv: "p1_inv config s" using hinv by (simp add: p1_hinv_def)
  have inv': "p1_inv config s'" using on_p1_recv_Continue [OF inv st] by blast
  have sub: "H \<subseteq> ?H" "{P1Recv (Some raw)} \<subseteq> ?H" by auto
  show ?thesis
  proof (cases "p1_state s")
    case Discovering
    show ?thesis
    proof (cases "handle_discovery raw config h")
      case None
      with Discovering st inv' show ?thesis by (auto simp: on_p1_recv_def p1_hinv_def)
    next
      case (Some nxt)
      then obtain mac ck where nxt: "nxt = ReuqestSession mac ck"
        using handle_discovery_SomeD by blast
      with Some have "heard_pado ?H h mac"
        using handle_discovery_heard heard_mono(1) [OF sub(2)] by blast
      with Discovering Some nxt st inv' show ?thesis
        by (auto simp: on_p1_recv_def io_then_Inr p1_hinv_def)
    qed
  next
    case (ReuqestSession mac ck)
    with hinv have pado: "heard_pado ?H h mac"
      using heard_mono(1) [OF sub(1)] by (simp add: p1_hinv_def)
    show ?thesis
    proof (cases "handle_session_confirm raw config h mac")
      case None
      with ReuqestSession st inv' pado show ?thesis by (auto simp: on_p1_recv_def p1_hinv_def)
    next
      case (Some nxt)
      then obtain n where nxt: "nxt = LcpNegotiating n" "ln_server_mac n = mac"
        "\<not> ln_our_config_acked n" "\<not> ln_peer_config_received n"
        using handle_session_confirm_SomeD by blast
      with Some have "heard_pads ?H h (ln_session_id n)"
        using handle_session_confirm_heard heard_mono(2) [OF sub(2)] by blast
      with ReuqestSession Some nxt st inv' pado show ?thesis
        by (auto simp: on_p1_recv_def io_then_Inr p1_hinv_def)
    qed
  next
    case (LcpNegotiating n)
    with inv have l6: "length (ln_server_mac n) = 6" by (simp add: p1_inv_def)
    from st LcpNegotiating obtain n' where n': "handle_lcp_packet raw n config g c = (Inr (n', None), c')"
      and s': "s' = s\<lparr>p1_state := LcpNegotiating n'\<rparr>"
      by (auto simp: on_p1_recv_def io_bind_Inr split: prod.splits option.split_asm)
    from hinv LcpNegotiating handle_lcp_packet_heard [OF l6 _ _ n', of H]
      handle_lcp_packet_frame [OF l6 n'] heard_mono(1,2) [OF sub(1)] inv' s'
    show ?thesis by (auto simp: p1_hinv_def)
  qed
qed

lemma on_p1_recv_Done:
  assumes hinv: "p1_hinv config h H s" and st: "on_p1_recv config h g raw s c = (Inr (Done r), c')"
  shows "p1_post config h (insert (P1Recv (Some raw)) H) r"
proof (cases "p1_state s")
  case Discovering
  with st show ?thesis
    by (auto simp: on_p1_recv_def io_then_Inr split: option.split_asm Phase1State.split_asm)
next
  case (ReuqestSession mac ck)
  with st show ?thesis by (auto simp: on_p1_recv_def io_then_Inr split: option.split_asm)
next
  case (LcpNegotiating n)
  let ?H = "insert (P1Recv (Some raw)) H"
  have sub: "H \<subseteq> ?H" by auto
  from hinv LcpNegotiating have l6: "length (ln_server_mac n) = 6"
    and mru: "ln_our_mru n \<le> cfg_requested_mru config" by (simp_all add: p1_hinv_def p1_inv_def)
  from st LcpNegotiating obtain n' where n': "handle_lcp_packet raw n config g c = (Inr (n', Some r), c')"
    by (auto simp: on_p1_recv_def io_bind_Inr split: prod.splits option.split_asm)
  have r: "r = lcp_phase_result n'" "ln_our_config_acked n'" "ln_peer_config_received n'"
    using handle_lcp_packet_Inr(1) [OF n'] by (auto split: if_split_asm)
  have "ln_our_mru n' \<le> cfg_requested_mru config"
    using handle_lcp_packet_frame [OF l6 n'] mru by (blast intro: order_trans)
  with hinv LcpNegotiating handle_lcp_packet_heard [OF l6 _ _ n', of H]
    handle_lcp_packet_frame [OF l6 n'] heard_mono(1,2) [OF sub] r l6
  show ?thesis by (auto simp: p1_hinv_def p1_post_def lcp_phase_result_def)
qed

lemma on_p1_timeout_heard:
  assumes hinv: "p1_hinv config h H s" and st: "on_p1_timeout config h s c = (Inr (Continue s'), c')"
  shows "p1_hinv config h (insert P1Timeout H) s'"
proof -
  have "p1_inv config s" using hinv by (simp add: p1_hinv_def)
  then have inv': "p1_inv config s'" using on_p1_timeout_Continue st by blast
  have sub: "H \<subseteq> insert P1Timeout H" by auto
  show ?thesis
    using hinv st inv' heard_mono [OF sub]
    by (cases "p1_state s")
       (auto simp: on_p1_timeout_def Let_def io_then_Inr p1_hinv_def split: if_split_asm)
qed

lemma on_p1_timeout_not_Done: "on_p1_timeout config h s c \<noteq> (Inr (Done r), c')"
  by (cases "p1_state s") (auto simp: on_p1_timeout_def Let_def io_then_Inr split: if_split_asm)

interpretation lcp_history: phase_history "p1_step config h g" "p1_hinv config h" "p1_post config h"
  for config h g
proof (unfold_locales, goal_cases)
  case (1 H s e c s' c')
  then show ?case
    using on_p1_recv_heard on_p1_timeout_heard
    by (cases "(config, h, g, e, s)" rule: p1_step.cases) auto
next
  case (2 H s e c r c')
  then show ?case
    using on_p1_recv_Done on_p1_timeout_not_Done
    by (cases "(config, h, g, e, s)" rule: p1_step.cases) auto
next
  case (3 H r H')
  then show ?case using heard_mono [OF 3(2)] by (auto simp: p1_post_def)
qed

lemma p1_inv_init: "p1_inv config p1_init"
  by (simp add: p1_inv_def p1_init_def)

lemma p1_hinv_init: "p1_hinv config h {} p1_init"
  by (simp add: p1_hinv_def p1_inv_init) (simp add: p1_init_def)

lemma p1_start_Inr: "p1_start config h c = (Inr s, c') \<Longrightarrow> s = p1_init"
  by (auto simp: p1_start_def io_then_Inr)

lemma p1_start_no_panic: "p1_start config h c \<noteq> (Inl Panic, c')"
  by (auto simp: p1_start_def io_then_Inl send_padi_def send_l2_Inl)

lemma p1_run_Inr:
  "p1_run config pid t es c = (Inr f, c') \<Longrightarrow>
     \<exists>c1. run_events (p1_step config (swap_bytes_u32 pid) (word_of_nat t)) es p1_init c1 = (Inr f, c')"
  by (auto simp: p1_run_def Let_def io_bind_Inr dest: p1_start_Inr)

lemma p1_run_no_panic: "p1_run config pid t es c \<noteq> (Inl Panic, c')"
  using lcp_phase.run_no_panic [OF p1_inv_init] p1_start_no_panic
  by (auto simp: list_all_iff p1_run_def Let_def io_bind_Inl dest!: p1_start_Inr)

lemma p1_budget_init: "p1_budget p1_init = 15"
  by (simp add: p1_budget_def p1_init_def)


section \<open>Properties of phase 1\<close>

text \<open>C5: phase 1 cannot run for ever.  Whatever the peer sends and in whatever order, once the
  timer has fired more than fifteen times the phase has returned, with a result or with an error;
  it is neither still running nor panicking.  (Five silent rounds are allowed in each of the three
  states, and no packet gives one back.)\<close>

theorem lcp_phase_terminates:
  assumes "15 < length (filter is_p1_timeout es)"
  shows "(\<exists>r c'. p1_run config pid unix_secs es c = (Inr (Done r), c')) \<or>
         (\<exists>e c'. p1_run config pid unix_secs es c = (Inl (Err e), c'))"
proof (cases rule: io_total [of "p1_run config pid unix_secs es" c])
  case (ret f c')
  show ?thesis
  proof (cases f)
    case (Continue s)
    with ret obtain c1 where
      "run_events (p1_step config (swap_bytes_u32 pid) (word_of_nat unix_secs)) es p1_init c1 =
         (Inr (Continue s), c')"
      using p1_run_Inr by blast
    with lcp_phase.run_terminates [OF p1_inv_init] assms show ?thesis
      by (simp add: p1_budget_init)
  qed (use ret in blast)
next
  case (err e c')
  then show ?thesis by blast
next
  case (panic c')
  then show ?thesis using p1_run_no_panic by blast
qed

theorem lcp_phase_terminates_witness:
  "15 < length (filter is_p1_timeout (replicate 16 P1Timeout)) \<and>
   ((\<exists>r c'. p1_run (PPPoEClientConfig_new 0 1 [] MacAddr_dummy [] [] True 1492 None) 7 0
        (replicate 16 P1Timeout) \<lparr>effects = [], closed_after = None\<rparr> = (Inr (Done r), c')) \<or>
    (\<exists>e c'. p1_run (PPPoEClientConfig_new 0 1 [] MacAddr_dummy [] [] True 1492 None) 7 0
        (replicate 16 P1Timeout) \<lparr>effects = [], closed_after = None\<rparr> = (Inl (Err e), c')))"
proof -
  have h: "15 < length (filter is_p1_timeout (replicate 16 P1Timeout))"
    by (simp add: is_p1_timeout_def)
  show ?thesis using h lcp_phase_terminates [OF h] by blast
qed

lemma p1_run_post:
  assumes "p1_run config pid unix_secs es c = (Inr (Done r), c')"
  shows "p1_post config (swap_bytes_u32 pid) (set es) r"
proof -
  obtain c1 where "run_events (p1_step config (swap_bytes_u32 pid) (word_of_nat unix_secs)) es p1_init c1 =
      (Inr (Done r), c')"
    using p1_run_Inr [OF assms] by blast
  from lcp_history.run_post [OF p1_hinv_init this] show ?thesis by simp
qed

lemma p1_result_mac: "p1_run config pid unix_secs es c = (Inr (Done r), c') \<Longrightarrow> length (lr_server_mac r) = 6"
  using p1_run_post by (fastforce simp: p1_post_def)

text \<open>C11: a result of phase 1 is never made up.  If \<open>run\<close> returns a result, the client received a
  PADO from the very MAC address it reports and a PADS with the very session id it reports, both
  carrying its Host-Uniq (or it uses none); on that session it received a Config-Request with the
  reported MRU, magic number and authentication protocol, and a Config-Ack; and the MRU it settled
  on does not exceed the configured one.\<close>

theorem lcp_phase_provenance:
  assumes "p1_run config pid unix_secs es c = (Inr (Done r), c')"
  shows "heard_pado (set es) (swap_bytes_u32 pid) (lr_server_mac r) \<and>
    heard_pads (set es) (swap_bytes_u32 pid) (lr_session_id r) \<and>
    heard_config_request (set es) (lr_session_id r) (lr_peer_mru r) (lr_peer_magic r) (lr_auth_type r) \<and>
    heard_config_ack (set es) (lr_session_id r) \<and>
    lr_mru r \<le> cfg_requested_mru config \<and> length (lr_server_mac r) = 6"
  using p1_run_post [OF assms] by (simp add: p1_post_def)

definition ex_config :: PPPoEClientConfig where
  "ex_config = PPPoEClientConfig_new 0 1 [] (MacAddr 2 0 0 0 0 1) [0x75] [0x70] True 1492 None"

definition ex_eth :: "u16 \<Rightarrow> bytes \<Rightarrow> bytes" where
  "ex_eth ty body = [2, 0, 0, 0, 0, 1] @ [2, 0, 0, 0, 0, 9] @ u16_to_be_bytes ty @ body"

definition ex_chan :: chan where
  "ex_chan = \<lparr>effects = [], closed_after = None\<rparr>"

definition ex_p1_events :: "p1_event list" where
  "ex_p1_events =
    [P1Recv (Some (ex_eth ETH_P_PPOED ([0x11, 0x07, 0, 0, 0, 8] @ [1, 3, 0, 4, 0, 0, 0, 1]))),
     P1Recv (Some (ex_eth ETH_P_PPOED ([0x11, 0x65, 0, 0x42, 0, 8] @ [1, 3, 0, 4, 0, 0, 0, 1]))),
     P1Recv (Some (ex_eth ETH_P_PPOES ([0x11, 0, 0, 0x42, 0, 20] @ request_mru_with_auth 1 1492 7 0xc023))),
     P1Recv (Some (ex_eth ETH_P_PPOES ([0x11, 0, 0, 0x42, 0, 16] @ ack_mru 1 1492 5)))]"

definition ex_lcp_result :: LcpPhaseResult where
  "ex_lcp_result = \<lparr>lr_session_id = 0x42, lr_server_mac = [2, 0, 0, 0, 0, 9], lr_mru = 1492,
     lr_magic_number = 5, lr_auth_type = 0xc023, lr_peer_mru = 1492, lr_peer_magic = 7\<rparr>"

lemma ex_p1_run: "fst (p1_run ex_config 0x01000000 5 ex_p1_events ex_chan) = Inr (Done ex_lcp_result)"
  by code_simp

theorem lcp_phase_provenance_witness:
  "\<exists>c'. p1_run ex_config 0x01000000 5 ex_p1_events ex_chan = (Inr (Done ex_lcp_result), c') \<and>
     heard_pads (set ex_p1_events) (swap_bytes_u32 0x01000000) 0x42 \<and>
     heard_config_request (set ex_p1_events) 0x42 1492 7 0xc023"
proof -
  obtain c' where h: "p1_run ex_config 0x01000000 5 ex_p1_events ex_chan = (Inr (Done ex_lcp_result), c')"
    using ex_p1_run by (metis prod.collapse)
  from lcp_phase_provenance [OF h] h show ?thesis
    by (auto simp: ex_lcp_result_def)
qed

text \<open>C19: on a silent network the client sends the initial PADI and five retries, arms the timer for
  three seconds after each, and gives up with the retryable error \<open>DiscoveryTimeout\<close> at the sixth
  expiry.\<close>

theorem silent_network_gives_up:
  "p1_run config pid unix_secs (replicate 6 P1Timeout) \<lparr>effects = [], closed_after = None\<rparr> =
     (Inl (Err DiscoveryTimeout),
      \<lparr>effects = concat (replicate 6
         [Sent (octets MacAddr_broadcast @ octets (cfg_iface_mac config) @ u16_to_be_bytes ETH_P_PPOED @
            PPPoEFrame_convert_to_payload (get_discover_with_host_uniq (swap_bytes_u32 pid))),
          ResetTimeout DEFAULT_TIMEOUT]),
       closed_after = None\<rparr>)"
proof -
  have r6: "replicate 6 x = [x, x, x, x, x, x]" for x :: 'b
    by (simp add: eval_nat_numeral)
  show ?thesis
    by (simp add: r6 p1_run_def p1_start_def p1_init_def Let_def run_events.simps
        on_p1_timeout_def send_padi_def send_l2_def build_l2_header_def tx_send_def tx_closed_def
        reset_timeout_def io_effect_def io_defs MAX_DISCOVERY_RETRIES_def)
qed

end
