(* ===== verification/Pppoe_Negotiation.thy ===== *)
theory Pppoe_Negotiation
  imports Pppoe_Lcp
begin

text \<open>
  Phase 2 of the PPPoE client (\<open>pppoe_client/negotiation.rs\<close>): authentication, then IPCP and
  IPv6CP, with LCP echo supervision on the side.  The loop has four kinds of events: the stop
  token, a received frame (or the closed channel), the retry timer and the echo timer.
  MD5 is a parameter of the steps that answer a CHAP challenge.
\<close>

section \<open>State\<close>

record NegotiationResult =
  nr_client_ip :: u32
  nr_server_ip :: u32
  nr_ipv6cp_client_id :: "bytes option"
  nr_ipv6cp_server_id :: "bytes option"
  nr_echo_req_id :: u8

definition MAX_AUTH_RETRIES :: u8 where "MAX_AUTH_RETRIES = 3"
definition MAX_NCP_RETRIES :: u8 where "MAX_NCP_RETRIES = 5"
definition MAX_ECHO_FAILURES :: u8 where "MAX_ECHO_FAILURES = 5"

record IpcpState =
  ipcp_req_id :: u8
  ipcp_requesting_ip :: u32
  ipcp_our_ip :: "u32 option"
  ipcp_peer_ip :: "u32 option"
  ipcp_retries :: u8

definition IpcpState_new :: IpcpState where
  "IpcpState_new = \<lparr>ipcp_req_id = 0, ipcp_requesting_ip = 0, ipcp_our_ip = None, ipcp_peer_ip = None,
     ipcp_retries = 0\<rparr>"

definition IpcpState_done :: "IpcpState \<Rightarrow> bool" where
  "IpcpState_done i \<longleftrightarrow> ipcp_our_ip i \<noteq> None \<and> ipcp_peer_ip i \<noteq> None"

record Ipv6cpState =
  v6_req_id :: u8
  v6_our_id :: bytes
  v6_our_confirmed_id :: "bytes option"
  v6_peer_id :: "bytes option"
  v6_rejected :: bool
  v6_retries :: u8

definition Ipv6cpState_new :: "MacAddr \<Rightarrow> Ipv6cpState" where
  "Ipv6cpState_new mac =
     (let os = octets mac
      in \<lparr>v6_req_id = 0,
          v6_our_id = [os ! 0, os ! 1, os ! 2, 0xff, 0xfe, os ! 3, os ! 4, os ! 5],
          v6_our_confirmed_id = None, v6_peer_id = None, v6_rejected = False, v6_retries = 0\<rparr>)"

definition Ipv6cpState_done :: "Ipv6cpState \<Rightarrow> bool" where
  "Ipv6cpState_done v \<longleftrightarrow> v6_rejected v \<or> v6_our_confirmed_id v \<noteq> None \<and> v6_peer_id v \<noteq> None"

record nego =
  ng_auth :: "Authenticator option"
  ng_auth_done :: bool
  ng_auth_retries :: u8
  ng_ipcp :: IpcpState
  ng_ipv6cp :: Ipv6cpState
  ng_echo_req_id :: u8
  ng_echo_failures :: u8

datatype nego_event = NgStop | NgRecv "bytes option" | NgTimeout | NgEcho

definition build_result :: "IpcpState \<Rightarrow> Ipv6cpState \<Rightarrow> u8 \<Rightarrow> NegotiationResult" where
  "build_result ipcp ipv6cp echo_req_id =
     \<lparr>nr_client_ip = (case ipcp_our_ip ipcp of Some a \<Rightarrow> a | None \<Rightarrow> 0),
      nr_server_ip = (case ipcp_peer_ip ipcp of Some a \<Rightarrow> a | None \<Rightarrow> 0),
      nr_ipv6cp_client_id = v6_our_confirmed_id ipv6cp,
      nr_ipv6cp_server_id = v6_peer_id ipv6cp,
      nr_echo_req_id = echo_req_id\<rparr>"

section \<open>Sending\<close>

definition send_session :: "PPPoEClientConfig \<Rightarrow> LcpPhaseResult \<Rightarrow> bytes \<Rightarrow> unit io" where
  "send_session config lcp payload =
     send_pppoe_session_frame (lr_server_mac lcp) (cfg_iface_mac config) (lr_session_id lcp) payload"

definition send_ipcp_request_raw :: "PPPoEClientConfig \<Rightarrow> LcpPhaseResult \<Rightarrow> u8 \<Rightarrow> u32 \<Rightarrow> unit io" where
  "send_ipcp_request_raw config lcp req_id ip =
     send_session config lcp
       (PointToPoint_convert_to_payload (get_ipcp_request_only_client_ip req_id ip))"

definition send_ipcp_request :: "PPPoEClientConfig \<Rightarrow> LcpPhaseResult \<Rightarrow> IpcpState \<Rightarrow> IpcpState io" where
  "send_ipcp_request config lcp ipcp =
     (let ipcp' = ipcp\<lparr>ipcp_req_id := ipcp_req_id ipcp + 1\<rparr>
      in io_then (send_ipcp_request_raw config lcp (ipcp_req_id ipcp') (ipcp_requesting_ip ipcp'))
           (io_return ipcp'))"

definition send_ipv6cp_request_raw :: "PPPoEClientConfig \<Rightarrow> LcpPhaseResult \<Rightarrow> u8 \<Rightarrow> bytes \<Rightarrow> unit io" where
  "send_ipv6cp_request_raw config lcp req_id iface_id =
     send_session config lcp (PointToPoint_convert_to_payload (get_ipv6cp_request iface_id req_id))"

definition send_ipv6cp_request :: "PPPoEClientConfig \<Rightarrow> LcpPhaseResult \<Rightarrow> Ipv6cpState \<Rightarrow> Ipv6cpState io" where
  "send_ipv6cp_request config lcp ipv6cp =
     (let ipv6cp' = ipv6cp\<lparr>v6_req_id := v6_req_id ipv6cp + 1\<rparr>
      in io_then (send_ipv6cp_request_raw config lcp (v6_req_id ipv6cp') (v6_our_id ipv6cp'))
           (io_return ipv6cp'))"

definition send_echo_request :: "PPPoEClientConfig \<Rightarrow> LcpPhaseResult \<Rightarrow> u8 \<Rightarrow> u32 \<Rightarrow> unit io" where
  "send_echo_request config lcp echo_id magic =
     send_session config lcp (gen_echo_request_with_magic echo_id magic)"

definition send_echo_reply :: "PPPoEClientConfig \<Rightarrow> LcpPhaseResult \<Rightarrow> PointToPoint \<Rightarrow> unit io" where
  "send_echo_reply config lcp ppp =
     send_session config lcp (gen_reply_with_magic ppp (lr_magic_number lcp))"

section \<open>Receiving\<close>

definition parse_ppp_packet :: "bytes \<Rightarrow> LcpPhaseResult \<Rightarrow> PointToPoint option" where
  "parse_ppp_packet raw lcp =
     (if length raw < 16 then None
      else if u16_from_be_bytes (raw ! 12) (raw ! 13) \<noteq> ETH_P_PPOES then None
      else case PPPoEFrame_new (drop 14 raw) of
             None \<Rightarrow> None
           | Some frame \<Rightarrow>
               if fr_sid frame \<noteq> lr_session_id lcp then None
               else if is_terminate frame then None
               else PointToPoint_new (fr_payload frame))"

definition is_addr_option :: "PPPOption \<Rightarrow> bool" where
  "is_addr_option op \<longleftrightarrow> opt_t op = 3 \<and> length (opt_data op) \<ge> 4"

definition is_ifid_option :: "PPPOption \<Rightarrow> bool" where
  "is_ifid_option op \<longleftrightarrow> opt_t op = 1"

text \<open>The loops over the options: the last option of the kind wins, the others are collected.\<close>

definition last_addr :: "u32 option \<Rightarrow> PPPOption list \<Rightarrow> u32 option" where
  "last_addr acc ops = fold (\<lambda>op acc. if is_addr_option op then Some (opt_u32 op) else acc) ops acc"

definition last_ifid :: "bytes option \<Rightarrow> PPPOption list \<Rightarrow> bytes option" where
  "last_ifid acc ops = fold (\<lambda>op acc. if is_ifid_option op then Some (opt_data op) else acc) ops acc"

definition reject_options :: "(PPPOption \<Rightarrow> bool) \<Rightarrow> PPPOption list \<Rightarrow> bytes" where
  "reject_options known ops = fold (\<lambda>op acc. if known op then acc else acc @ PPPOption_convert_to_payload op) ops []"

definition handle_ipcp_packet ::
  "PPPoEClientConfig \<Rightarrow> LcpPhaseResult \<Rightarrow> IpcpState \<Rightarrow> PointToPoint \<Rightarrow> IpcpState io" where
  "handle_ipcp_packet config lcp ipcp ppp =
     (let ops = PPPOption_from_bytes (ppp_payload ppp)
      in if is_ack ppp then io_return (ipcp\<lparr>ipcp_our_ip := last_addr (ipcp_our_ip ipcp) ops\<rparr>)
         else if is_nak ppp then
           (let ipcp' = ipcp\<lparr>ipcp_req_id := ipcp_req_id ipcp + 1,
                  ipcp_requesting_ip := the (last_addr (Some (ipcp_requesting_ip ipcp)) ops)\<rparr>
            in io_then (send_ipcp_request_raw config lcp (ipcp_req_id ipcp') (ipcp_requesting_ip ipcp'))
                 (io_return ipcp'))
         else if is_request ppp then
           (let ipcp' = ipcp\<lparr>ipcp_peer_ip := last_addr (ipcp_peer_ip ipcp) ops\<rparr>;
                rej = reject_options is_addr_option ops
            in io_then (if rej \<noteq> [] then send_session config lcp (gen_reject ppp rej)
                        else if ipcp_peer_ip ipcp' \<noteq> None then send_session config lcp (gen_ack ppp)
                        else io_return ())
                 (io_return ipcp'))
         else if is_reject ppp then io_throw (Err IpRequiredButRejected)
         else io_return ipcp)"

definition handle_ipv6cp_packet ::
  "PPPoEClientConfig \<Rightarrow> LcpPhaseResult \<Rightarrow> Ipv6cpState \<Rightarrow> PointToPoint \<Rightarrow> Ipv6cpState io" where
  "handle_ipv6cp_packet config lcp ipv6cp ppp =
     (let ops = PPPOption_from_bytes (ppp_payload ppp)
      in if is_ack ppp then
           io_return (ipv6cp\<lparr>v6_our_confirmed_id := last_ifid (v6_our_confirmed_id ipv6cp) ops\<rparr>)
         else if is_nak ppp then
           (let ipv6cp' = ipv6cp\<lparr>v6_req_id := v6_req_id ipv6cp + 1,
                  v6_our_id := the (last_ifid (Some (v6_our_id ipv6cp)) ops)\<rparr>
            in io_then (send_ipv6cp_request_raw config lcp (v6_req_id ipv6cp') (v6_our_id ipv6cp'))
                 (io_return ipv6cp'))
         else if is_request ppp then
           (let ipv6cp' = ipv6cp\<lparr>v6_peer_id := last_ifid (v6_peer_id ipv6cp) ops\<rparr>;
                rej = reject_options is_ifid_option ops
            in io_then (if rej \<noteq> [] then send_session config lcp (gen_reject ppp rej)
                        else if v6_peer_id ipv6cp' \<noteq> None then send_session config lcp (gen_ack ppp)
                        else io_return ())
                 (io_return ipv6cp'))
         else if is_reject ppp then io_return (ipv6cp\<lparr>v6_rejected := True\<rparr>)
         else io_return ipv6cp)"

section \<open>The branches of the loop\<close>

definition ncp_done :: "nego \<Rightarrow> bool" where
  "ncp_done s \<longleftrightarrow> IpcpState_done (ng_ipcp s) \<and> Ipv6cpState_done (ng_ipv6cp s)"

definition wait :: "nego \<Rightarrow> (nego, NegotiationResult) flow io" where
  "wait s = io_then (reset_timeout DEFAULT_TIMEOUT) (io_return (Continue s))"

text \<open>\<open>if ipcp.done() && ipv6cp.done() { return Ok(build_result(..)) }\<close>, then the timer is re-armed.\<close>

definition finish_or_wait :: "nego \<Rightarrow> (nego, NegotiationResult) flow io" where
  "finish_or_wait s =
     (if ncp_done s then io_return (Done (build_result (ng_ipcp s) (ng_ipv6cp s) (ng_echo_req_id s)))
      else wait s)"

definition on_auth_packet ::
  "(bytes \<Rightarrow> bytes) \<Rightarrow> PPPoEClientConfig \<Rightarrow> LcpPhaseResult \<Rightarrow> PointToPoint \<Rightarrow> nego \<Rightarrow> nego io" where
  "on_auth_packet md5 config lcp ppp s =
     (case ng_auth s of
        None \<Rightarrow> io_return s
      | Some authenticator \<Rightarrow>
          (case handle_incoming md5 authenticator ppp of
             None \<Rightarrow> io_throw Panic
           | Some (result, authenticator') \<Rightarrow>
               io_then (case ar_response result of
                          None \<Rightarrow> io_return ()
                        | Some response \<Rightarrow> send_session config lcp response)
                 (if ar_failed result then io_throw (Err (AuthFailed (AuthDebug authenticator')))
                  else if ar_done result then
                    io_bind (send_ipcp_request config lcp (ng_ipcp s)) (\<lambda>ipcp'.
                    io_bind (send_ipv6cp_request config lcp (ng_ipv6cp s)) (\<lambda>ipv6cp'.
                      io_return (s\<lparr>ng_auth_done := True, ng_auth := None, ng_ipcp := ipcp',
                                   ng_ipv6cp := ipv6cp'\<rparr>)))
                  else io_return (s\<lparr>ng_auth := Some authenticator'\<rparr>))))"

definition on_lcp_frame ::
  "PPPoEClientConfig \<Rightarrow> LcpPhaseResult \<Rightarrow> PointToPoint \<Rightarrow> nego \<Rightarrow> (nego, NegotiationResult) flow io" where
  "on_lcp_frame config lcp ppp s =
     (if is_echo_request ppp then
        io_then (send_echo_reply config lcp ppp) (wait (s\<lparr>ng_echo_failures := 0\<rparr>))
      else if is_echo_reply ppp then
        wait (s\<lparr>ng_echo_failures := 0, ng_echo_req_id := ng_echo_req_id s + 1\<rparr>)
      else if is_termination ppp then
        io_then (send_session config lcp (get_termination_ack ppp)) (io_throw (Err PeerTerminated))
      else if is_termination_ack ppp then io_throw (Err PeerTerminated)
      else if is_proto_reject ppp \<and> length (ppp_payload ppp) \<ge> 2 then
        (let proto = u16_from_be_bytes (ppp_payload ppp ! 0) (ppp_payload ppp ! 1)
         in if proto = 0x8021 then io_throw (Err IpRequiredButRejected)
            else if proto = 0x8057 then
              finish_or_wait (s\<lparr>ng_ipv6cp := (ng_ipv6cp s)\<lparr>v6_rejected := True\<rparr>\<rparr>)
            else if proto = 0xc023 then
              io_throw (Err (AuthFailed (AuthText ''peer rejected PAP via protocol-reject'')))
            else wait s)
      else wait s)"

definition on_nego_recv ::
  "(bytes \<Rightarrow> bytes) \<Rightarrow> PPPoEClientConfig \<Rightarrow> LcpPhaseResult \<Rightarrow> bytes \<Rightarrow> nego \<Rightarrow> (nego, NegotiationResult) flow io" where
  "on_nego_recv md5 config lcp raw s =
     (case parse_ppp_packet raw lcp of
        None \<Rightarrow> io_return (Continue s)
      | Some ppp \<Rightarrow>
          if is_pap_auth ppp \<or> is_chap ppp then io_bind (on_auth_packet md5 config lcp ppp s) wait
          else if is_ipcp ppp then
            io_bind (handle_ipcp_packet config lcp (ng_ipcp s) ppp)
              (\<lambda>ipcp'. finish_or_wait (s\<lparr>ng_ipcp := ipcp'\<rparr>))
          else if is_ipv6cp ppp then
            io_bind (handle_ipv6cp_packet config lcp (ng_ipv6cp s) ppp)
              (\<lambda>ipv6cp'. finish_or_wait (s\<lparr>ng_ipv6cp := ipv6cp'\<rparr>))
          else if is_lcp_config ppp then on_lcp_frame config lcp ppp s
          else io_return (Continue s))"

definition resend_auth :: "PPPoEClientConfig \<Rightarrow> LcpPhaseResult \<Rightarrow> nego \<Rightarrow> unit io" where
  "resend_auth config lcp s =
     (if lr_auth_type lcp = 0xc023 then
        (case ng_auth s of
           None \<Rightarrow> io_return ()
         | Some authenticator \<Rightarrow>
             (case outgoing_packet authenticator of
                None \<Rightarrow> io_return ()
              | Some payload \<Rightarrow> send_session config lcp payload))
      else io_return ())"

definition retry_ipcp :: "PPPoEClientConfig \<Rightarrow> LcpPhaseResult \<Rightarrow> IpcpState \<Rightarrow> IpcpState io" where
  "retry_ipcp config lcp ipcp =
     (if \<not> IpcpState_done ipcp then
        (let ipcp' = ipcp\<lparr>ipcp_retries := ipcp_retries ipcp + 1\<rparr>
         in if ipcp_retries ipcp' > MAX_NCP_RETRIES then io_throw (Err LcpTimeout)
            else send_ipcp_request config lcp ipcp')
      else io_return ipcp)"

definition retry_ipv6cp ::
  "PPPoEClientConfig \<Rightarrow> LcpPhaseResult \<Rightarrow> nego \<Rightarrow> (nego, NegotiationResult) flow io" where
  "retry_ipv6cp config lcp s =
     (if \<not> Ipv6cpState_done (ng_ipv6cp s) then
        (let v = (ng_ipv6cp s)\<lparr>v6_retries := v6_retries (ng_ipv6cp s) + 1\<rparr>
         in if v6_retries v > MAX_NCP_RETRIES then
              finish_or_wait (s\<lparr>ng_ipv6cp := v\<lparr>v6_rejected := True\<rparr>\<rparr>)
            else io_bind (send_ipv6cp_request config lcp v) (\<lambda>v'. wait (s\<lparr>ng_ipv6cp := v'\<rparr>)))
      else wait s)"

definition on_nego_timeout ::
  "PPPoEClientConfig \<Rightarrow> LcpPhaseResult \<Rightarrow> nego \<Rightarrow> (nego, NegotiationResult) flow io" where
  "on_nego_timeout config lcp s =
     (if \<not> ng_auth_done s then
        (let s' = s\<lparr>ng_auth_retries := ng_auth_retries s + 1\<rparr>
         in if ng_auth_retries s' > MAX_AUTH_RETRIES
            then io_throw (Err (AuthFailed (AuthText ''auth timeout'')))
            else io_then (resend_auth config lcp s') (wait s'))
      else io_bind (retry_ipcp config lcp (ng_ipcp s))
             (\<lambda>ipcp'. retry_ipv6cp config lcp (s\<lparr>ng_ipcp := ipcp'\<rparr>)))"

definition echo_interval :: "PPPoEClientConfig \<Rightarrow> nat" where
  "echo_interval config =
     (case cfg_lcp_echo_interval config of Some n \<Rightarrow> n | None \<Rightarrow> LCP_ECHO_INTERVAL)"

definition on_nego_echo ::
  "PPPoEClientConfig \<Rightarrow> LcpPhaseResult \<Rightarrow> nego \<Rightarrow> (nego, NegotiationResult) flow io" where
  "on_nego_echo config lcp s =
     io_then (send_echo_request config lcp (ng_echo_req_id s) (lr_magic_number lcp))
       (let s' = s\<lparr>ng_echo_failures := ng_echo_failures s + 1\<rparr>
        in if ng_echo_failures s' > MAX_ECHO_FAILURES
           then io_throw (Err (EchoFailed (ng_echo_failures s')))
           else io_then (reset_echo (echo_interval config)) (io_return (Continue s')))"

fun nego_step ::
  "(bytes \<Rightarrow> bytes) \<Rightarrow> PPPoEClientConfig \<Rightarrow> LcpPhaseResult \<Rightarrow> nego_event \<Rightarrow> nego \<Rightarrow> (nego, NegotiationResult) flow io" where
  "nego_step md5 config lcp NgStop s = io_throw (Err ServiceStopped)"
| "nego_step md5 config lcp (NgRecv None) s = io_throw (Err ChannelClosed)"
| "nego_step md5 config lcp (NgRecv (Some raw)) s = on_nego_recv md5 config lcp raw s"
| "nego_step md5 config lcp NgTimeout s = on_nego_timeout config lcp s"
| "nego_step md5 config lcp NgEcho s = on_nego_echo config lcp s"

definition nego_auth :: "PPPoEClientConfig \<Rightarrow> LcpPhaseResult \<Rightarrow> Authenticator io" where
  "nego_auth config lcp =
     (if lr_auth_type lcp = 0xc023
      then io_return (Pap (PapAuthenticator_new (cfg_peer_id config) (cfg_password config)))
      else if lr_auth_type lcp = 0xc223
      then io_return (Chap (ChapAuthenticator_new (cfg_peer_id config) (cfg_password config)))
      else io_throw (Err (UnsupportedAuthType (lr_auth_type lcp))))"

definition nego_init :: "PPPoEClientConfig \<Rightarrow> Authenticator \<Rightarrow> nego" where
  "nego_init config a =
     \<lparr>ng_auth = Some a, ng_auth_done = False, ng_auth_retries = 0, ng_ipcp = IpcpState_new,
      ng_ipv6cp = Ipv6cpState_new (cfg_iface_mac config), ng_echo_req_id = 0, ng_echo_failures = 0\<rparr>"

text \<open>Up to the loop: the first PAP request, the first echo request, and the two timers.\<close>

definition nego_start :: "PPPoEClientConfig \<Rightarrow> LcpPhaseResult \<Rightarrow> nego io" where
  "nego_start config lcp =
     io_bind (nego_auth config lcp) (\<lambda>a.
       (let s = nego_init config a
        in io_then (resend_auth config lcp s)
          (io_then (send_echo_request config lcp (ng_echo_req_id s) (lr_magic_number lcp))
            (io_then (reset_timeout DEFAULT_TIMEOUT)
              (io_then (reset_echo (echo_interval config))
                (io_return (s\<lparr>ng_echo_failures := ng_echo_failures s + 1,
                              ng_echo_req_id := ng_echo_req_id s + 1\<rparr>)))))))"

definition nego_run ::
  "(bytes \<Rightarrow> bytes) \<Rightarrow> PPPoEClientConfig \<Rightarrow> LcpPhaseResult \<Rightarrow> nego_event list \<Rightarrow> (nego, NegotiationResult) flow io" where
  "nego_run md5 config lcp es = io_bind (nego_start config lcp) (run_events (nego_step md5 config lcp) es)"

section \<open>Invariant and budget\<close>

definition nego_inv :: "LcpPhaseResult \<Rightarrow> nego \<Rightarrow> bool" where
  "nego_inv lcp s \<longleftrightarrow> length (lr_server_mac lcp) = 6 \<and> ng_auth_retries s \<le> 3 \<and>
     ipcp_retries (ng_ipcp s) \<le> 5 \<and>
     (Ipv6cpState_done (ng_ipv6cp s) \<or> v6_retries (ng_ipv6cp s) \<le> 5) \<and>
     ng_echo_failures s \<le> 5 \<and> \<not> ncp_done s \<and>
     (\<forall>a. ng_auth s = Some (Chap a) \<longrightarrow> lr_auth_type lcp = 0xc223)"

definition nego_budget :: "nego \<Rightarrow> nat" where
  "nego_budget s =
     (if ng_auth_done s then 0 else 3 - unat (ng_auth_retries s)) +
     (if IpcpState_done (ng_ipcp s) then 0 else 5 - unat (ipcp_retries (ng_ipcp s))) +
     (if Ipv6cpState_done (ng_ipv6cp s) then 0 else 5 - unat (v6_retries (ng_ipv6cp s)))"

definition is_nego_timeout :: "nego_event \<Rightarrow> bool" where
  "is_nego_timeout e \<longleftrightarrow> e = NgTimeout"

lemma last_addr_Nil [simp]: "last_addr acc [] = acc"
  by (simp add: last_addr_def)

lemma last_addr_Cons [simp]:
  "last_addr acc (op # ops) = last_addr (if is_addr_option op then Some (opt_u32 op) else acc) ops"
  by (simp add: last_addr_def)

lemma last_ifid_Nil [simp]: "last_ifid acc [] = acc"
  by (simp add: last_ifid_def)

lemma last_ifid_Cons [simp]:
  "last_ifid acc (op # ops) = last_ifid (if is_ifid_option op then Some (opt_data op) else acc) ops"
  by (simp add: last_ifid_def)

lemma last_addr_SomeD:
  "last_addr acc ops = Some a \<Longrightarrow> acc = Some a \<or> (\<exists>op\<in>set ops. is_addr_option op \<and> opt_u32 op = a)"
proof (induction ops arbitrary: acc)
  case Nil
  then show ?case by simp
next
  case (Cons op ops)
  from Cons.IH [OF Cons.prems [unfolded last_addr_Cons]] show ?case by (auto split: if_split_asm)
qed

lemma last_ifid_SomeD:
  "last_ifid acc ops = Some a \<Longrightarrow> acc = Some a \<or> (\<exists>op\<in>set ops. is_ifid_option op \<and> opt_data op = a)"
proof (induction ops arbitrary: acc)
  case Nil
  then show ?case by simp
next
  case (Cons op ops)
  from Cons.IH [OF Cons.prems [unfolded last_ifid_Cons]] show ?case by (auto split: if_split_asm)
qed

lemma last_addr_Some [simp]: "last_addr (Some a) ops \<noteq> None" "\<exists>b. last_addr (Some a) ops = Some b"
  by (induction ops arbitrary: a) auto

lemma last_ifid_Some [simp]: "last_ifid (Some a) ops \<noteq> None" "\<exists>b. last_ifid (Some a) ops = Some b"
  by (induction ops arbitrary: a) auto

lemma send_session_Inl_nego:
  "length (lr_server_mac lcp) = 6 \<Longrightarrow> send_session config lcp p c = (Inl a, c') \<longleftrightarrow>
     tx_closed c \<and> a = Err ChannelClosed \<and> c' = c"
  by (simp add: send_session_def send_session_Inl)

lemmas nego_send_defs = send_ipcp_request_raw_def send_ipv6cp_request_raw_def send_ipcp_request_def
  send_ipv6cp_request_def send_echo_request_def send_echo_reply_def

lemma send_ipcp_request_Inr:
  "send_ipcp_request config lcp i c = (Inr i', c') \<Longrightarrow> i' = i\<lparr>ipcp_req_id := ipcp_req_id i + 1\<rparr>"
  by (auto simp: send_ipcp_request_def Let_def io_elims)

lemma send_ipv6cp_request_Inr:
  "send_ipv6cp_request config lcp v c = (Inr v', c') \<Longrightarrow> v' = v\<lparr>v6_req_id := v6_req_id v + 1\<rparr>"
  by (auto simp: send_ipv6cp_request_def Let_def io_elims)

lemma handle_ipcp_packet_Inr:
  assumes "handle_ipcp_packet config lcp i ppp c = (Inr i', c')"
  shows "ipcp_retries i' = ipcp_retries i \<and> (IpcpState_done i \<longrightarrow> IpcpState_done i')"
  using assms
  by (auto simp: handle_ipcp_packet_def Let_def io_elims IpcpState_done_def split: if_split_asm)

lemma handle_ipv6cp_packet_Inr:
  assumes "handle_ipv6cp_packet config lcp v ppp c = (Inr v', c')"
  shows "v6_retries v' = v6_retries v \<and> (Ipv6cpState_done v \<longrightarrow> Ipv6cpState_done v')"
  using assms
  by (auto simp: handle_ipv6cp_packet_def Let_def io_elims Ipv6cpState_done_def split: if_split_asm)

lemma req_id_irrelevant [simp]:
  "IpcpState_done (i\<lparr>ipcp_req_id := x\<rparr>) = IpcpState_done i"
  "IpcpState_done (i\<lparr>ipcp_retries := y\<rparr>) = IpcpState_done i"
  "Ipv6cpState_done (v\<lparr>v6_req_id := x\<rparr>) = Ipv6cpState_done v"
  "Ipv6cpState_done (v\<lparr>v6_retries := y\<rparr>) = Ipv6cpState_done v"
  "Ipv6cpState_done (v\<lparr>v6_rejected := True\<rparr>)"
  by (simp_all add: IpcpState_done_def Ipv6cpState_done_def)

lemma wait_Continue [simp]: "wait s c = (Inr (Continue s'), c') \<longleftrightarrow>
    s' = s \<and> reset_timeout DEFAULT_TIMEOUT c = (Inr (), c')"
  by (auto simp: wait_def io_elims)

lemma wait_Done [simp]: "wait s c \<noteq> (Inr (Done r), c')"
  by (auto simp: wait_def io_elims)

lemma wait_Inl [simp]: "wait s c \<noteq> (Inl a, c')"
  by (auto simp: wait_def io_elims)

lemma finish_or_wait_Continue: "finish_or_wait s c = (Inr (Continue s'), c') \<Longrightarrow> s' = s \<and> \<not> ncp_done s"
  by (auto simp: finish_or_wait_def split: if_split_asm)

lemma finish_or_wait_Done: "finish_or_wait s c = (Inr (Done r), c') \<Longrightarrow>
    ncp_done s \<and> r = build_result (ng_ipcp s) (ng_ipv6cp s) (ng_echo_req_id s)"
  by (auto simp: finish_or_wait_def split: if_split_asm)

lemma finish_or_wait_Inl [simp]: "finish_or_wait s c \<noteq> (Inl a, c')"
  by (auto simp: finish_or_wait_def)

lemma on_auth_packet_Inr:
  assumes "on_auth_packet md5 config lcp ppp s c = (Inr s', c')" "nego_inv lcp s"
  shows "nego_inv lcp s' \<and> nego_budget s' \<le> nego_budget s"
proof (cases "ng_auth s")
  case None
  with assms show ?thesis by (simp add: on_auth_packet_def)
next
  case (Some a)
  with assms obtain result a' where h: "handle_incoming md5 a ppp = Some (result, a')"
    by (cases "handle_incoming md5 a ppp") (auto simp: on_auth_packet_def)
  have chap: "lr_auth_type lcp = 0xc223" if "a' = Chap b" for b
    using h that Some assms(2) by (cases a) (auto simp: nego_inv_def map_prod_def split: prod.splits)
  from assms(1) Some h consider
      (authenticated) "s' = s\<lparr>ng_auth_done := True, ng_auth := None,
          ng_ipcp := (ng_ipcp s)\<lparr>ipcp_req_id := ipcp_req_id (ng_ipcp s) + 1\<rparr>,
          ng_ipv6cp := (ng_ipv6cp s)\<lparr>v6_req_id := v6_req_id (ng_ipv6cp s) + 1\<rparr>\<rparr>"
    | (pending) "s' = s\<lparr>ng_auth := Some a'\<rparr>"
    by (auto simp: on_auth_packet_def io_elims split: if_split_asm
        dest!: send_ipcp_request_Inr send_ipv6cp_request_Inr)
  then show ?thesis
    using assms(2) chap by cases (auto simp: nego_inv_def nego_budget_def ncp_done_def)
qed

text \<open>A received frame moves IPCP and IPv6CP forwards only, and never refills the budget.\<close>

lemma nego_ipcp_update:
  assumes "nego_inv lcp s" "ipcp_retries i = ipcp_retries (ng_ipcp s)"
    "IpcpState_done (ng_ipcp s) \<longrightarrow> IpcpState_done i" "\<not> ncp_done (s\<lparr>ng_ipcp := i\<rparr>)"
  shows "nego_inv lcp (s\<lparr>ng_ipcp := i\<rparr>) \<and> nego_budget (s\<lparr>ng_ipcp := i\<rparr>) \<le> nego_budget s"
  using assms by (auto simp: nego_inv_def nego_budget_def)

lemma nego_ipv6cp_update:
  assumes "nego_inv lcp s" "v6_retries v = v6_retries (ng_ipv6cp s)"
    "Ipv6cpState_done (ng_ipv6cp s) \<longrightarrow> Ipv6cpState_done v" "\<not> ncp_done (s\<lparr>ng_ipv6cp := v\<rparr>)"
  shows "nego_inv lcp (s\<lparr>ng_ipv6cp := v\<rparr>) \<and> nego_budget (s\<lparr>ng_ipv6cp := v\<rparr>) \<le> nego_budget s"
  using assms by (auto simp: nego_inv_def nego_budget_def)

lemma nego_echo_update:
  assumes "nego_inv lcp s" "n \<le> 5"
  shows "nego_inv lcp (s\<lparr>ng_echo_failures := n, ng_echo_req_id := k\<rparr>) \<and>
    nego_budget (s\<lparr>ng_echo_failures := n, ng_echo_req_id := k\<rparr>) = nego_budget s"
  using assms by (simp add: nego_inv_def nego_budget_def ncp_done_def)

lemma on_lcp_frame_cases:
  assumes "on_lcp_frame config lcp ppp s c = (Inr (Continue s'), c')"
  shows "s' = s \<or> s' = s\<lparr>ng_echo_failures := 0\<rparr> \<or>
     s' = s\<lparr>ng_echo_failures := 0, ng_echo_req_id := ng_echo_req_id s + 1\<rparr> \<or>
     s' = s\<lparr>ng_ipv6cp := (ng_ipv6cp s)\<lparr>v6_rejected := True\<rparr>\<rparr> \<and> \<not> ncp_done s'"
  using assms unfolding on_lcp_frame_def Let_def
  by (simp add: io_elims finish_or_wait_def split: if_split_asm) blast

lemma on_lcp_frame_Continue:
  assumes "nego_inv lcp s" "on_lcp_frame config lcp ppp s c = (Inr (Continue s'), c')"
  shows "nego_inv lcp s' \<and> nego_budget s' \<le> nego_budget s"
proof -
  let ?v = "(ng_ipv6cp s)\<lparr>v6_rejected := True\<rparr>"
  from on_lcp_frame_cases [OF assms(2)] consider (same) "s' = s" | (echo) "s' = s\<lparr>ng_echo_failures := 0\<rparr>"
    | (reply) "s' = s\<lparr>ng_echo_failures := 0, ng_echo_req_id := ng_echo_req_id s + 1\<rparr>"
    | (rejected) "s' = s\<lparr>ng_ipv6cp := ?v\<rparr>" "\<not> ncp_done s'"
    by blast
  then show ?thesis
  proof cases
    case same
    with assms(1) show ?thesis by simp
  next
    case echo
    with nego_echo_update [OF assms(1), of 0 "ng_echo_req_id s"] show ?thesis by simp
  next
    case reply
    with nego_echo_update [OF assms(1), of 0] show ?thesis by simp
  next
    case rejected
    with nego_ipv6cp_update [OF assms(1), of ?v] show ?thesis by simp
  qed
qed

lemma on_nego_recv_Continue:
  assumes inv: "nego_inv lcp s" and st: "on_nego_recv md5 config lcp raw s c = (Inr (Continue s'), c')"
  shows "nego_inv lcp s' \<and> nego_budget s' \<le> nego_budget s"
proof (cases "parse_ppp_packet raw lcp")
  case None
  with st inv show ?thesis by (simp add: on_nego_recv_def)
next
  case (Some ppp)
  with st consider (same) "s' = s"
    | (auth) c1 where "on_auth_packet md5 config lcp ppp s c = (Inr s', c1)"
    | (ipcp) i c1 where "handle_ipcp_packet config lcp (ng_ipcp s) ppp c = (Inr i, c1)"
        "s' = s\<lparr>ng_ipcp := i\<rparr>" "\<not> ncp_done s'"
    | (ipv6cp) v c1 where "handle_ipv6cp_packet config lcp (ng_ipv6cp s) ppp c = (Inr v, c1)"
        "s' = s\<lparr>ng_ipv6cp := v\<rparr>" "\<not> ncp_done s'"
    | (lcp) "on_lcp_frame config lcp ppp s c = (Inr (Continue s'), c')"
    by (auto simp: on_nego_recv_def io_elims split: if_split_asm dest!: finish_or_wait_Continue)
  then show ?thesis
  proof cases
    case same
    then show ?thesis using inv by simp
  next
    case auth
    then show ?thesis using inv by (rule on_auth_packet_Inr)
  next
    case lcp
    then show ?thesis by (rule on_lcp_frame_Continue [OF inv])
  next
    case ipcp
    from handle_ipcp_packet_Inr [OF ipcp(1)] nego_ipcp_update [OF inv, of i] ipcp(2,3)
    show ?thesis by simp
  next
    case ipv6cp
    from handle_ipv6cp_packet_Inr [OF ipv6cp(1)] nego_ipv6cp_update [OF inv, of v] ipv6cp(2,3)
    show ?thesis by simp
  qed
qed

lemma retry_inc_3: "(w :: u8) \<le> 3 \<Longrightarrow> \<not> 3 < w + 1 \<Longrightarrow> w + 1 \<le> 3 \<and> unat (w + 1) = Suc (unat w) \<and> Suc (unat w) \<le> 3"
  using unat_inc_u8 [of w] by (auto simp: word_le_nat_alt not_less)

lemma retry_ipcp_Inr:
  assumes "retry_ipcp config lcp i c = (Inr i', c')" "ipcp_retries i \<le> 5"
  shows "ipcp_retries i' \<le> 5 \<and> IpcpState_done i' = IpcpState_done i \<and>
    (\<not> IpcpState_done i \<longrightarrow> 5 - unat (ipcp_retries i') < 5 - unat (ipcp_retries i))"
  using assms retry_inc [of "ipcp_retries i"]
  by (auto simp: retry_ipcp_def MAX_NCP_RETRIES_def Let_def split: if_split_asm dest!: send_ipcp_request_Inr)

lemma retry_ipv6cp_Continue:
  assumes "retry_ipv6cp config lcp s c = (Inr (Continue s'), c')"
    "\<not> Ipv6cpState_done (ng_ipv6cp s) \<Longrightarrow> v6_retries (ng_ipv6cp s) \<le> 5"
  shows "\<exists>v. s' = s\<lparr>ng_ipv6cp := v\<rparr> \<and>
    (if Ipv6cpState_done (ng_ipv6cp s) then v = ng_ipv6cp s
     else if Ipv6cpState_done v then \<not> IpcpState_done (ng_ipcp s)
     else v6_retries v \<le> 5 \<and> 5 - unat (v6_retries v) < 5 - unat (v6_retries (ng_ipv6cp s)))"
proof (cases "Ipv6cpState_done (ng_ipv6cp s)")
  case True
  with assms(1) have "s' = s" by (simp add: retry_ipv6cp_def)
  with True show ?thesis by (intro exI [of _ "ng_ipv6cp s"]) simp
next
  case False
  let ?r = "v6_retries (ng_ipv6cp s)"
  let ?v = "(ng_ipv6cp s)\<lparr>v6_retries := ?r + 1\<rparr>"
  from False assms(1) consider (give_up) "s' = s\<lparr>ng_ipv6cp := ?v\<lparr>v6_rejected := True\<rparr>\<rparr>" "\<not> ncp_done s'"
    | (again) "s' = s\<lparr>ng_ipv6cp := ?v\<lparr>v6_req_id := v6_req_id ?v + 1\<rparr>\<rparr>" "\<not> 5 < ?r + 1"
    by (auto simp: retry_ipv6cp_def MAX_NCP_RETRIES_def Let_def io_elims split: if_split_asm
        dest!: finish_or_wait_Continue send_ipv6cp_request_Inr)
  then show ?thesis
  proof cases
    case give_up
    with False show ?thesis by (intro exI [of _ "?v\<lparr>v6_rejected := True\<rparr>"]) (simp add: ncp_done_def)
  next
    case again
    with False retry_inc [OF assms(2)] show ?thesis
      by (intro exI [of _ "?v\<lparr>v6_req_id := v6_req_id ?v + 1\<rparr>"]) auto
  qed
qed

lemma on_nego_timeout_Continue:
  assumes inv: "nego_inv lcp s" and st: "on_nego_timeout config lcp s c = (Inr (Continue s'), c')"
  shows "nego_inv lcp s' \<and> nego_budget s' < nego_budget s"
proof (cases "ng_auth_done s")
  case False
  with st have "s' = s\<lparr>ng_auth_retries := ng_auth_retries s + 1\<rparr>" "\<not> 3 < ng_auth_retries s + 1"
    by (auto simp: on_nego_timeout_def MAX_AUTH_RETRIES_def Let_def io_elims split: if_split_asm)
  with inv False retry_inc_3 [of "ng_auth_retries s"] show ?thesis
    by (auto simp: nego_inv_def nego_budget_def ncp_done_def)
next
  case True
  with st obtain i c1 where i: "retry_ipcp config lcp (ng_ipcp s) c = (Inr i, c1)"
    and r: "retry_ipv6cp config lcp (s\<lparr>ng_ipcp := i\<rparr>) c1 = (Inr (Continue s'), c')"
    by (auto simp: on_nego_timeout_def io_elims)
  have i': "ipcp_retries i \<le> 5" "IpcpState_done i = IpcpState_done (ng_ipcp s)"
    "\<not> IpcpState_done i \<Longrightarrow> 5 - unat (ipcp_retries i) < 5 - unat (ipcp_retries (ng_ipcp s))"
    using retry_ipcp_Inr [OF i] inv by (auto simp: nego_inv_def)
  have r6: "\<not> Ipv6cpState_done (ng_ipv6cp s) \<Longrightarrow> v6_retries (ng_ipv6cp s) \<le> 5"
    and rest: "length (lr_server_mac lcp) = 6" "ng_auth_retries s \<le> 3" "ng_echo_failures s \<le> 5"
      "\<not> ncp_done s" "\<And>a. ng_auth s = Some (Chap a) \<Longrightarrow> lr_auth_type lcp = 0xc223"
    using inv by (simp_all add: nego_inv_def)
  have "\<exists>v. s' = s\<lparr>ng_ipcp := i, ng_ipv6cp := v\<rparr> \<and>
    (if Ipv6cpState_done (ng_ipv6cp s) then v = ng_ipv6cp s
     else if Ipv6cpState_done v then \<not> IpcpState_done i
     else v6_retries v \<le> 5 \<and> 5 - unat (v6_retries v) < 5 - unat (v6_retries (ng_ipv6cp s)))"
    using retry_ipv6cp_Continue [OF r] r6 by (simp cong: if_cong split del: if_split)
  then obtain v where s': "s' = s\<lparr>ng_ipcp := i, ng_ipv6cp := v\<rparr>"
    and v: "if Ipv6cpState_done (ng_ipv6cp s) then v = ng_ipv6cp s
     else if Ipv6cpState_done v then \<not> IpcpState_done i
     else v6_retries v \<le> 5 \<and> 5 - unat (v6_retries v) < 5 - unat (v6_retries (ng_ipv6cp s))"
    by blast
  have inv': "nego_inv lcp s'"
    using i'(1,2) v rest r6 unfolding s' nego_inv_def
    by (cases "Ipv6cpState_done (ng_ipv6cp s)"; cases "Ipv6cpState_done v") (simp_all add: ncp_done_def)
  have "nego_budget s' < nego_budget s"
    using True i'(2,3) v rest(4) unfolding s' nego_budget_def
    by (cases "Ipv6cpState_done (ng_ipv6cp s)"; cases "Ipv6cpState_done v"; cases "IpcpState_done i")
      (auto simp: ncp_done_def)
  with inv' show ?thesis ..
qed

lemma on_nego_echo_Continue:
  assumes inv: "nego_inv lcp s" and st: "on_nego_echo config lcp s c = (Inr (Continue s'), c')"
  shows "s' = s\<lparr>ng_echo_failures := ng_echo_failures s + 1\<rparr> \<and> nego_inv lcp s' \<and> nego_budget s' = nego_budget s"
proof -
  from st have s': "s' = s\<lparr>ng_echo_failures := ng_echo_failures s + 1\<rparr>"
    and "\<not> 5 < ng_echo_failures s + 1"
    by (auto simp: on_nego_echo_def MAX_ECHO_FAILURES_def Let_def io_elims split: if_split_asm)
  with inv retry_inc [of "ng_echo_failures s"] have "ng_echo_failures s + 1 \<le> 5"
    by (simp add: nego_inv_def)
  from nego_echo_update [OF inv this, of "ng_echo_req_id s"] s' show ?thesis by simp
qed

lemma nego_step_Continue:
  assumes inv: "nego_inv lcp s" and st: "nego_step md5 config lcp e s c = (Inr (Continue s'), c')"
  shows "nego_inv lcp s' \<and> nego_budget s' \<le> nego_budget s \<and> (e = NgTimeout \<longrightarrow> nego_budget s' < nego_budget s)"
proof (cases e)
  case NgStop
  with st show ?thesis by simp
next
  case (NgRecv r)
  with st on_nego_recv_Continue [OF inv] show ?thesis by (cases r) auto
next
  case NgTimeout
  with st on_nego_timeout_Continue [OF inv] show ?thesis by fastforce
next
  case NgEcho
  with st on_nego_echo_Continue [OF inv] show ?thesis by fastforce
qed

section \<open>Panics\<close>

definition malformed_challenge :: "PointToPoint \<Rightarrow> bool" where
  "malformed_challenge ppp \<longleftrightarrow> is_challenge ppp \<and>
     (ppp_payload ppp = [] \<or> length (ppp_payload ppp) < 1 + unat (ppp_payload ppp ! 0))"

definition malformed_auth_frame :: "LcpPhaseResult \<Rightarrow> nego_event \<Rightarrow> bool" where
  "malformed_auth_frame lcp e \<longleftrightarrow>
     (case e of
        NgRecv (Some raw) \<Rightarrow>
          (case parse_ppp_packet raw lcp of
             Some ppp \<Rightarrow> (is_pap_auth ppp \<or> is_chap ppp) \<and> malformed_challenge ppp
           | None \<Rightarrow> False)
      | _ \<Rightarrow> False)"

lemma handle_incoming_None:
  "handle_incoming md5 a ppp = None \<longleftrightarrow> (\<exists>b. a = Chap b) \<and> malformed_challenge ppp"
  by (cases a) (auto simp: chap_handle_incoming_def malformed_challenge_def Let_def)

lemma nego_sends_no_panic:
  assumes "length (lr_server_mac lcp) = 6"
  shows "send_session config lcp p c \<noteq> (Inl Panic, c')"
    "send_ipcp_request config lcp i c \<noteq> (Inl Panic, c')"
    "send_ipv6cp_request config lcp v c \<noteq> (Inl Panic, c')"
    "handle_ipcp_packet config lcp i ppp c \<noteq> (Inl Panic, c')"
    "handle_ipv6cp_packet config lcp v ppp c \<noteq> (Inl Panic, c')"
    "resend_auth config lcp s c \<noteq> (Inl Panic, c')"
    "retry_ipcp config lcp i c \<noteq> (Inl Panic, c')"
  using assms
  by (auto simp: nego_send_defs handle_ipcp_packet_def handle_ipv6cp_packet_def resend_auth_def retry_ipcp_def
      send_session_Inl_nego io_elims Let_def split: option.splits)

lemma on_auth_packet_Panic:
  assumes "length (lr_server_mac lcp) = 6"
  shows "on_auth_packet md5 config lcp ppp s c = (Inl Panic, c') \<longleftrightarrow>
    (\<exists>a. ng_auth s = Some (Chap a)) \<and> malformed_challenge ppp \<and> c' = c"
proof (cases "ng_auth s")
  case None
  then show ?thesis by (simp add: on_auth_packet_def)
next
  case (Some a)
  show ?thesis
  proof (cases "handle_incoming md5 a ppp")
    case None
    with Some handle_incoming_None [of md5 a ppp] show ?thesis by (auto simp: on_auth_packet_def)
  next
    case (Some ra)
    obtain result a' where ra: "handle_incoming md5 a ppp = Some (result, a')"
      using Some by (cases ra) simp
    have "\<not> ((\<exists>b. a = Chap b) \<and> malformed_challenge ppp)"
      using handle_incoming_None [of md5 a ppp] ra by simp
    moreover have "on_auth_packet md5 config lcp ppp s c \<noteq> (Inl Panic, c')"
      using nego_sends_no_panic(1,2,3) [OF assms]
      by (simp add: on_auth_packet_def \<open>ng_auth s = Some a\<close> ra io_elims split: option.split)
    ultimately show ?thesis using \<open>ng_auth s = Some a\<close> by (simp, blast)
  qed
qed

lemma nego_step_Panic:
  assumes "length (lr_server_mac lcp) = 6"
  shows "nego_step md5 config lcp e s c = (Inl Panic, c') \<longleftrightarrow>
    malformed_auth_frame lcp e \<and> (\<exists>a. ng_auth s = Some (Chap a)) \<and> c' = c"
proof (cases e)
  case NgStop
  then show ?thesis by (simp add: malformed_auth_frame_def)
next
  case (NgRecv r)
  show ?thesis
  proof (cases r)
    case None
    with NgRecv show ?thesis by (simp add: malformed_auth_frame_def)
  next
    case (Some raw)
    have lcp_frame: "on_lcp_frame config lcp ppp s c \<noteq> (Inl Panic, c')" for ppp
      using nego_sends_no_panic [OF assms]
      by (simp add: on_lcp_frame_def send_echo_reply_def io_elims Let_def)
    show ?thesis
      using NgRecv Some lcp_frame on_auth_packet_Panic [OF assms] nego_sends_no_panic [OF assms]
      by (auto simp: malformed_auth_frame_def on_nego_recv_def io_elims split: option.splits)
  qed
next
  case NgTimeout
  then show ?thesis
    using nego_sends_no_panic [OF assms]
    by (auto simp: malformed_auth_frame_def on_nego_timeout_def retry_ipv6cp_def io_elims Let_def)
next
  case NgEcho
  then show ?thesis
    using nego_sends_no_panic [OF assms]
    by (auto simp: malformed_auth_frame_def on_nego_echo_def send_echo_request_def io_elims Let_def split: if_split_asm)
qed

interpretation nego_phase: guarded_phase "nego_step md5 config lcp" "nego_inv lcp" is_nego_timeout nego_budget
    "\<lambda>e. lr_auth_type lcp = 0xc223 \<longrightarrow> \<not> malformed_auth_frame lcp e"
  for md5 config lcp
proof (unfold_locales, goal_cases)
  case 1
  then show ?case using nego_step_Continue by blast
next
  case 2
  then show ?case using nego_step_Continue by blast
next
  case 3
  then show ?case using nego_step_Continue by (metis is_nego_timeout_def)
next
  case (4 s e c c')
  then show ?case using nego_step_Panic by (auto simp: nego_inv_def)
qed

lemma nego_start_Inr:
  assumes "nego_start config lcp c = (Inr s, c')"
  shows "ng_ipcp s = IpcpState_new \<and> ng_ipv6cp s = Ipv6cpState_new (cfg_iface_mac config) \<and>
    \<not> ng_auth_done s \<and> ng_auth_retries s = 0 \<and> ng_echo_failures s = 1 \<and>
    (\<forall>a. ng_auth s = Some (Chap a) \<longrightarrow> lr_auth_type lcp = 0xc223)"
  using assms
  by (auto simp: nego_start_def nego_auth_def nego_init_def io_elims Let_def split: if_split_asm)

lemma nego_start_inv:
  assumes "nego_start config lcp c = (Inr s, c')" "length (lr_server_mac lcp) = 6"
  shows "nego_inv lcp s \<and> nego_budget s = 13"
  using nego_start_Inr [OF assms(1)] assms(2)
  by (simp add: nego_inv_def nego_budget_def ncp_done_def IpcpState_done_def Ipv6cpState_done_def
      IpcpState_new_def Ipv6cpState_new_def Let_def)

lemma nego_start_no_panic:
  assumes "length (lr_server_mac lcp) = 6"
  shows "nego_start config lcp c \<noteq> (Inl Panic, c')"
  using nego_sends_no_panic [OF assms]
  by (simp add: nego_start_def nego_auth_def send_echo_request_def io_elims Let_def)

lemma nego_run_no_panic:
  assumes "length (lr_server_mac lcp) = 6"
    "list_all (\<lambda>e. lr_auth_type lcp = 0xc223 \<longrightarrow> \<not> malformed_auth_frame lcp e) es"
  shows "nego_run md5 config lcp es c \<noteq> (Inl Panic, c')"
proof
  assume "nego_run md5 config lcp es c = (Inl Panic, c')"
  then obtain s c1 where "nego_start config lcp c = (Inr s, c1)"
    "run_events (nego_step md5 config lcp) es s c1 = (Inl Panic, c')"
    using nego_start_no_panic [OF assms(1)] by (auto simp: nego_run_def io_elims)
  then show False
    using nego_phase.run_no_panic [OF _ assms(2)] nego_start_inv [OF _ assms(1)] by blast
qed

lemma nego_run_not_stuck:
  assumes "length (lr_server_mac lcp) = 6" "13 < length (filter is_nego_timeout es)"
  shows "nego_run md5 config lcp es c \<noteq> (Inr (Continue s), c')"
proof
  assume "nego_run md5 config lcp es c = (Inr (Continue s), c')"
  then obtain s1 c1 where s1: "nego_start config lcp c = (Inr s1, c1)"
    and r: "run_events (nego_step md5 config lcp) es s1 c1 = (Inr (Continue s), c')"
    by (auto simp: nego_run_def io_elims)
  from nego_start_inv [OF s1 assms(1)] nego_phase.run_terminates assms(2) r show False by fastforce
qed

section \<open>Provenance of the result\<close>

definition heard_addr :: "nego_event set \<Rightarrow> LcpPhaseResult \<Rightarrow> (PointToPoint \<Rightarrow> bool) \<Rightarrow> u32 \<Rightarrow> bool" where
  "heard_addr H lcp kind a \<longleftrightarrow>
     (\<exists>raw ppp op. NgRecv (Some raw) \<in> H \<and> parse_ppp_packet raw lcp = Some ppp \<and> is_ipcp ppp \<and> kind ppp \<and>
        op \<in> set (PPPOption_from_bytes (ppp_payload ppp)) \<and> is_addr_option op \<and> opt_u32 op = a)"

definition heard_ifid :: "nego_event set \<Rightarrow> LcpPhaseResult \<Rightarrow> (PointToPoint \<Rightarrow> bool) \<Rightarrow> bytes \<Rightarrow> bool" where
  "heard_ifid H lcp kind i \<longleftrightarrow>
     (\<exists>raw ppp op. NgRecv (Some raw) \<in> H \<and> parse_ppp_packet raw lcp = Some ppp \<and> is_ipv6cp ppp \<and> kind ppp \<and>
        op \<in> set (PPPOption_from_bytes (ppp_payload ppp)) \<and> is_ifid_option op \<and> opt_data op = i)"

definition ipcp_heard :: "LcpPhaseResult \<Rightarrow> nego_event set \<Rightarrow> IpcpState \<Rightarrow> bool" where
  "ipcp_heard lcp H i \<longleftrightarrow>
     (\<forall>a. ipcp_our_ip i = Some a \<longrightarrow> heard_addr H lcp is_ack a) \<and>
     (\<forall>a. ipcp_peer_ip i = Some a \<longrightarrow> heard_addr H lcp is_request a)"

definition ipv6cp_heard :: "LcpPhaseResult \<Rightarrow> nego_event set \<Rightarrow> Ipv6cpState \<Rightarrow> bool" where
  "ipv6cp_heard lcp H v \<longleftrightarrow>
     (\<forall>i. v6_our_confirmed_id v = Some i \<longrightarrow> heard_ifid H lcp is_ack i) \<and>
     (\<forall>i. v6_peer_id v = Some i \<longrightarrow> heard_ifid H lcp is_request i)"

definition nego_hinv :: "LcpPhaseResult \<Rightarrow> nego_event set \<Rightarrow> nego \<Rightarrow> bool" where
  "nego_hinv lcp H s \<longleftrightarrow> ipcp_heard lcp H (ng_ipcp s) \<and> ipv6cp_heard lcp H (ng_ipv6cp s)"

definition nego_post :: "LcpPhaseResult \<Rightarrow> nego_event set \<Rightarrow> NegotiationResult \<Rightarrow> bool" where
  "nego_post lcp H r \<longleftrightarrow>
     heard_addr H lcp is_ack (nr_client_ip r) \<and> heard_addr H lcp is_request (nr_server_ip r) \<and>
     (\<forall>i. nr_ipv6cp_client_id r = Some i \<longrightarrow> heard_ifid H lcp is_ack i) \<and>
     (\<forall>i. nr_ipv6cp_server_id r = Some i \<longrightarrow> heard_ifid H lcp is_request i)"

lemma heard_addr_mono: "heard_addr H lcp k a \<Longrightarrow> H \<subseteq> H' \<Longrightarrow> heard_addr H' lcp k a"
  by (auto simp: heard_addr_def)

lemma heard_ifid_mono: "heard_ifid H lcp k a \<Longrightarrow> H \<subseteq> H' \<Longrightarrow> heard_ifid H' lcp k a"
  by (auto simp: heard_ifid_def)

lemma ipcp_heard_mono: "ipcp_heard lcp H i \<Longrightarrow> H \<subseteq> H' \<Longrightarrow> ipcp_heard lcp H' i"
  unfolding ipcp_heard_def by (blast intro: heard_addr_mono)

lemma ipv6cp_heard_mono: "ipv6cp_heard lcp H v \<Longrightarrow> H \<subseteq> H' \<Longrightarrow> ipv6cp_heard lcp H' v"
  unfolding ipv6cp_heard_def by (blast intro: heard_ifid_mono)

lemma heard_irrelevant [simp]:
  "ipcp_heard lcp H (i\<lparr>ipcp_req_id := x\<rparr>) = ipcp_heard lcp H i"
  "ipcp_heard lcp H (i\<lparr>ipcp_requesting_ip := ip\<rparr>) = ipcp_heard lcp H i"
  "ipcp_heard lcp H (i\<lparr>ipcp_retries := y\<rparr>) = ipcp_heard lcp H i"
  "ipv6cp_heard lcp H (v\<lparr>v6_req_id := x\<rparr>) = ipv6cp_heard lcp H v"
  "ipv6cp_heard lcp H (v\<lparr>v6_our_id := b\<rparr>) = ipv6cp_heard lcp H v"
  "ipv6cp_heard lcp H (v\<lparr>v6_retries := y\<rparr>) = ipv6cp_heard lcp H v"
  "ipv6cp_heard lcp H (v\<lparr>v6_rejected := r\<rparr>) = ipv6cp_heard lcp H v"
  by (simp_all add: ipcp_heard_def ipv6cp_heard_def)

lemma handle_ipcp_packet_heard:
  assumes h: "ipcp_heard lcp H i" and p: "parse_ppp_packet raw lcp = Some ppp" "is_ipcp ppp"
    and st: "handle_ipcp_packet config lcp i ppp c = (Inr i', c')"
  shows "ipcp_heard lcp (insert (NgRecv (Some raw)) H) i'"
proof -
  let ?H = "insert (NgRecv (Some raw)) H" and ?ops = "PPPOption_from_bytes (ppp_payload ppp)"
  have h': "ipcp_heard lcp ?H i" using h by (rule ipcp_heard_mono) auto
  have new: "heard_addr ?H lcp k a"
    if "k ppp" "last_addr x ?ops = Some a" "\<And>b. x = Some b \<Longrightarrow> heard_addr ?H lcp k b" for k x a
    using last_addr_SomeD [OF that(2)] that(1,3) p by (auto simp: heard_addr_def)
  from st consider "i' = i" | "is_ack ppp" "i' = i\<lparr>ipcp_our_ip := last_addr (ipcp_our_ip i) ?ops\<rparr>"
    | id ip where "i' = i\<lparr>ipcp_req_id := id, ipcp_requesting_ip := ip\<rparr>"
    | "is_request ppp" "i' = i\<lparr>ipcp_peer_ip := last_addr (ipcp_peer_ip i) ?ops\<rparr>"
    by (auto simp: handle_ipcp_packet_def Let_def io_elims split: if_split_asm)
  then show ?thesis
    using h' new [of is_ack] new [of is_request] by cases (auto simp: ipcp_heard_def)
qed

lemma handle_ipv6cp_packet_heard:
  assumes h: "ipv6cp_heard lcp H v" and p: "parse_ppp_packet raw lcp = Some ppp" "is_ipv6cp ppp"
    and st: "handle_ipv6cp_packet config lcp v ppp c = (Inr v', c')"
  shows "ipv6cp_heard lcp (insert (NgRecv (Some raw)) H) v'"
proof -
  let ?H = "insert (NgRecv (Some raw)) H" and ?ops = "PPPOption_from_bytes (ppp_payload ppp)"
  have h': "ipv6cp_heard lcp ?H v" using h by (rule ipv6cp_heard_mono) auto
  have new: "heard_ifid ?H lcp k a"
    if "k ppp" "last_ifid x ?ops = Some a" "\<And>b. x = Some b \<Longrightarrow> heard_ifid ?H lcp k b" for k x a
    using last_ifid_SomeD [OF that(2)] that(1,3) p by (auto simp: heard_ifid_def)
  from st consider "v' = v" | "v' = v\<lparr>v6_rejected := True\<rparr>"
    | "is_ack ppp" "v' = v\<lparr>v6_our_confirmed_id := last_ifid (v6_our_confirmed_id v) ?ops\<rparr>"
    | id b where "v' = v\<lparr>v6_req_id := id, v6_our_id := b\<rparr>"
    | "is_request ppp" "v' = v\<lparr>v6_peer_id := last_ifid (v6_peer_id v) ?ops\<rparr>"
    by (auto simp: handle_ipv6cp_packet_def Let_def io_elims split: if_split_asm)
  then show ?thesis
    using h' new [of is_ack] new [of is_request] by cases (auto simp: ipv6cp_heard_def)
qed

lemma nego_hinv_mono: "nego_hinv lcp H s \<Longrightarrow> H \<subseteq> H' \<Longrightarrow> nego_hinv lcp H' s"
  unfolding nego_hinv_def by (blast intro: ipcp_heard_mono ipv6cp_heard_mono)

lemma build_result_post:
  assumes "nego_hinv lcp H s" "ncp_done s"
  shows "nego_post lcp H (build_result (ng_ipcp s) (ng_ipv6cp s) e)"
  using assms
  by (auto simp: nego_hinv_def nego_post_def build_result_def ncp_done_def IpcpState_done_def
      ipcp_heard_def ipv6cp_heard_def)

lemma on_auth_packet_ncp:
  assumes "on_auth_packet md5 config lcp ppp s c = (Inr s', c')" "nego_hinv lcp H s"
  shows "nego_hinv lcp H s'"
proof (cases "ng_auth s")
  case None
  with assms show ?thesis by (simp add: on_auth_packet_def)
next
  case (Some a)
  with assms(1) obtain result a' where h: "handle_incoming md5 a ppp = Some (result, a')"
    by (cases "handle_incoming md5 a ppp") (auto simp: on_auth_packet_def)
  with assms Some show ?thesis
    by (auto simp: on_auth_packet_def nego_hinv_def io_elims split: if_split_asm
        dest!: send_ipcp_request_Inr send_ipv6cp_request_Inr)
qed

lemma finish_or_wait_hist:
  assumes "nego_hinv lcp H s"
  shows "finish_or_wait s c = (Inr (Continue s'), c') \<Longrightarrow> nego_hinv lcp H s'"
    and "finish_or_wait s c = (Inr (Done r), c') \<Longrightarrow> nego_post lcp H r"
  using assms by (auto dest!: finish_or_wait_Continue finish_or_wait_Done intro: build_result_post)

lemma on_lcp_frame_hist:
  assumes "nego_hinv lcp H s"
  shows "on_lcp_frame config lcp ppp s c = (Inr (Continue s'), c') \<Longrightarrow> nego_hinv lcp H s'"
    and "on_lcp_frame config lcp ppp s c = (Inr (Done r), c') \<Longrightarrow> nego_post lcp H r"
proof -
  have rej: "nego_hinv lcp H (s\<lparr>ng_ipv6cp := (ng_ipv6cp s)\<lparr>v6_rejected := True\<rparr>\<rparr>)"
    using assms by (simp add: nego_hinv_def)
  show "nego_hinv lcp H s'" if "on_lcp_frame config lcp ppp s c = (Inr (Continue s'), c')"
    using on_lcp_frame_cases [OF that] assms by (elim disjE conjE) (simp_all add: nego_hinv_def)
  show "nego_post lcp H r" if "on_lcp_frame config lcp ppp s c = (Inr (Done r), c')"
    using that finish_or_wait_hist(2) [OF rej]
    by (simp add: on_lcp_frame_def io_elims Let_def split: if_split_asm)
qed

lemma on_nego_recv_hist:
  fixes raw
  assumes inv: "nego_hinv lcp H s"
  defines "H' \<equiv> insert (NgRecv (Some raw)) H"
  shows "on_nego_recv md5 config lcp raw s c = (Inr (Continue s'), c') \<Longrightarrow> nego_hinv lcp H' s'"
    and "on_nego_recv md5 config lcp raw s c = (Inr (Done r), c') \<Longrightarrow> nego_post lcp H' r"
proof -
  have inv': "nego_hinv lcp H' s" using inv by (rule nego_hinv_mono) (auto simp: H'_def)
  have i: "nego_hinv lcp H' (s\<lparr>ng_ipcp := i\<rparr>)"
    if "parse_ppp_packet raw lcp = Some ppp" "is_ipcp ppp"
      "handle_ipcp_packet config lcp (ng_ipcp s) ppp c = (Inr i, c1)" for ppp i c1
    using handle_ipcp_packet_heard [OF _ that] inv inv' by (simp add: nego_hinv_def H'_def)
  have v: "nego_hinv lcp H' (s\<lparr>ng_ipv6cp := v\<rparr>)"
    if "parse_ppp_packet raw lcp = Some ppp" "is_ipv6cp ppp"
      "handle_ipv6cp_packet config lcp (ng_ipv6cp s) ppp c = (Inr v, c1)" for ppp v c1
    using handle_ipv6cp_packet_heard [OF _ that] inv inv' by (simp add: nego_hinv_def H'_def)
  show "nego_hinv lcp H' s'" if st: "on_nego_recv md5 config lcp raw s c = (Inr (Continue s'), c')"
  proof (cases "parse_ppp_packet raw lcp")
    case None
    with st inv' show ?thesis by (simp add: on_nego_recv_def)
  next
    case (Some ppp)
    with st inv' show ?thesis
      using on_auth_packet_ncp [OF _ inv'] on_lcp_frame_hist(1) [OF inv']
        finish_or_wait_hist(1) [OF i [OF Some]] finish_or_wait_hist(1) [OF v [OF Some]]
      by (simp add: on_nego_recv_def io_elims split: if_split_asm) blast+
  qed
  show "nego_post lcp H' r" if st: "on_nego_recv md5 config lcp raw s c = (Inr (Done r), c')"
  proof (cases "parse_ppp_packet raw lcp")
    case None
    with st show ?thesis by (simp add: on_nego_recv_def)
  next
    case (Some ppp)
    with st show ?thesis
      using on_lcp_frame_hist(2) [OF inv']
        finish_or_wait_hist(2) [OF i [OF Some]] finish_or_wait_hist(2) [OF v [OF Some]]
      by (simp add: on_nego_recv_def io_elims split: if_split_asm) blast+
  qed
qed

lemma retry_ipv6cp_hist:
  assumes "nego_hinv lcp H s"
  shows "retry_ipv6cp config lcp s c = (Inr (Continue s'), c') \<Longrightarrow> nego_hinv lcp H s'"
    and "retry_ipv6cp config lcp s c = (Inr (Done r), c') \<Longrightarrow> nego_post lcp H r"
proof -
  let ?v = "(ng_ipv6cp s)\<lparr>v6_retries := v6_retries (ng_ipv6cp s) + 1\<rparr>"
  have v: "nego_hinv lcp H (s\<lparr>ng_ipv6cp := ?v\<lparr>v6_rejected := True\<rparr>\<rparr>)"
    using assms by (simp add: nego_hinv_def)
  show "nego_hinv lcp H s'" if "retry_ipv6cp config lcp s c = (Inr (Continue s'), c')"
    using that assms finish_or_wait_hist(1) [OF v]
    by (auto simp: retry_ipv6cp_def nego_hinv_def Let_def io_elims split: if_split_asm
        dest!: send_ipv6cp_request_Inr)
  show "nego_post lcp H r" if "retry_ipv6cp config lcp s c = (Inr (Done r), c')"
    using that finish_or_wait_hist(2) [OF v]
    by (auto simp: retry_ipv6cp_def Let_def io_elims split: if_split_asm)
qed

lemma on_nego_timeout_hist:
  assumes "nego_hinv lcp H s"
  shows "on_nego_timeout config lcp s c = (Inr (Continue s'), c') \<Longrightarrow> nego_hinv lcp H s'"
    and "on_nego_timeout config lcp s c = (Inr (Done r), c') \<Longrightarrow> nego_post lcp H r"
proof -
  have i: "nego_hinv lcp H (s\<lparr>ng_ipcp := i\<rparr>)"
    if "retry_ipcp config lcp (ng_ipcp s) c = (Inr i, c1)" for i c1
    using that assms
    by (auto simp: retry_ipcp_def nego_hinv_def Let_def split: if_split_asm dest!: send_ipcp_request_Inr)
  show "nego_hinv lcp H s'" if "on_nego_timeout config lcp s c = (Inr (Continue s'), c')"
    using that assms retry_ipv6cp_hist(1) [OF i]
    by (auto simp: on_nego_timeout_def io_elims Let_def nego_hinv_def split: if_split_asm)
  show "nego_post lcp H r" if "on_nego_timeout config lcp s c = (Inr (Done r), c')"
    using that retry_ipv6cp_hist(2) [OF i]
    by (auto simp: on_nego_timeout_def io_elims Let_def split: if_split_asm)
qed

lemma on_nego_echo_hist:
  assumes "nego_hinv lcp H s"
  shows "on_nego_echo config lcp s c = (Inr (Continue s'), c') \<Longrightarrow> nego_hinv lcp H s'"
    and "on_nego_echo config lcp s c \<noteq> (Inr (Done r), c')"
  using assms
  by (auto simp: on_nego_echo_def nego_hinv_def Let_def io_elims split: if_split_asm)

lemma nego_step_hist:
  assumes "nego_hinv lcp H s"
  shows "nego_step md5 config lcp e s c = (Inr (Continue s'), c') \<Longrightarrow> nego_hinv lcp (insert e H) s'"
    and "nego_step md5 config lcp e s c = (Inr (Done r), c') \<Longrightarrow> nego_post lcp (insert e H) r"
proof -
  have mono: "nego_hinv lcp (insert e H) s" using assms by (rule nego_hinv_mono) auto
  show "nego_hinv lcp (insert e H) s'" if "nego_step md5 config lcp e s c = (Inr (Continue s'), c')"
  proof (cases e)
    case NgStop
    with that show ?thesis by simp
  next
    case (NgRecv rv)
    with that on_nego_recv_hist(1) [OF assms] show ?thesis by (cases rv) auto
  qed (use that on_nego_timeout_hist(1) [OF mono] on_nego_echo_hist(1) [OF mono] in simp_all)
  show "nego_post lcp (insert e H) r" if "nego_step md5 config lcp e s c = (Inr (Done r), c')"
  proof (cases e)
    case NgStop
    with that show ?thesis by simp
  next
    case (NgRecv rv)
    with that on_nego_recv_hist(2) [OF assms] show ?thesis by (cases rv) auto
  qed (use that on_nego_timeout_hist(2) [OF mono] on_nego_echo_hist(2) [OF mono] in simp_all)
qed

interpretation nego_history: phase_history "nego_step md5 config lcp" "nego_hinv lcp" "nego_post lcp"
  for md5 config lcp
proof (unfold_locales, goal_cases)
  case 1
  then show ?case by (rule nego_step_hist(1))
next
  case 2
  then show ?case by (rule nego_step_hist(2))
next
  case (3 H r H')
  then show ?case unfolding nego_post_def by (blast intro: heard_addr_mono heard_ifid_mono)
qed

lemma nego_run_post:
  assumes "nego_run md5 config lcp es c = (Inr (Done r), c')"
  shows "nego_post lcp (set es) r"
proof -
  obtain s c1 where s: "nego_start config lcp c = (Inr s, c1)"
    and r: "run_events (nego_step md5 config lcp) es s c1 = (Inr (Done r), c')"
    using assms by (auto simp: nego_run_def io_elims)
  have "nego_hinv lcp {} s"
    using nego_start_Inr [OF s]
    by (simp add: nego_hinv_def ipcp_heard_def ipv6cp_heard_def IpcpState_new_def Ipv6cpState_new_def Let_def)
  from nego_history.run_post [OF this r] show ?thesis by simp
qed

section \<open>Frames on the session\<close>

text \<open>The bytes that \<open>send_pppoe_session_frame\<close> hands to the channel.\<close>

definition session_packet :: "bytes \<Rightarrow> MacAddr \<Rightarrow> u16 \<Rightarrow> bytes \<Rightarrow> bytes" where
  "session_packet dst src sid payload =
     dst @ octets src @ u16_to_be_bytes ETH_P_PPOES @
     PPPoEFrame_convert_to_payload
       \<lparr>fr_ver = 1, fr_t = 1, fr_code = 0, fr_sid = sid, fr_length = word_of_nat (length payload),
        fr_payload = payload\<rparr>"

lemma send_session_open:
  assumes "length (lr_server_mac lcp) = 6" "\<not> tx_closed c"
  shows "send_session config lcp p c =
    (Inr (), c\<lparr>effects := effects c @
       [Sent (session_packet (lr_server_mac lcp) (cfg_iface_mac config) (lr_session_id lcp) p)]\<rparr>)"
  using assms
  by (simp add: send_session_def send_pppoe_session_frame_def send_l2_def build_l2_header_def tx_send_def
      io_effect_def session_packet_def)

lemma parse_session_packet:
  assumes "length dst = 6" "lr_session_id lcp = sid"
  shows "parse_ppp_packet (session_packet dst src sid p) lcp = PointToPoint_new p"
proof -
  let ?f = "\<lparr>fr_ver = 1, fr_t = 1, fr_code = 0, fr_sid = sid, fr_length = word_of_nat (length p), fr_payload = p\<rparr>"
  let ?raw = "session_packet dst src sid p"
  have raw: "?raw = (dst @ octets src) @ [0x88, 0x64] @ PPPoEFrame_convert_to_payload ?f"
    by (simp add: session_packet_def ETH_P_PPOES_def u16_to_be_bytes_def)
  have l12: "length (dst @ octets src) = 12" using assms(1) by simp
  have d14: "drop 14 ?raw = PPPoEFrame_convert_to_payload ?f"
    unfolding raw using l12 by simp
  have n: "?raw ! 12 = 0x88" "?raw ! 13 = 0x64"
    unfolding raw using l12 nth_append_length_plus [of "dst @ octets src" _ 0]
      nth_append_length_plus [of "dst @ octets src" _ 1] by simp_all
  have "6 \<le> length (PPPoEFrame_convert_to_payload ?f)"
    by (simp add: PPPoEFrame_convert_to_payload_def)
  then have l: "\<not> length ?raw < 16" unfolding raw using l12 by simp
  have e: "u16_from_be_bytes 0x88 0x64 = ETH_P_PPOES"
    by (simp add: ETH_P_PPOES_def u16_from_be_bytes_def)
  show ?thesis
    unfolding parse_ppp_packet_def d14 n
    using l e assms(2) frame_new_convert [of ?f] by (simp add: is_terminate_def)
qed

lemma parse_ppp_packet_wf: "parse_ppp_packet raw lcp = Some ppp \<Longrightarrow> ppp_wf ppp"
  by (auto simp: parse_ppp_packet_def split: if_split_asm option.split_asm dest: ppp.dec_wf)

section \<open>Answers to Configure-Requests\<close>

lemma reject_options_concat:
  "reject_options known ops = concat (map PPPOption_convert_to_payload (filter (\<lambda>op. \<not> known op) ops))"
proof -
  have "fold (\<lambda>op acc. if known op then acc else acc @ PPPOption_convert_to_payload op) ops acc =
      acc @ concat (map PPPOption_convert_to_payload (filter (\<lambda>op. \<not> known op) ops))" for acc
    by (induction ops arbitrary: acc) auto
  then show ?thesis by (simp add: reject_options_def)
qed

lemma concat_filter_length:
  "length (concat (map f (filter P xs))) \<le> length (concat (map f xs))"
  by (induction xs) auto

lemma reject_options_parse:
  fixes bs known
  defines "ops \<equiv> PPPOption_from_bytes bs"
  shows "PPPOption_from_bytes (reject_options known ops) = filter (\<lambda>op. \<not> known op) ops"
    and "length (reject_options known ops) \<le> length bs"
    and "reject_options known ops = [] \<longleftrightarrow> list_all known ops"
proof -
  have wf: "\<forall>op\<in>set ops. opt_wf op" unfolding ops_def using ppp_opts.dec_wf by blast
  then show "PPPOption_from_bytes (reject_options known ops) = filter (\<lambda>op. \<not> known op) ops"
    unfolding reject_options_concat using ppp_opts.dec_concat by simp
  show "length (reject_options known ops) \<le> length bs"
    unfolding reject_options_concat ops_def
    using concat_filter_length ppp_opts.dec_length [of bs] order_trans by blast
  show "reject_options known ops = [] \<longleftrightarrow> list_all known ops"
    unfolding reject_options_concat
    by (auto simp: list_all_iff PPPOption_convert_to_payload_def filter_empty_conv)
qed

text \<open>What a peer that receives \<open>pkt\<close> reads: an answer to its own Configure-Request \<open>ppp\<close>.\<close>

definition answers_request :: "(PPPOption \<Rightarrow> bool) \<Rightarrow> LcpPhaseResult \<Rightarrow> PointToPoint \<Rightarrow> bytes \<Rightarrow> bool" where
  "answers_request known lcp ppp pkt \<longleftrightarrow>
     (let ops = PPPOption_from_bytes (ppp_payload ppp)
      in case parse_ppp_packet pkt lcp of
           None \<Rightarrow> False
         | Some reply \<Rightarrow>
             ppp_protocol reply = ppp_protocol ppp \<and> ppp_id reply = ppp_id ppp \<and>
             (if list_all known ops then is_ack reply \<and> ppp_payload reply = ppp_payload ppp
              else is_reject reply \<and>
                   PPPOption_from_bytes (ppp_payload reply) = filter (\<lambda>op. \<not> known op) ops))"

lemma answers_request_reply:
  assumes "length (lr_server_mac lcp) = 6" "ppp_wf ppp"
    and "rej = reject_options known (PPPOption_from_bytes (ppp_payload ppp))"
  shows "answers_request known lcp ppp
    (session_packet (lr_server_mac lcp) m (lr_session_id lcp) (if rej \<noteq> [] then gen_reject ppp rej else gen_ack ppp))"
proof -
  have "length rej + 4 < 65536"
    using reject_options_parse(2) [of known "ppp_payload ppp"] assms(2,3) unat_u16_less [of "ppp_length ppp"]
    unfolding ppp_wf_def assms(3) by linarith
  then show ?thesis
    using reject_options_parse(1,3) [of known "ppp_payload ppp"] assms new_gen_ack new_gen_reject
    by (simp add: answers_request_def Let_def parse_session_packet is_ack_def is_reject_def)
qed

lemma ipcp_request_answer:
  assumes "length (lr_server_mac lcp) = 6" "\<not> tx_closed c" "parse_ppp_packet raw lcp = Some ppp"
    "is_request ppp" "list_ex is_addr_option (PPPOption_from_bytes (ppp_payload ppp))"
  shows "\<exists>i' pkt. handle_ipcp_packet config lcp i ppp c = (Inr i', c\<lparr>effects := effects c @ [Sent pkt]\<rparr>) \<and>
    ipcp_peer_ip i' \<noteq> None \<and> answers_request is_addr_option lcp ppp pkt"
proof -
  let ?ops = "PPPOption_from_bytes (ppp_payload ppp)"
  let ?rej = "reject_options is_addr_option ?ops"
  have peer: "last_addr acc ops \<noteq> None" if "list_ex is_addr_option ops" for acc ops
    using that by (induction ops arbitrary: acc) auto
  have "\<not> is_ack ppp" "\<not> is_nak ppp" using assms(4) by (auto simp: is_ack_def is_nak_def is_request_def)
  then show ?thesis
    using assms(4) peer [OF assms(5)] answers_request_reply [OF assms(1) parse_ppp_packet_wf [OF assms(3)] refl,
        of is_addr_option "cfg_iface_mac config"]
    by (auto simp: handle_ipcp_packet_def Let_def io_then_def io_bind_def send_session_open [OF assms(1,2)]
        io_return_def split: if_split_asm)
qed

lemma ipv6cp_request_answer:
  assumes "length (lr_server_mac lcp) = 6" "\<not> tx_closed c" "parse_ppp_packet raw lcp = Some ppp"
    "is_request ppp" "list_ex is_ifid_option (PPPOption_from_bytes (ppp_payload ppp))"
  shows "\<exists>v' pkt. handle_ipv6cp_packet config lcp v ppp c = (Inr v', c\<lparr>effects := effects c @ [Sent pkt]\<rparr>) \<and>
    v6_peer_id v' \<noteq> None \<and> answers_request is_ifid_option lcp ppp pkt"
proof -
  let ?ops = "PPPOption_from_bytes (ppp_payload ppp)"
  have peer: "last_ifid acc ops \<noteq> None" if "list_ex is_ifid_option ops" for acc ops
    using that by (induction ops arbitrary: acc) auto
  have "\<not> is_ack ppp" "\<not> is_nak ppp" using assms(4) by (auto simp: is_ack_def is_nak_def is_request_def)
  then show ?thesis
    using assms(4) peer [OF assms(5)] answers_request_reply [OF assms(1) parse_ppp_packet_wf [OF assms(3)] refl,
        of is_ifid_option "cfg_iface_mac config"]
    by (auto simp: handle_ipv6cp_packet_def Let_def io_then_def io_bind_def send_session_open [OF assms(1,2)]
        io_return_def split: if_split_asm)
qed

section \<open>Properties\<close>


definition ex_lcp :: LcpPhaseResult where
  "ex_lcp = \<lparr>lr_session_id = 7, lr_server_mac = [0, 0x11, 0x22, 0x33, 0x44, 0x55], lr_mru = 1492,
     lr_magic_number = 1, lr_auth_type = 0xc223, lr_peer_mru = 1492, lr_peer_magic = 2\<rparr>"


text \<open>C21: the one remotely triggered panic.  A step of phase 2 panics iff the session uses CHAP, is still
  authenticating, and the frame received is a challenge whose value-size byte is missing or
  points past the end of the packet; nothing else the peer sends makes the client panic.\<close>

theorem negotiation_panic_iff:
  assumes "length (lr_server_mac lcp) = 6"
  shows "(\<exists>c'. nego_step md5 config lcp e s c = (Inl Panic, c')) \<longleftrightarrow>
    (\<exists>a. ng_auth s = Some (Chap a)) \<and>
    (\<exists>raw ppp. e = NgRecv (Some raw) \<and> parse_ppp_packet raw lcp = Some ppp \<and>
       (is_pap_auth ppp \<or> is_chap ppp) \<and> is_challenge ppp \<and>
       (ppp_payload ppp = [] \<or> length (ppp_payload ppp) < 1 + unat (ppp_payload ppp ! 0)))"
  using nego_step_Panic [OF assms]
  by (auto simp: malformed_auth_frame_def malformed_challenge_def split: nego_event.splits option.splits)

theorem negotiation_panic_iff_witness:
  "\<exists>c'. nego_step id ex_config ex_lcp
      (NgRecv (Some (session_packet [2, 0, 0, 0, 0, 1] (MacAddr 0 0x11 0x22 0x33 0x44 0x55) 7 [0xc2, 0x23, 1, 9, 0, 4])))
      (nego_init ex_config (Chap (ChapAuthenticator_new [0x75] [0x70]))) ex_chan = (Inl Panic, c')"
proof -
  have p: "parse_ppp_packet
      (session_packet [2, 0, 0, 0, 0, 1] (MacAddr 0 0x11 0x22 0x33 0x44 0x55) 7 [0xc2, 0x23, 1, 9, 0, 4]) ex_lcp =
      Some \<lparr>ppp_protocol = 0xc223, ppp_code = 1, ppp_id = 9, ppp_length = 4, ppp_payload = []\<rparr>"
    by (subst parse_session_packet) (simp_all add: ex_lcp_def PointToPoint_new_def u16_from_be_bytes_def slice_def Let_def)
  have m: "length (lr_server_mac ex_lcp) = 6" by (simp add: ex_lcp_def)
  show ?thesis
    unfolding negotiation_panic_iff [OF m] using p by (simp add: nego_init_def is_chap_def is_challenge_def)
qed

text \<open>C4: a result of phase 2 is never made up.  If \<open>run\<close> returns a result, then on this session the peer
  acknowledged the client address it reports in an IPCP Configure-Ack, announced the server
  address in an IPCP Configure-Request, and the IPv6 interface identifiers, where reported, were
  acknowledged and announced over IPv6CP in the same way.\<close>

theorem negotiation_provenance:
  assumes "nego_run md5 config lcp es c = (Inr (Done r), c')"
  shows "heard_addr (set es) lcp is_ack (nr_client_ip r) \<and>
    heard_addr (set es) lcp is_request (nr_server_ip r) \<and>
    (\<forall>i. nr_ipv6cp_client_id r = Some i \<longrightarrow> heard_ifid (set es) lcp is_ack i) \<and>
    (\<forall>i. nr_ipv6cp_server_id r = Some i \<longrightarrow> heard_ifid (set es) lcp is_request i)"
  using nego_run_post [OF assms] by (simp add: nego_post_def)

text \<open>C22: every Configure-Request that names an address (or an interface identifier) is answered by one
  frame that the peer reads as the answer to that very request: a Configure-Ack with the same
  options if the client supports all of them, otherwise a Configure-Reject that lists exactly
  the unsupported options, in their order.\<close>

theorem configure_requests_answered:
  assumes "length (lr_server_mac lcp) = 6" "\<not> tx_closed c" "parse_ppp_packet raw lcp = Some ppp" "is_request ppp"
  shows "(list_ex is_addr_option (PPPOption_from_bytes (ppp_payload ppp)) \<longrightarrow>
      (\<exists>i' pkt. handle_ipcp_packet config lcp i ppp c = (Inr i', c\<lparr>effects := effects c @ [Sent pkt]\<rparr>) \<and>
         ipcp_peer_ip i' \<noteq> None \<and> answers_request is_addr_option lcp ppp pkt)) \<and>
    (list_ex is_ifid_option (PPPOption_from_bytes (ppp_payload ppp)) \<longrightarrow>
      (\<exists>v' pkt. handle_ipv6cp_packet config lcp v ppp c = (Inr v', c\<lparr>effects := effects c @ [Sent pkt]\<rparr>) \<and>
         v6_peer_id v' \<noteq> None \<and> answers_request is_ifid_option lcp ppp pkt))"
  using ipcp_request_answer [OF assms] ipv6cp_request_answer [OF assms] by blast


text \<open>The frames of the examples: an IPCP or LCP packet on session 7, as the peer sends it.\<close>

definition ex_frame :: "bytes \<Rightarrow> bytes" where
  "ex_frame payload = session_packet [2, 0, 0, 0, 0, 1] (MacAddr 0 0x11 0x22 0x33 0x44 0x55) 7 payload"

definition ex_ipcp :: "u8 \<Rightarrow> bytes \<Rightarrow> bytes" where
  "ex_ipcp code opts = ex_frame ([0x80, 0x21, code, 1, 0, word_of_nat (length opts) + 4] @ opts)"

definition ex_nego_events :: "nego_event list" where
  "ex_nego_events =
     [NgRecv (Some (ex_ipcp 2 [3, 6, 10, 0, 0, 2])), NgRecv (Some (ex_ipcp 1 [3, 6, 10, 0, 0, 1])),
      NgRecv (Some (ex_frame [0xc0, 0x21, 8, 3, 0, 6, 0x80, 0x57]))]"

definition ex_nego_result :: NegotiationResult where
  "ex_nego_result = \<lparr>nr_client_ip = 0x0a000002, nr_server_ip = 0x0a000001, nr_ipv6cp_client_id = None,
     nr_ipv6cp_server_id = None, nr_echo_req_id = 1\<rparr>"

lemma ex_nego_run:
  "fst (nego_run id ex_config ex_lcp ex_nego_events ex_chan) = Inr (Done ex_nego_result)"
  by code_simp

theorem negotiation_provenance_witness:
  "heard_addr (set ex_nego_events) ex_lcp is_ack 0x0a000002 \<and>
   heard_addr (set ex_nego_events) ex_lcp is_request 0x0a000001"
proof -
  obtain c' where "nego_run id ex_config ex_lcp ex_nego_events ex_chan = (Inr (Done ex_nego_result), c')"
    using ex_nego_run by (metis prod.collapse)
  from negotiation_provenance [OF this] show ?thesis by (simp add: ex_nego_result_def)
qed

theorem configure_requests_answered_witness:
  "\<exists>i' pkt. handle_ipcp_packet ex_config ex_lcp IpcpState_new
       \<lparr>ppp_protocol = 0x8021, ppp_code = 1, ppp_id = 1, ppp_length = 10, ppp_payload = [3, 6, 10, 0, 0, 1]\<rparr> ex_chan =
       (Inr i', ex_chan\<lparr>effects := effects ex_chan @ [Sent pkt]\<rparr>) \<and>
     ipcp_peer_ip i' \<noteq> None \<and>
     answers_request is_addr_option ex_lcp
       \<lparr>ppp_protocol = 0x8021, ppp_code = 1, ppp_id = 1, ppp_length = 10, ppp_payload = [3, 6, 10, 0, 0, 1]\<rparr> pkt"
proof -
  let ?p = "\<lparr>ppp_protocol = 0x8021, ppp_code = 1, ppp_id = 1, ppp_length = 10, ppp_payload = [3, 6, 10, 0, 0, 1]\<rparr>"
  have h: "length (lr_server_mac ex_lcp) = 6" "\<not> tx_closed ex_chan"
      "parse_ppp_packet (ex_ipcp 1 [3, 6, 10, 0, 0, 1]) ex_lcp = Some ?p" "is_request ?p"
      "list_ex is_addr_option (PPPOption_from_bytes (ppp_payload ?p))"
    by code_simp+
  show ?thesis
    using configure_requests_answered [OF h(1-4), of ex_config IpcpState_new undefined] h(5) by blast
qed

text \<open>A channel whose receiver stays open.\<close>

lemma send_session_stays_open:
  assumes "length (lr_server_mac lcp) = 6" "closed_after c = None"
  shows "\<exists>c'. send_session config lcp p c = (Inr (), c') \<and> closed_after c' = None"
  using assms send_session_open [of lcp c config p] by (simp add: tx_closed_def)

lemma reset_ok:
  "reset_timeout n c = (Inr (), c\<lparr>effects := effects c @ [ResetTimeout n]\<rparr>)"
  "reset_echo n c = (Inr (), c\<lparr>effects := effects c @ [ResetEcho n]\<rparr>)"
  by (simp_all add: reset_timeout_def reset_echo_def io_effect_def)

lemma resend_auth_open:
  assumes "length (lr_server_mac lcp) = 6" "closed_after c = None"
  shows "\<exists>c'. resend_auth config lcp s c = (Inr (), c') \<and> closed_after c' = None"
  using assms send_session_stays_open by (simp add: resend_auth_def split: option.split)

lemma nego_start_open:
  assumes "length (lr_server_mac lcp) = 6" "closed_after c = None" "lr_auth_type lcp \<in> {0xc023, 0xc223}"
  shows "\<exists>s c'. nego_start config lcp c = (Inr s, c') \<and> closed_after c' = None"
proof -
  obtain a where a: "nego_auth config lcp = io_return a"
    using assms(3) by (auto simp: nego_auth_def)
  obtain c1 where c1: "resend_auth config lcp (nego_init config a) c = (Inr (), c1)" "closed_after c1 = None"
    using resend_auth_open [OF assms(1,2)] by blast
  obtain c2 where c2: "send_session config lcp (gen_echo_request_with_magic (ng_echo_req_id (nego_init config a))
      (lr_magic_number lcp)) c1 = (Inr (), c2)" "closed_after c2 = None"
    using send_session_stays_open [OF assms(1) c1(2)] by blast
  show ?thesis
    using c1 c2 by (simp add: nego_start_def a send_echo_request_def Let_def io_then_def io_bind_def io_return_def
        reset_ok)
qed

text \<open>C23: authentication is not a precondition of the result.  If the peer sends an IPCP Configure-Ack and an
  IPCP Configure-Request that name addresses, and a Protocol-Reject for IPv6CP, phase 2 returns
  these addresses although no authentication packet was received: the network-layer branches do
  not look at \<open>auth_done\<close>.\<close>

theorem negotiation_completes_unauthenticated:
  assumes "length (lr_server_mac lcp) = 6" "closed_after c = None" "lr_auth_type lcp \<in> {0xc023, 0xc223}"
    and p1: "parse_ppp_packet raw1 lcp = Some p1" "is_ipcp p1" "is_ack p1"
      "last_addr None (PPPOption_from_bytes (ppp_payload p1)) = Some a"
    and p2: "parse_ppp_packet raw2 lcp = Some p2" "is_ipcp p2" "is_request p2"
      "last_addr None (PPPOption_from_bytes (ppp_payload p2)) = Some b"
    and p3: "parse_ppp_packet raw3 lcp = Some p3" "is_lcp_config p3" "is_proto_reject p3"
      "take 2 (ppp_payload p3) = [0x80, 0x57]"
  shows "\<exists>r c'. nego_run md5 config lcp [NgRecv (Some raw1), NgRecv (Some raw2), NgRecv (Some raw3)] c =
      (Inr (Done r), c') \<and> nr_client_ip r = a \<and> nr_server_ip r = b"
proof -
  obtain s c0 where s: "nego_start config lcp c = (Inr s, c0)" and c0: "closed_after c0 = None"
    using nego_start_open [OF assms(1-3)] by blast
  note s0 = nego_start_Inr [OF s]
  have i: "ng_ipcp s = IpcpState_new" "\<not> Ipv6cpState_done (ng_ipv6cp s)"
    using s0 by (simp_all add: Ipv6cpState_done_def Ipv6cpState_new_def Let_def)
  let ?i1 = "IpcpState_new\<lparr>ipcp_our_ip := Some a\<rparr>" and ?i2 = "IpcpState_new\<lparr>ipcp_our_ip := Some a, ipcp_peer_ip := Some b\<rparr>"
  have np1: "\<not> is_pap_auth p1" "\<not> is_chap p1" and np2: "\<not> is_pap_auth p2" "\<not> is_chap p2" "\<not> is_ack p2" "\<not> is_nak p2"
    and np3: "\<not> is_pap_auth p3" "\<not> is_chap p3" "\<not> is_ipcp p3" "\<not> is_ipv6cp p3" "\<not> is_echo_request p3"
      "\<not> is_echo_reply p3" "\<not> is_termination p3" "\<not> is_termination_ack p3"
    using p1 p2 p3 by (simp_all add: is_ipcp_def is_pap_auth_def is_chap_def is_ack_def is_nak_def is_request_def
        is_ipv6cp_def is_lcp_config_def is_echo_request_def is_echo_reply_def is_termination_def is_termination_ack_def
        is_proto_reject_def)
  have "nego_step md5 config lcp (NgRecv (Some raw1)) s c0 =
      (Inr (Continue (s\<lparr>ng_ipcp := ?i1\<rparr>)), c0\<lparr>effects := effects c0 @ [ResetTimeout DEFAULT_TIMEOUT]\<rparr>)"
    using p1 np1 i
    by (simp add: on_nego_recv_def handle_ipcp_packet_def Let_def io_bind_def io_return_def finish_or_wait_def
        ncp_done_def wait_def io_then_def reset_ok IpcpState_new_def)
  moreover obtain c2 where "nego_step md5 config lcp (NgRecv (Some raw2)) (s\<lparr>ng_ipcp := ?i1\<rparr>)
      (c0\<lparr>effects := effects c0 @ [ResetTimeout DEFAULT_TIMEOUT]\<rparr>) = (Inr (Continue (s\<lparr>ng_ipcp := ?i2\<rparr>)), c2)"
  proof -
    let ?c1 = "c0\<lparr>effects := effects c0 @ [ResetTimeout DEFAULT_TIMEOUT]\<rparr>"
    have "\<not> tx_closed ?c1" using c0 by (simp add: tx_closed_def)
    note open1 = send_session_open [OF assms(1) this, of config]
    have "\<exists>c2. handle_ipcp_packet config lcp ?i1 p2 ?c1 = (Inr ?i2, c2)"
      using p2 np2 by (simp add: handle_ipcp_packet_def Let_def io_then_def io_bind_def io_return_def
          IpcpState_new_def open1)
    then show ?thesis
      using that p2 np2 i by (auto simp: on_nego_recv_def io_bind_def finish_or_wait_def ncp_done_def wait_def
          io_then_def io_return_def reset_ok)
  qed
  moreover have "nego_step md5 config lcp (NgRecv (Some raw3)) (s\<lparr>ng_ipcp := ?i2\<rparr>) c2 =
     (Inr (Done (build_result ?i2 ((ng_ipv6cp s)\<lparr>v6_rejected := True\<rparr>) (ng_echo_req_id s))), c2)"
  proof -
    have "ppp_payload p3 ! 0 = 0x80" "ppp_payload p3 ! 1 = 0x57" "2 \<le> length (ppp_payload p3)"
      using p3(4) by (cases "ppp_payload p3"; cases "tl (ppp_payload p3)"; simp)+
    then show ?thesis
      using p3 np3 by (simp add: on_nego_recv_def on_lcp_frame_def Let_def u16_from_be_bytes_def finish_or_wait_def
          ncp_done_def IpcpState_done_def io_return_def)
  qed
  ultimately show ?thesis
    using s by (simp add: nego_run_def run_events.simps io_bind_def io_return_def build_result_def)
qed

theorem negotiation_completes_unauthenticated_witness:
  "\<exists>r c'. nego_run id ex_config ex_lcp ex_nego_events ex_chan = (Inr (Done r), c') \<and>
     nr_client_ip r = 0x0a000002 \<and> nr_server_ip r = 0x0a000001"
  unfolding ex_nego_events_def
  by (rule negotiation_completes_unauthenticated
      [where ?p1.0 = "\<lparr>ppp_protocol = 0x8021, ppp_code = 2, ppp_id = 1, ppp_length = 10, ppp_payload = [3, 6, 10, 0, 0, 2]\<rparr>"
        and ?p2.0 = "\<lparr>ppp_protocol = 0x8021, ppp_code = 1, ppp_id = 1, ppp_length = 10, ppp_payload = [3, 6, 10, 0, 0, 1]\<rparr>"
        and ?p3.0 = "\<lparr>ppp_protocol = 0xc021, ppp_code = 8, ppp_id = 3, ppp_length = 6, ppp_payload = [0x80, 0x57]\<rparr>"];
    code_simp)

text \<open>C24: a request that is refused can still end the negotiation.  When the client's own address is
  acknowledged and IPv6CP is settled, an IPCP Configure-Request that names an address next to an
  unsupported option is answered with a Configure-Reject, and the same step returns the result:
  the peer's IPCP is left unacknowledged.\<close>

theorem negotiation_completes_after_reject:
  assumes "length (lr_server_mac lcp) = 6" "\<not> tx_closed c" "parse_ppp_packet raw lcp = Some ppp" "is_ipcp ppp"
    "is_request ppp" "list_ex is_addr_option (PPPOption_from_bytes (ppp_payload ppp))"
    "\<not> list_all is_addr_option (PPPOption_from_bytes (ppp_payload ppp))"
    "ipcp_our_ip (ng_ipcp s) = Some a" "Ipv6cpState_done (ng_ipv6cp s)"
  shows "\<exists>r pkt reply. nego_step md5 config lcp (NgRecv (Some raw)) s c =
      (Inr (Done r), c\<lparr>effects := effects c @ [Sent pkt]\<rparr>) \<and>
    parse_ppp_packet pkt lcp = Some reply \<and> is_reject reply"
proof -
  obtain i' pkt where h: "handle_ipcp_packet config lcp (ng_ipcp s) ppp c = (Inr i', c\<lparr>effects := effects c @ [Sent pkt]\<rparr>)"
    and i': "ipcp_peer_ip i' \<noteq> None" and ans: "answers_request is_addr_option lcp ppp pkt"
    using ipcp_request_answer [OF assms(1-3,5,6)] by blast
  have "\<not> is_ack ppp" "\<not> is_nak ppp" "\<not> is_pap_auth ppp" "\<not> is_chap ppp"
    using assms(4,5) by (simp_all add: is_ack_def is_nak_def is_request_def is_ipcp_def is_pap_auth_def is_chap_def)
  moreover from this assms(5,8) h have "ipcp_our_ip i' = Some a"
    by (auto simp: handle_ipcp_packet_def Let_def io_elims)
  ultimately show ?thesis
    using assms(3,4,7,9) h i' ans
    by (auto simp: on_nego_recv_def io_bind_def finish_or_wait_def ncp_done_def IpcpState_done_def io_return_def
        answers_request_def Let_def split: option.split_asm)
qed

theorem negotiation_completes_after_reject_witness:
  "\<exists>r pkt reply. nego_step id ex_config ex_lcp (NgRecv (Some (ex_ipcp 1 [3, 6, 10, 0, 0, 1, 2, 6, 0, 0x2d, 0x0f, 1])))
      ((nego_init ex_config (Chap (ChapAuthenticator_new [] [])))
         \<lparr>ng_ipcp := IpcpState_new\<lparr>ipcp_our_ip := Some 0x0a000002\<rparr>,
          ng_ipv6cp := (Ipv6cpState_new (MacAddr 2 0 0 0 0 1))\<lparr>v6_rejected := True\<rparr>\<rparr>) ex_chan =
      (Inr (Done r), ex_chan\<lparr>effects := effects ex_chan @ [Sent pkt]\<rparr>) \<and>
    parse_ppp_packet pkt ex_lcp = Some reply \<and> is_reject reply"
  by (rule negotiation_completes_after_reject [where a = "0x0a000002" and
        ppp = "\<lparr>ppp_protocol = 0x8021, ppp_code = 1, ppp_id = 1, ppp_length = 16,
          ppp_payload = [3, 6, 10, 0, 0, 1, 2, 6, 0, 0x2d, 0x0f, 1]\<rparr>"]; code_simp)

text \<open>Echo supervision: \<open>EchoFailed\<close> is raised by the echo timer only.\<close>

definition is_nego_echo :: "nego_event \<Rightarrow> bool" where
  "is_nego_echo e \<longleftrightarrow> e = NgEcho"

lemma nego_no_echo_error:
  assumes "length (lr_server_mac lcp) = 6"
  shows "send_session config lcp p c \<noteq> (Inl (Err (EchoFailed n)), c')"
    "send_ipcp_request config lcp i c \<noteq> (Inl (Err (EchoFailed n)), c')"
    "send_ipv6cp_request config lcp v c \<noteq> (Inl (Err (EchoFailed n)), c')"
    "handle_ipcp_packet config lcp i ppp c \<noteq> (Inl (Err (EchoFailed n)), c')"
    "handle_ipv6cp_packet config lcp v ppp c \<noteq> (Inl (Err (EchoFailed n)), c')"
    "resend_auth config lcp s c \<noteq> (Inl (Err (EchoFailed n)), c')"
    "retry_ipcp config lcp i c \<noteq> (Inl (Err (EchoFailed n)), c')"
  using assms
  by (auto simp: nego_send_defs handle_ipcp_packet_def handle_ipv6cp_packet_def resend_auth_def retry_ipcp_def
      send_session_Inl_nego io_elims Let_def split: option.splits)

lemma on_nego_recv_no_echo_error:
  assumes "length (lr_server_mac lcp) = 6"
  shows "on_nego_recv md5 config lcp raw s c \<noteq> (Inl (Err (EchoFailed n)), c')"
proof -
  note no = nego_no_echo_error [OF assms]
  have "on_auth_packet md5 config lcp ppp s c \<noteq> (Inl (Err (EchoFailed n)), c')" for ppp
    using no(1,2,3) by (simp add: on_auth_packet_def io_elims split: option.split prod.split)
  moreover have "on_lcp_frame config lcp ppp s c \<noteq> (Inl (Err (EchoFailed n)), c')" for ppp
    using no(1) by (simp add: on_lcp_frame_def send_echo_reply_def io_elims Let_def)
  ultimately show ?thesis
    using no(4,5) by (simp add: on_nego_recv_def io_elims split: option.split)
qed

lemma nego_step_echo_error:
  assumes inv: "nego_inv lcp s" and st: "nego_step md5 config lcp e s c = (Inl (Err (EchoFailed n)), c')"
  shows "e = NgEcho \<and> ng_echo_failures s = 5 \<and> n = 6"
proof (cases e)
  case NgEcho
  with st inv nego_no_echo_error(1) have "n = ng_echo_failures s + 1" "5 < ng_echo_failures s + 1"
    by (auto simp: on_nego_echo_def send_echo_request_def MAX_ECHO_FAILURES_def io_elims Let_def nego_inv_def
        split: if_split_asm)
  moreover have "unat (ng_echo_failures s) \<le> 5" using inv by (simp add: nego_inv_def word_le_nat_alt)
  ultimately have "unat (ng_echo_failures s) = 5" using unat_inc_u8 by (simp add: word_less_nat_alt)
  then have "ng_echo_failures s = 5" using word_of_nat_eqI [of "ng_echo_failures s" 5] by simp
  with NgEcho \<open>n = _\<close> show ?thesis by simp
next
  case (NgRecv r)
  with st inv show ?thesis
    using on_nego_recv_no_echo_error by (cases r) (auto simp: nego_inv_def)
next
  case NgTimeout
  then have "nego_step md5 config lcp e s c \<noteq> (Inl (Err (EchoFailed n)), c')"
    using nego_no_echo_error inv
    by (simp add: on_nego_timeout_def retry_ipv6cp_def io_elims Let_def nego_inv_def)
  with st show ?thesis by simp
qed (use st in simp)

lemma nego_step_echo_count:
  assumes inv: "nego_inv lcp s" and st: "nego_step md5 config lcp e s c = (Inr (Continue s'), c')"
  shows "unat (ng_echo_failures s') \<le> unat (ng_echo_failures s) + (if is_nego_echo e then 1 else 0)"
proof (cases e)
  case NgEcho
  with st have "on_nego_echo config lcp s c = (Inr (Continue s'), c')" by simp
  then have "s' = s\<lparr>ng_echo_failures := ng_echo_failures s + 1\<rparr>" using on_nego_echo_Continue [OF inv] by blast
  moreover have "unat (ng_echo_failures s) \<le> 5" using inv by (simp add: nego_inv_def word_le_nat_alt)
  ultimately show ?thesis using NgEcho by (simp add: is_nego_echo_def unat_inc_u8)
next
  case (NgRecv r)
  have auth: "ng_echo_failures s1 = ng_echo_failures s" if "on_auth_packet md5 config lcp ppp s c = (Inr s1, c1)" for ppp s1 c1
    using that by (auto simp: on_auth_packet_def io_elims split: option.split_asm prod.split_asm if_split_asm)
  have frame: "unat (ng_echo_failures s1) \<le> unat (ng_echo_failures s)"
    if "on_lcp_frame config lcp ppp s c = (Inr (Continue s1), c1)" for ppp s1 c1
    using on_lcp_frame_cases [OF that] by (elim disjE conjE) simp_all
  have "unat (ng_echo_failures s') \<le> unat (ng_echo_failures s)"
    if "on_nego_recv md5 config lcp raw s c = (Inr (Continue s'), c')" for raw
    using that auth frame
    by (auto simp: on_nego_recv_def io_elims split: option.split_asm if_split_asm dest!: finish_or_wait_Continue)
  with NgRecv st show ?thesis by (cases r) (auto simp: is_nego_echo_def)
next
  case NgTimeout
  with st show ?thesis
    by (auto simp: on_nego_timeout_def retry_ipv6cp_def io_elims Let_def split: if_split_asm
        dest!: finish_or_wait_Continue)
qed (use st in simp)

lemma run_echo_failed:
  "nego_inv lcp s \<Longrightarrow> run_events (nego_step md5 config lcp) es s c = (Inl (Err (EchoFailed n)), c') \<Longrightarrow>
     n = 6 \<and> 6 \<le> unat (ng_echo_failures s) + length (filter is_nego_echo es)"
proof (induction es arbitrary: s c)
  case Nil
  then show ?case by simp
next
  case (Cons e es)
  from Cons.prems(2) consider (now) "nego_step md5 config lcp e s c = (Inl (Err (EchoFailed n)), c')"
    | (later) s1 c1 where "nego_step md5 config lcp e s c = (Inr (Continue s1), c1)"
        "run_events (nego_step md5 config lcp) es s1 c1 = (Inl (Err (EchoFailed n)), c')"
    by (auto simp: run_Cons)
  then show ?case
  proof cases
    case now
    from nego_step_echo_error [OF Cons.prems(1) now] show ?thesis by (simp add: is_nego_echo_def)
  next
    case later
    from Cons.IH [OF _ later(2)] nego_step_Continue [OF Cons.prems(1) later(1)]
      nego_step_echo_count [OF Cons.prems(1) later(1)]
    show ?thesis by auto
  qed
qed

text \<open>Echo supervision is not trigger-happy.  \<open>EchoFailed\<close> is only ever returned with the count six,
  and only after the echo timer has fired at least five times: the first echo request and five
  more went unanswered.\<close>

theorem negotiation_echo_failed:
  assumes "length (lr_server_mac lcp) = 6" "nego_run md5 config lcp es c = (Inl (Err (EchoFailed n)), c')"
  shows "n = 6 \<and> 5 \<le> length (filter is_nego_echo es)"
proof -
  have "nego_start config lcp c \<noteq> (Inl (Err (EchoFailed n)), c')"
    using nego_no_echo_error [OF assms(1)]
    by (simp add: nego_start_def nego_auth_def send_echo_request_def io_elims Let_def)
  then obtain s c1 where s: "nego_start config lcp c = (Inr s, c1)"
    and r: "run_events (nego_step md5 config lcp) es s c1 = (Inl (Err (EchoFailed n)), c')"
    using assms(2) by (auto simp: nego_run_def io_elims)
  from run_echo_failed [OF _ r] nego_start_inv [OF s assms(1)] nego_start_Inr [OF s] show ?thesis by auto
qed

theorem negotiation_echo_failed_witness:
  "fst (nego_run id ex_config ex_lcp (replicate 5 NgEcho) ex_chan) = Inl (Err (EchoFailed 6)) \<and>
   5 \<le> length (filter is_nego_echo (replicate 5 NgEcho))"
proof -
  have run: "fst (nego_run id ex_config ex_lcp (replicate 5 NgEcho) ex_chan) = Inl (Err (EchoFailed 6))"
    by code_simp
  then obtain c' where "nego_run id ex_config ex_lcp (replicate 5 NgEcho) ex_chan = (Inl (Err (EchoFailed 6)), c')"
    by (metis prod.collapse)
  moreover have "length (lr_server_mac ex_lcp) = 6" by (simp add: ex_lcp_def)
  ultimately show ?thesis using negotiation_echo_failed run by blast
qed

end
