(* ===== verification/Service.thy ===== *)
theory Service
  imports Net
begin

text \<open>
  The life cycle of a service instance (\<open>landscape-common/src/service/mod.rs\<close>) and the state of a WAN
  link (\<open>landscape-common/src/wan_link/state.rs\<close>, \<open>runtime_status.rs\<close>).

  A \<open>ServiceHandle\<close> is a status with a cancellation token and a tracker of the instance's tasks.  The
  token, and the tracker as the number of tasks that are alive and whether it is closed, are part
  of the state; the interleaving of the supervisor, the tasks and a stopping client is a step
  relation.  A lock is held for the whole of each write, so each write is one step.
\<close>

section \<open>Status and transitions\<close>

datatype ServiceStatus = Staring | Running | Stopping | Stop | Disabled | Failed

definition can_transition_to :: "ServiceStatus \<Rightarrow> ServiceStatus \<Rightarrow> bool" where
  "can_transition_to self target \<longleftrightarrow>
     (self, target) \<in> set
       [(Stop, Staring), (Stop, Disabled), (Failed, Staring), (Staring, Running), (Staring, Stopping),
        (Staring, Stop), (Staring, Failed), (Running, Stopping), (Running, Stop), (Running, Failed),
        (Stopping, Stop), (Stopping, Failed), (Failed, Stop)]"

definition is_exit_state :: "ServiceStatus \<Rightarrow> bool" where
  "is_exit_state s \<longleftrightarrow> s \<in> {Stopping, Stop, Disabled, Failed}"

record ServiceStatusCell =
  sc_status :: ServiceStatus
  sc_cancelled :: bool

definition ServiceStatusCell_new :: ServiceStatusCell where
  "ServiceStatusCell_new = \<lparr>sc_status = Stop, sc_cancelled = False\<rparr>"

definition is_running :: "ServiceStatusCell \<Rightarrow> bool" where
  "is_running c \<longleftrightarrow> sc_status c = Running"

definition is_stop :: "ServiceStatusCell \<Rightarrow> bool" where
  "is_stop c \<longleftrightarrow> sc_status c \<in> {Stop, Disabled, Failed}"

definition is_active :: "ServiceStatusCell \<Rightarrow> bool" where
  "is_active c \<longleftrightarrow> sc_status c \<in> {Staring, Running}"

definition is_exit :: "ServiceStatusCell \<Rightarrow> bool" where
  "is_exit c \<longleftrightarrow> is_exit_state (sc_status c)"

definition just_change_status :: "ServiceStatus \<Rightarrow> ServiceStatusCell \<Rightarrow> ServiceStatusCell" where
  "just_change_status new_status c =
     (if sc_status c = new_status then
        (if is_exit_state new_status then c\<lparr>sc_cancelled := True\<rparr> else c)
      else if can_transition_to (sc_status c) new_status then
        (let c' = c\<lparr>sc_status := new_status\<rparr>
         in if is_exit_state new_status then c'\<lparr>sc_cancelled := True\<rparr> else c')
      else c)"

definition request_stop :: "ServiceStatusCell \<Rightarrow> ServiceStatusCell" where
  "request_stop c =
     (if sc_status c = Staring \<or> sc_status c = Running then c\<lparr>sc_status := Stopping, sc_cancelled := True\<rparr>
      else c\<lparr>sc_cancelled := True\<rparr>)"

section \<open>The handle\<close>

record ServiceHandle =
  h_cell :: ServiceStatusCell
  h_tasks :: nat
  h_closed :: bool

definition ServiceHandle_new :: ServiceHandle where
  "ServiceHandle_new = \<lparr>h_cell = ServiceStatusCell_new, h_tasks = 0, h_closed = False\<rparr>"

definition spawn_task :: "ServiceHandle \<Rightarrow> ServiceHandle" where
  "spawn_task h = h\<lparr>h_tasks := h_tasks h + 1\<rparr>"

text \<open>\<open>tracker.wait()\<close> completes when the tracker is closed and no task is left.\<close>

definition tracker_done :: "ServiceHandle \<Rightarrow> bool" where
  "tracker_done h \<longleftrightarrow> h_closed h \<and> h_tasks h = 0"

text \<open>The body of the death watch, after \<open>tracker.wait()\<close>.\<close>

definition supervise_lifecycle :: "ServiceHandle \<Rightarrow> ServiceHandle" where
  "supervise_lifecycle h =
     (if sc_status (h_cell h) = Staring \<or> sc_status (h_cell h) = Running
      then h\<lparr>h_cell := just_change_status Failed (h_cell h)\<rparr> else h)"

text \<open>\<open>wait_stop\<close> before and after its wait.\<close>

definition wait_stop_begin :: "ServiceHandle \<Rightarrow> ServiceHandle" where
  "wait_stop_begin h = h\<lparr>h_cell := request_stop (h_cell h), h_closed := True\<rparr>"

definition wait_stop_end :: "ServiceHandle \<Rightarrow> ServiceHandle" where
  "wait_stop_end h =
     (if \<not> is_stop (h_cell h) then h\<lparr>h_cell := just_change_status Failed (h_cell h)\<rparr> else h)"

text \<open>
  What can happen to a handle: a task reports a status, a task is spawned or exits, the starter
  returns (which closes the tracker), the death watch fires, and a client stops the service.
\<close>

datatype svc_event =
    Report ServiceStatus
  | Spawn
  | TaskExit
  | StartReturned
  | DeathWatch
  | StopRequested
  | StopFinished

inductive svc_step :: "ServiceHandle \<Rightarrow> svc_event \<Rightarrow> ServiceHandle \<Rightarrow> bool" where
  report: "svc_step h (Report s) (h\<lparr>h_cell := just_change_status s (h_cell h)\<rparr>)"
| spawn: "svc_step h Spawn (spawn_task h)"
| task_exit: "0 < h_tasks h \<Longrightarrow> svc_step h TaskExit (h\<lparr>h_tasks := h_tasks h - 1\<rparr>)"
| start_returned: "svc_step h StartReturned (h\<lparr>h_closed := True\<rparr>)"
| death_watch: "tracker_done h \<Longrightarrow> svc_step h DeathWatch (supervise_lifecycle h)"
| stop_requested: "svc_step h StopRequested (wait_stop_begin h)"
| stop_finished: "tracker_done h \<Longrightarrow> svc_step h StopFinished (wait_stop_end h)"

inductive_cases svc_stepE: "svc_step h e h'"

inductive svc_run :: "ServiceHandle \<Rightarrow> svc_event list \<Rightarrow> ServiceHandle \<Rightarrow> bool" where
  nil: "svc_run h [] h"
| cons: "svc_step h e h1 \<Longrightarrow> svc_run h1 es h2 \<Longrightarrow> svc_run h (e # es) h2"

inductive_cases svc_run_ConsE: "svc_run h (e # es) h'"

section \<open>Lemmas on the status cell\<close>

lemma just_change_status_cases:
  "just_change_status s c = c \<or>
   sc_status (just_change_status s c) = s \<and> (sc_status c = s \<or> can_transition_to (sc_status c) s)"
  by (simp add: just_change_status_def Let_def)

lemma just_change_status_cancels:
  assumes "sc_status (just_change_status s c) = s" "is_exit_state s"
  shows "sc_cancelled (just_change_status s c)"
  using assms by (auto simp: just_change_status_def Let_def can_transition_to_def split: if_split_asm)

lemma cancelled_mono:
  "sc_cancelled c \<Longrightarrow> sc_cancelled (just_change_status s c)"
  "sc_cancelled c \<Longrightarrow> sc_cancelled (request_stop c)"
  by (simp_all add: just_change_status_def request_stop_def Let_def)

lemma change_to_Failed:
  assumes "\<not> is_stop c"
  shows "sc_status (just_change_status Failed c) = Failed \<and> sc_cancelled (just_change_status Failed c)"
  using assms
  by (cases "sc_status c") (simp_all add: is_stop_def just_change_status_def can_transition_to_def is_exit_state_def)

lemma change_to_Stop:
  assumes "sc_status c \<noteq> Disabled"
  shows "sc_status (just_change_status Stop c) = Stop \<and> sc_cancelled (just_change_status Stop c)"
  using assms
  by (cases "sc_status c") (simp_all add: just_change_status_def can_transition_to_def is_exit_state_def)

text \<open>
  The coupling of status and token: a cell that has left its initial \<open>Stop\<close> and is in an exit state
  has a cancelled token.
\<close>

definition cell_ok :: "ServiceStatusCell \<Rightarrow> bool" where
  "cell_ok c \<longleftrightarrow> c = ServiceStatusCell_new \<or> (is_exit_state (sc_status c) \<longrightarrow> sc_cancelled c)"

lemma cell_ok_new: "cell_ok ServiceStatusCell_new"
  by (simp add: cell_ok_def)

lemma cell_ok_change: "cell_ok c \<Longrightarrow> cell_ok (just_change_status s c)"
  using just_change_status_cases [of s c] just_change_status_cancels [of s c]
  by (metis cell_ok_def)

lemma cell_ok_request: "cell_ok (request_stop c)"
  by (simp add: cell_ok_def request_stop_def)

lemma svc_step_cell:
  "svc_step h e h' \<Longrightarrow> h_cell h' = h_cell h \<or> (\<exists>s. h_cell h' = just_change_status s (h_cell h)) \<or>
     h_cell h' = request_stop (h_cell h)"
  by (erule svc_stepE) (auto simp: spawn_task_def supervise_lifecycle_def wait_stop_begin_def wait_stop_end_def)

text \<open>
  The contract of the cell: what every write keeps.  \<open>keep\<close> is any predicate on cells that the two
  writes preserve; a run then preserves it.
\<close>

locale cell_invariant =
  fixes keep :: "ServiceStatusCell \<Rightarrow> bool"
  assumes change: "keep c \<Longrightarrow> keep (just_change_status s c)"
    and request: "keep c \<Longrightarrow> keep (request_stop c)"
begin

lemma step_keep: "svc_step h e h' \<Longrightarrow> keep (h_cell h) \<Longrightarrow> keep (h_cell h')"
  using svc_step_cell change request by metis

lemma run_keep: "svc_run h es h' \<Longrightarrow> keep (h_cell h) \<Longrightarrow> keep (h_cell h')"
  by (induction rule: svc_run.induct) (auto intro: step_keep)

end

interpretation svc_ok: cell_invariant cell_ok
  by unfold_locales (auto intro: cell_ok_change cell_ok_request)

interpretation svc_cancelled: cell_invariant sc_cancelled
  by unfold_locales (auto intro: cancelled_mono)

text \<open>An inactive service only becomes active again when \<open>Staring\<close> is reported.\<close>

lemma inactive_change: "\<not> is_active c \<Longrightarrow> s \<noteq> Staring \<Longrightarrow> \<not> is_active (just_change_status s c)"
  by (cases "sc_status c"; cases s) (simp_all add: is_active_def just_change_status_def can_transition_to_def Let_def)

lemma inactive_request: "\<not> is_active (request_stop c)"
  by (simp add: request_stop_def is_active_def)

lemma supervise_inactive: "\<not> is_active (h_cell (supervise_lifecycle h))"
  by (cases "sc_status (h_cell h)")
     (simp_all add: supervise_lifecycle_def is_active_def just_change_status_def can_transition_to_def Let_def)

lemma svc_step_inactive:
  assumes "svc_step h e h'" "\<not> is_active (h_cell h)" "e \<noteq> Report Staring"
  shows "\<not> is_active (h_cell h')"
  using assms(1)
proof (cases rule: svc_step.cases)
  case report
  with assms(2,3) inactive_change show ?thesis by simp
next
  case death_watch
  with supervise_inactive show ?thesis by simp
next
  case stop_requested
  with inactive_request show ?thesis by (simp add: wait_stop_begin_def)
next
  case stop_finished
  with assms(2) inactive_change show ?thesis by (simp add: wait_stop_end_def)
qed (use assms(2) in \<open>simp_all add: spawn_task_def\<close>)

lemma svc_run_inactive:
  "svc_run h es h' \<Longrightarrow> \<not> is_active (h_cell h) \<Longrightarrow> Report Staring \<notin> set es \<Longrightarrow> \<not> is_active (h_cell h')"
  by (induction rule: svc_run.induct) (auto dest: svc_step_inactive)

lemma stop_finished_is_stop: "svc_step h StopFinished h' \<Longrightarrow> is_stop (h_cell h') \<and> h_tasks h' = 0"
  by (erule svc_stepE) (use change_to_Failed in \<open>auto simp: wait_stop_end_def is_stop_def tracker_done_def\<close>)

lemma death_watch_inactive: "svc_step h DeathWatch h' \<Longrightarrow> \<not> is_active (h_cell h')"
  by (erule svc_stepE) (simp_all add: supervise_inactive)

lemma stop_requested_cancels: "svc_step h StopRequested h' \<Longrightarrow> sc_cancelled (h_cell h') \<and> \<not> is_active (h_cell h')"
  by (erule svc_stepE) (auto simp: wait_stop_begin_def request_stop_def is_active_def)

section \<open>Properties\<close>





text \<open>C27: a service that died or was stopped does not come back by itself.  After the death watch has
  fired or a stop was requested, the instance is not active, and stays so until somebody reports
  \<open>Staring\<close> on it again.\<close>

theorem service_no_resurrection:
  assumes "svc_step h0 e h1" "e = DeathWatch \<or> e = StopRequested" "svc_run h1 es h2" "Report Staring \<notin> set es"
  shows "\<not> is_active (h_cell h2)"
  using assms death_watch_inactive stop_requested_cancels svc_run_inactive by blast

theorem service_no_resurrection_witness:
  "\<not> is_active (just_change_status Running (request_stop \<lparr>sc_status = Running, sc_cancelled = False\<rparr>))"
proof -
  let ?h0 = "ServiceHandle_new\<lparr>h_cell := \<lparr>sc_status = Running, sc_cancelled = False\<rparr>\<rparr>"
  have "svc_run (wait_stop_begin ?h0) [Report Running]
      ((wait_stop_begin ?h0)\<lparr>h_cell := just_change_status Running (h_cell (wait_stop_begin ?h0))\<rparr>)"
    by (rule svc_run.cons [OF svc_step.report svc_run.nil])
  from service_no_resurrection [OF svc_step.stop_requested _ this] show ?thesis
    by (simp add: wait_stop_begin_def)
qed

end
