(* ===== verification/Wan_Link.thy ===== *)
theory Wan_Link
  imports Service
begin

text \<open>
  The shared state of a WAN link (\<open>landscape-common/src/wan_link/state.rs\<close>): the physical carrier and the
  current session, with the epoch that tells the dependent sections (NAT, MSS clamping, firewall,
  prefix delegation) to re-attach, and the displayed state of the IPv4 section
  (\<open>wan_link/runtime_status.rs\<close>).  Each operation is one \<open>send_if_modified\<close>: it returns whether
  subscribers are notified together with the new state.
\<close>

section \<open>Session and carrier\<close>

record SessionIface =
  si_ifindex :: u32
  si_iface_name :: bytes
  si_mac :: "MacAddr option"

definition SessionIface_new :: "u32 \<Rightarrow> bytes \<Rightarrow> MacAddr option \<Rightarrow> SessionIface" where
  "SessionIface_new ifindex iface_name mac = \<lparr>si_ifindex = ifindex, si_iface_name = iface_name, si_mac = mac\<rparr>"

definition has_eth_header :: "SessionIface \<Rightarrow> bool" where
  "has_eth_header i \<longleftrightarrow> si_mac i \<noteq> None"

record WanV4Lease =
  wl_ifindex :: u32
  wl_ip :: u32

definition WanV4Lease_new :: "u32 \<Rightarrow> u32 \<Rightarrow> WanV4Lease" where
  "WanV4Lease_new ifindex ip = \<lparr>wl_ifindex = ifindex, wl_ip = ip\<rparr>"

datatype SessionPhase = Down | Up SessionIface "WanV4Lease option"

fun SessionPhase_is_up :: "SessionPhase \<Rightarrow> bool" where
  "SessionPhase_is_up Down \<longleftrightarrow> False"
| "SessionPhase_is_up (Up _ _) \<longleftrightarrow> True"

fun SessionPhase_iface :: "SessionPhase \<Rightarrow> SessionIface option" where
  "SessionPhase_iface Down = None"
| "SessionPhase_iface (Up iface _) = Some iface"

record SessionState =
  ss_phase :: SessionPhase
  ss_epoch :: u64

definition has_v4_lease :: "SessionState \<Rightarrow> bool" where
  "has_v4_lease s \<longleftrightarrow> (case ss_phase s of Up _ (Some _) \<Rightarrow> True | _ \<Rightarrow> False)"

definition v4_ip :: "SessionState \<Rightarrow> u32 option" where
  "v4_ip s = (case ss_phase s of Up _ (Some lease) \<Rightarrow> Some (wl_ip lease) | _ \<Rightarrow> None)"

text \<open>\<open>LandscapeInterface\<close>: the two fields the link looks at; the record is open for the others.\<close>

record LandscapeInterface =
  li_name :: bytes
  li_index :: u32

record 'c LinkState =
  ls_carrier :: "'c LandscapeInterface_scheme option"
  ls_session :: SessionState

definition LinkStateHandle_new :: "'c LandscapeInterface_scheme option \<Rightarrow> 'c LinkState" where
  "LinkStateHandle_new carrier = \<lparr>ls_carrier = carrier, ls_session = \<lparr>ss_phase = Down, ss_epoch = 0\<rparr>\<rparr>"

definition carrier_changed ::
  "'c LandscapeInterface_scheme option \<Rightarrow> 'c LandscapeInterface_scheme option \<Rightarrow> bool" where
  "carrier_changed old new =
     (case (old, new) of
        (None, None) \<Rightarrow> False
      | (Some o1, Some n1) \<Rightarrow> li_index o1 \<noteq> li_index n1 \<or> li_name o1 \<noteq> li_name n1
      | _ \<Rightarrow> True)"

definition set_carrier :: "'c LandscapeInterface_scheme option \<Rightarrow> 'c LinkState \<Rightarrow> bool \<times> 'c LinkState" where
  "set_carrier carrier s =
     (if carrier_changed (ls_carrier s) carrier then (True, s\<lparr>ls_carrier := carrier\<rparr>) else (False, s))"

definition session_up :: "SessionIface \<Rightarrow> WanV4Lease option \<Rightarrow> 'c LinkState \<Rightarrow> bool \<times> 'c LinkState" where
  "session_up iface lease s =
     (let new_phase = Up iface lease
      in if ss_phase (ls_session s) = new_phase then (False, s)
         else (True, s\<lparr>ls_session := \<lparr>ss_phase = new_phase, ss_epoch = ss_epoch (ls_session s) + 1\<rparr>\<rparr>))"

definition session_down :: "'c LinkState \<Rightarrow> bool \<times> 'c LinkState" where
  "session_down s =
     (if \<not> SessionPhase_is_up (ss_phase (ls_session s)) then (False, s)
      else (True, s\<lparr>ls_session := (ls_session s)\<lparr>ss_phase := Down\<rparr>\<rparr>))"

section \<open>Displayed state\<close>

datatype DhcpV4Runtime =
    Discovering u64 u32
  | Requesting u32
  | Bound u32 u8 u64 u64
  | Renewing u32
  | Rebinding u32

datatype PppoeRuntime =
    Dialing
  | Negotiating
  | Online u32 u32 u16
  | RedialBackoff u64 u64

datatype PppdRuntime =
    Spawning
  | WaitingAddr "u32 option" "u32 option"
  | PppdOnline u32 u32
  | RestartBackoff u32 u64

datatype V4Runtime =
    Idle
  | Dhcp DhcpV4Runtime
  | Pppoe PppoeRuntime
  | Pppd PppdRuntime
  | Static u32
  | IdleAnchor
  | Stopped

text \<open>\<open>swap_if_changed\<close>: the flag tells whether the slot was stored to.\<close>

definition swap_if_changed :: "'a \<Rightarrow> 'a \<Rightarrow> bool \<times> 'a" where
  "swap_if_changed slot v = (if slot \<noteq> v then (True, v) else (False, slot))"

lemma swap_if_changed_value [simp]: "snd (swap_if_changed slot v) = v"
  by (simp add: swap_if_changed_def)

section \<open>The epoch\<close>

datatype 'c link_op = SetCarrier "'c LandscapeInterface_scheme option" | SessionUp SessionIface "WanV4Lease option" | SessionDown

fun link_step :: "'c link_op \<Rightarrow> 'c LinkState \<Rightarrow> bool \<times> 'c LinkState" where
  "link_step (SetCarrier c) s = set_carrier c s"
| "link_step (SessionUp i l) s = session_up i l s"
| "link_step SessionDown s = session_down s"

definition link_run :: "'c link_op list \<Rightarrow> 'c LinkState \<Rightarrow> 'c LinkState" where
  "link_run ops s = fold (\<lambda>op s. snd (link_step op s)) ops s"

lemma link_run_simps [simp]:
  "link_run [] s = s"
  "link_run (op # ops) s = link_run ops (snd (link_step op s))"
  by (simp_all add: link_run_def)

text \<open>How far the epoch moves, and what a still epoch means.\<close>

lemma link_step_epoch:
  "\<exists>k\<le>1. ss_epoch (ls_session (snd (link_step op s))) = ss_epoch (ls_session s) + word_of_nat k \<and>
     (k = 0 \<longrightarrow> ss_phase (ls_session (snd (link_step op s))) = ss_phase (ls_session s) \<or>
               ss_phase (ls_session (snd (link_step op s))) = Down)"
proof (cases op)
  case (SetCarrier c)
  then show ?thesis by (intro exI [of _ 0]) (simp add: set_carrier_def)
next
  case (SessionUp i l)
  then show ?thesis
    by (cases "ss_phase (ls_session s) = Up i l")
       (auto simp: session_up_def intro: exI [of _ 0] exI [of _ 1])
next
  case SessionDown
  then show ?thesis by (intro exI [of _ 0]) (simp add: session_down_def)
qed

lemma link_run_epoch:
  "\<exists>k\<le>length ops. ss_epoch (ls_session (link_run ops s)) = ss_epoch (ls_session s) + word_of_nat k \<and>
     (k = 0 \<longrightarrow> ss_phase (ls_session (link_run ops s)) = ss_phase (ls_session s) \<or>
               ss_phase (ls_session (link_run ops s)) = Down)"
proof (induction ops arbitrary: s)
  case Nil
  then show ?case by simp
next
  case (Cons op ops)
  let ?s1 = "snd (link_step op s)"
  obtain k1 where k1: "k1 \<le> 1" "ss_epoch (ls_session ?s1) = ss_epoch (ls_session s) + word_of_nat k1"
    "k1 = 0 \<longrightarrow> ss_phase (ls_session ?s1) = ss_phase (ls_session s) \<or> ss_phase (ls_session ?s1) = Down"
    using link_step_epoch by blast
  obtain k2 where k2: "k2 \<le> length ops"
    "ss_epoch (ls_session (link_run ops ?s1)) = ss_epoch (ls_session ?s1) + word_of_nat k2"
    "k2 = 0 \<longrightarrow> ss_phase (ls_session (link_run ops ?s1)) = ss_phase (ls_session ?s1) \<or>
       ss_phase (ls_session (link_run ops ?s1)) = Down"
    using Cons.IH [of ?s1] by blast
  show ?case
    using k1 k2 by (intro exI [of _ "k1 + k2"]) auto
qed

lemma word_of_nat_u64_0: "n < 2 ^ 64 \<Longrightarrow> (word_of_nat n :: u64) = 0 \<longleftrightarrow> n = 0"
  by (auto simp: word_of_nat_eq_0_iff dest: dvd_imp_le)

section \<open>Properties\<close>

text \<open>C28: the epoch never hides a new session.  If two snapshots of a link, fewer than \<open>2^64\<close> operations
  apart, both show a session that is up and carry the same epoch, then it is the same session on
  the same interface with the same lease; so a dependent section that re-attaches when the epoch
  changes never keeps working on a stale one.\<close>

theorem link_epoch_identifies_session:
  assumes "length ops < 2 ^ 64" "SessionPhase_is_up (ss_phase (ls_session (link_run ops s)))"
    "ss_epoch (ls_session (link_run ops s)) = ss_epoch (ls_session s)"
  shows "ss_phase (ls_session (link_run ops s)) = ss_phase (ls_session s)"
proof -
  obtain k where "k \<le> length ops" "ss_epoch (ls_session (link_run ops s)) = ss_epoch (ls_session s) + word_of_nat k"
    and z: "k = 0 \<longrightarrow> ss_phase (ls_session (link_run ops s)) = ss_phase (ls_session s) \<or>
       ss_phase (ls_session (link_run ops s)) = Down"
    using link_run_epoch by blast
  with assms(1,3) word_of_nat_u64_0 [of k] have "k = 0" by simp
  with z assms(2) show ?thesis by auto
qed

definition ex_link :: "unit LinkState" where
  "ex_link = snd (session_up (SessionIface_new 3 [] None) (Some (WanV4Lease_new 3 0x0a000002)) (LinkStateHandle_new None))"

theorem link_epoch_identifies_session_witness:
  "ss_phase (ls_session (link_run [SetCarrier (Some \<lparr>li_name = [], li_index = 3\<rparr>),
      SessionUp (SessionIface_new 3 [] None) (Some (WanV4Lease_new 3 0x0a000002))] ex_link)) =
   ss_phase (ls_session ex_link)"
  by (rule link_epoch_identifies_session) (simp, code_simp, code_simp)

end
