(* ===== verification/Pppoe_Session.thy ===== *)
theory Pppoe_Session
  imports Pppoe_Negotiation Wan_Link
begin

text \<open>
  The life of a PPPoE session (\<open>pppoe_client/runtime.rs\<close>): the dial loop with its backoff, which runs
  phase 1, phase 2, brings the session up, supervises it with \<open>keepalive\<close> and tears it down.

  The loop's state is a record: the retry counter, the session handle, the service's status cell,
  the link state, the displayed state and the eBPF channel.  Creating the system state of a
  session (\<open>system.rs\<close>: netlink, routes, eBPF maps) is outside; its result, a handle or an error,
  is an input of the iteration, as are the events of each phase, the outcome of the backoff's
  \<open>select!\<close>, a restarted channel, and stop requests of the service's owner.  The handles that were
  created and shut down are logged.
\<close>

section \<open>Keepalive\<close>

datatype ka_state = Alive u8 u8 | HangingUp

datatype ka_event = KaStop | KaRecv "bytes option" | KaEcho | KaAckWait

definition rt_parse_ppp_packet :: "bytes \<Rightarrow> u16 \<Rightarrow> PointToPoint option" where
  "rt_parse_ppp_packet raw session_id =
     (if length raw < 16 then None
      else if u16_from_be_bytes (raw ! 12) (raw ! 13) \<noteq> ETH_P_PPOES then None
      else case PPPoEFrame_new (drop 14 raw) of
             None \<Rightarrow> None
           | Some frame \<Rightarrow>
               if fr_sid frame \<noteq> session_id then None
               else if is_terminate frame then None
               else PointToPoint_new (fr_payload frame))"

lemma rt_parse_ppp_packet_eq: "rt_parse_ppp_packet raw (lr_session_id lcp) = parse_ppp_packet raw lcp"
  by (simp add: rt_parse_ppp_packet_def parse_ppp_packet_def)

text \<open>The stop branch: the Terminate-Request, then at most two seconds for the Terminate-Ack.\<close>

definition ka_hang_up ::
  "PPPoEClientConfig \<Rightarrow> LcpPhaseResult \<Rightarrow> u8 \<Rightarrow> (ka_state, unit) flow io" where
  "ka_hang_up config lcp echo_req_id = (\<lambda>c.
     case send_session config lcp (PointToPoint_convert_to_payload (get_termination_request echo_req_id)) c of
       (Inl Panic, c') \<Rightarrow> (Inl Panic, c')
     | (Inl (Err _), c') \<Rightarrow> (Inl (Err ServiceStopped), c')
     | (Inr _, c') \<Rightarrow> io_then (reset_timeout 2) (io_return (Continue HangingUp)) c')"

definition ka_await_ack :: "LcpPhaseResult \<Rightarrow> bytes \<Rightarrow> (ka_state, unit) flow io" where
  "ka_await_ack lcp raw =
     (case rt_parse_ppp_packet raw (lr_session_id lcp) of
        None \<Rightarrow> io_return (Continue HangingUp)
      | Some ppp \<Rightarrow>
          if is_lcp_config ppp \<and> is_termination_ack ppp then io_throw (Err ServiceStopped)
          else io_return (Continue HangingUp))"

definition on_ka_recv ::
  "PPPoEClientConfig \<Rightarrow> LcpPhaseResult \<Rightarrow> bytes \<Rightarrow> u8 \<Rightarrow> u8 \<Rightarrow> (ka_state, unit) flow io" where
  "on_ka_recv config lcp raw echo_req_id echo_failures =
     (case rt_parse_ppp_packet raw (lr_session_id lcp) of
        None \<Rightarrow> io_return (Continue (Alive echo_req_id echo_failures))
      | Some ppp \<Rightarrow>
          if \<not> is_lcp_config ppp then io_return (Continue (Alive echo_req_id echo_failures))
          else if is_echo_request ppp then
            io_then (send_session config lcp (gen_reply_with_magic ppp (lr_magic_number lcp)))
              (io_return (Continue (Alive echo_req_id 0)))
          else if is_echo_reply ppp then io_return (Continue (Alive (echo_req_id + 1) 0))
          else if is_termination ppp then
            io_then (send_session config lcp (get_termination_ack ppp)) (io_throw (Err PeerTerminated))
          else if is_termination_ack ppp then io_throw (Err PeerTerminated)
          else io_return (Continue (Alive echo_req_id echo_failures)))"

definition on_ka_echo ::
  "PPPoEClientConfig \<Rightarrow> LcpPhaseResult \<Rightarrow> u8 \<Rightarrow> u8 \<Rightarrow> (ka_state, unit) flow io" where
  "on_ka_echo config lcp echo_req_id echo_failures =
     io_then (send_session config lcp (gen_echo_request_with_magic echo_req_id (lr_magic_number lcp)))
       (let echo_failures' = echo_failures + 1
        in if echo_failures' > MAX_ECHO_FAILURES then io_throw (Err (EchoFailed echo_failures'))
           else io_then (reset_echo (echo_interval config))
                  (io_return (Continue (Alive echo_req_id echo_failures'))))"

text \<open>While the client hangs up, the outer \<open>select!\<close> is not polled: only frames and the two-second
  timer are seen.\<close>

fun ka_step ::
  "PPPoEClientConfig \<Rightarrow> LcpPhaseResult \<Rightarrow> ka_event \<Rightarrow> ka_state \<Rightarrow> (ka_state, unit) flow io" where
  "ka_step config lcp KaStop (Alive i f) = ka_hang_up config lcp i"
| "ka_step config lcp (KaRecv None) (Alive i f) = io_throw (Err ChannelClosed)"
| "ka_step config lcp (KaRecv (Some raw)) (Alive i f) = on_ka_recv config lcp raw i f"
| "ka_step config lcp KaEcho (Alive i f) = on_ka_echo config lcp i f"
| "ka_step config lcp KaAckWait (Alive i f) = io_return (Continue (Alive i f))"
| "ka_step config lcp (KaRecv None) HangingUp = io_throw (Err ServiceStopped)"
| "ka_step config lcp (KaRecv (Some raw)) HangingUp = ka_await_ack lcp raw"
| "ka_step config lcp KaAckWait HangingUp = io_throw (Err ServiceStopped)"
| "ka_step config lcp _ HangingUp = io_return (Continue HangingUp)"

definition ka_start :: "PPPoEClientConfig \<Rightarrow> LcpPhaseResult \<Rightarrow> u8 \<Rightarrow> ka_state io" where
  "ka_start config lcp initial_echo_id =
     io_then (send_session config lcp (gen_echo_request_with_magic initial_echo_id (lr_magic_number lcp)))
       (io_then (reset_echo (echo_interval config)) (io_return (Alive (initial_echo_id + 1) 1)))"

definition keepalive ::
  "PPPoEClientConfig \<Rightarrow> LcpPhaseResult \<Rightarrow> u8 \<Rightarrow> ka_event list \<Rightarrow> (ka_state, unit) flow io" where
  "keepalive config lcp initial_echo_id es =
     io_bind (ka_start config lcp initial_echo_id) (run_events (ka_step config lcp) es)"

section \<open>The dial loop\<close>

record ('h, 'c) rt =
  rt_retry :: u64
  rt_handle :: "'h option"
  rt_cell :: ServiceStatusCell
  rt_link :: "'c LinkState option"
  rt_v4 :: V4Runtime
  rt_chan :: chan
  rt_created :: "'h list"
  rt_shutdowns :: "'h list"

record 'h rt_env =
  ev_backoff_stop :: bool
  ev_rx_closed :: bool
  ev_restart :: "chan option"
  ev_stop_early :: bool
  ev_stop_late :: bool
  ev_pid :: u32
  ev_unix_secs :: nat
  ev_p1 :: "p1_event list"
  ev_nego :: "nego_event list"
  ev_create :: "'h option"
  ev_ka :: "ka_event list"

text \<open>
  How an iteration ends: \<open>continue\<close>, \<open>break\<close>, still waiting in one of the phases when the events are
  used up, or a panic.
\<close>

datatype 's rt_flow = Again 's | Exit 's | Suspended 's | Crashed 's

definition shutdown_session :: "('h, 'c) rt \<Rightarrow> ('h, 'c) rt" where
  "shutdown_session s =
     s\<lparr>rt_handle := None,
       rt_shutdowns := rt_shutdowns s @ (case rt_handle s of None \<Rightarrow> [] | Some h \<Rightarrow> [h]),
       rt_link := map_option (\<lambda>l. snd (session_down l)) (rt_link s)\<rparr>"

definition rt_set_v4 :: "V4Runtime \<Rightarrow> ('h, 'c) rt \<Rightarrow> ('h, 'c) rt" where
  "rt_set_v4 v s = s\<lparr>rt_v4 := snd (swap_if_changed (rt_v4 s) v)\<rparr>"

definition rt_status :: "ServiceStatus \<Rightarrow> ('h, 'c) rt \<Rightarrow> ('h, 'c) rt" where
  "rt_status st s = s\<lparr>rt_cell := just_change_status st (rt_cell s)\<rparr>"

definition rt_owner_stop :: "bool \<Rightarrow> ('h, 'c) rt \<Rightarrow> ('h, 'c) rt" where
  "rt_owner_stop b s = (if b then s\<lparr>rt_cell := request_stop (rt_cell s)\<rparr> else s)"

definition rt_break :: "ServiceStatus \<Rightarrow> ('h, 'c) rt \<Rightarrow> ('h, 'c) rt rt_flow" where
  "rt_break st s = Exit (rt_status st (shutdown_session s))"

definition rt_redial :: "('h, 'c) rt \<Rightarrow> ('h, 'c) rt rt_flow" where
  "rt_redial s = Again ((shutdown_session s)\<lparr>rt_retry := rt_retry s + 1\<rparr>)"

text \<open>The error arms of the two dialling phases.\<close>

definition on_phase_error :: "PppoeError \<Rightarrow> ('h, 'c) rt \<Rightarrow> ('h, 'c) rt rt_flow" where
  "on_phase_error e s =
     (if is_fatal e then rt_break Failed s
      else if e = ServiceStopped then rt_break Stop s
      else rt_redial s)"

definition backoff_delay :: "PPPoEClientConfig \<Rightarrow> u64 \<Rightarrow> u64" where
  "backoff_delay config retry_count =
     (let backoff_base = (case cfg_redial_backoff_base_secs config of Some b \<Rightarrow> word_of_nat b | None \<Rightarrow> 5 * 60)
      in min (backoff_base * retry_count) (30 * 60))"

definition rt_keepalive ::
  "PPPoEClientConfig \<Rightarrow> 'h rt_env \<Rightarrow> LcpPhaseResult \<Rightarrow> NegotiationResult \<Rightarrow> ('h, 'c) rt \<Rightarrow> ('h, 'c) rt rt_flow" where
  "rt_keepalive config env lcp nego s =
     (case keepalive config lcp (nr_echo_req_id nego) (ev_ka env) (rt_chan s) of
        (Inl Panic, c) \<Rightarrow> Crashed (s\<lparr>rt_chan := c\<rparr>)
      | (Inl (Err e), c) \<Rightarrow>
          (if e = ServiceStopped then rt_break Stop (s\<lparr>rt_chan := c\<rparr>) else rt_redial (s\<lparr>rt_chan := c\<rparr>))
      | (Inr (Done _), c) \<Rightarrow> rt_break Stop (s\<lparr>rt_chan := c\<rparr>)
      | (Inr (Continue _), c) \<Rightarrow> Suspended (s\<lparr>rt_chan := c\<rparr>))"

definition rt_session_up ::
  "PPPoEClientConfig \<Rightarrow> LcpPhaseResult \<Rightarrow> NegotiationResult \<Rightarrow> 'h \<Rightarrow> ('h, 'c) rt \<Rightarrow> ('h, 'c) rt" where
  "rt_session_up config lcp nego h s =
     (let s1 = rt_set_v4 (Pppoe (Online (nr_client_ip nego) (nr_server_ip nego) (lr_session_id lcp)))
                 (s\<lparr>rt_handle := Some h, rt_created := rt_created s @ [h]\<rparr>);
          s2 = s1\<lparr>rt_link := map_option (\<lambda>l. snd (session_up
                  (SessionIface_new (cfg_index config) (cfg_iface_name config) (Some (cfg_iface_mac config)))
                  (Some (WanV4Lease_new (cfg_index config) (nr_client_ip nego))) l)) (rt_link s1)\<rparr>
      in if \<not> is_running (rt_cell s2) then rt_status Running s2 else s2)"

definition rt_establish ::
  "PPPoEClientConfig \<Rightarrow> 'h rt_env \<Rightarrow> LcpPhaseResult \<Rightarrow> NegotiationResult \<Rightarrow> ('h, 'c) rt \<Rightarrow> ('h, 'c) rt rt_flow" where
  "rt_establish config env lcp nego s =
     (let s1 = shutdown_session s
      in case ev_create env of
           None \<Rightarrow> Exit (rt_status Failed s1)
         | Some h \<Rightarrow>
             rt_keepalive config env lcp nego
               (rt_owner_stop (ev_stop_late env) ((rt_session_up config lcp nego h s1)\<lparr>rt_retry := 0\<rparr>)))"

definition rt_negotiate ::
  "(bytes \<Rightarrow> bytes) \<Rightarrow> PPPoEClientConfig \<Rightarrow> 'h rt_env \<Rightarrow> LcpPhaseResult \<Rightarrow> ('h, 'c) rt \<Rightarrow> ('h, 'c) rt rt_flow" where
  "rt_negotiate md5 config env lcp s =
     (let s1 = rt_set_v4 (Pppoe Negotiating) s
      in case nego_run md5 config lcp (ev_nego env) (rt_chan s1) of
           (Inl Panic, c) \<Rightarrow> Crashed (s1\<lparr>rt_chan := c\<rparr>)
         | (Inl (Err e), c) \<Rightarrow> on_phase_error e (s1\<lparr>rt_chan := c\<rparr>)
         | (Inr (Continue _), c) \<Rightarrow> Suspended (s1\<lparr>rt_chan := c\<rparr>)
         | (Inr (Done nego), c) \<Rightarrow> rt_establish config env lcp nego (s1\<lparr>rt_chan := c\<rparr>))"

definition rt_dial ::
  "(bytes \<Rightarrow> bytes) \<Rightarrow> PPPoEClientConfig \<Rightarrow> 'h rt_env \<Rightarrow> ('h, 'c) rt \<Rightarrow> ('h, 'c) rt rt_flow" where
  "rt_dial md5 config env s =
     (let s1 = rt_set_v4 (Pppoe Dialing) s
      in case p1_run config (ev_pid env) (ev_unix_secs env) (ev_p1 env) (rt_chan s1) of
           (Inl Panic, c) \<Rightarrow> Crashed (s1\<lparr>rt_chan := c\<rparr>)
         | (Inl (Err e), c) \<Rightarrow> on_phase_error e (s1\<lparr>rt_chan := c\<rparr>)
         | (Inr (Continue _), c) \<Rightarrow> Suspended (s1\<lparr>rt_chan := c\<rparr>)
         | (Inr (Done lcp), c) \<Rightarrow> rt_negotiate md5 config env lcp (s1\<lparr>rt_chan := c, rt_retry := 0\<rparr>))"

text \<open>\<open>if rx.is_closed() { .. }\<close>\<close>

definition rt_channel ::
  "(bytes \<Rightarrow> bytes) \<Rightarrow> PPPoEClientConfig \<Rightarrow> 'h rt_env \<Rightarrow> ('h, 'c) rt \<Rightarrow> ('h, 'c) rt rt_flow" where
  "rt_channel md5 config env s =
     (if ev_rx_closed env then
        (case ev_restart env of
           Some c \<Rightarrow> rt_dial md5 config env (s\<lparr>rt_chan := c\<rparr>)
         | None \<Rightarrow> Again (s\<lparr>rt_retry := rt_retry s + 1\<rparr>))
      else rt_dial md5 config env s)"

text \<open>One iteration: the backoff, then the rest.\<close>

definition rt_iteration ::
  "(bytes \<Rightarrow> bytes) \<Rightarrow> PPPoEClientConfig \<Rightarrow> 'h rt_env \<Rightarrow> ('h, 'c) rt \<Rightarrow> ('h, 'c) rt rt_flow" where
  "rt_iteration md5 config env s =
     (let s0 = rt_owner_stop (ev_stop_early env) s
      in if rt_retry s0 > 0 then
           (let s1 = rt_set_v4 (Pppoe (RedialBackoff (rt_retry s0) (backoff_delay config (rt_retry s0)))) s0
            in if ev_backoff_stop env then rt_break Stop s1 else rt_channel md5 config env s1)
         else rt_channel md5 config env s0)"

fun rt_loop ::
  "(bytes \<Rightarrow> bytes) \<Rightarrow> PPPoEClientConfig \<Rightarrow> 'h rt_env list \<Rightarrow> ('h, 'c) rt \<Rightarrow> ('h, 'c) rt rt_flow" where
  "rt_loop md5 config [] s = Suspended s"
| "rt_loop md5 config (env # envs) s =
     (case rt_iteration md5 config env s of
        Again s' \<Rightarrow> rt_loop md5 config envs s'
      | Exit s' \<Rightarrow> Exit (rt_set_v4 Stopped s')
      | Suspended s' \<Rightarrow> Suspended s'
      | Crashed s' \<Rightarrow> Crashed s')"

definition rt_init :: "'c LinkState option \<Rightarrow> V4Runtime \<Rightarrow> chan \<Rightarrow> ('h, 'c) rt" where
  "rt_init link v4 ch =
     \<lparr>rt_retry = 0, rt_handle = None, rt_cell = ServiceStatusCell_new, rt_link = link, rt_v4 = v4,
      rt_chan = ch, rt_created = [], rt_shutdowns = []\<rparr>"

text \<open>\<open>run\<close>: \<open>start\<close> is the result of the first \<open>landscape_ebpf::pppoe::start\<close>.\<close>

definition rt_run ::
  "(bytes \<Rightarrow> bytes) \<Rightarrow> PPPoEClientConfig \<Rightarrow> 'c LinkState option \<Rightarrow> V4Runtime \<Rightarrow> chan option \<Rightarrow> 'h rt_env list \<Rightarrow> ('h, 'c) rt rt_flow" where
  "rt_run md5 config link v4 start envs =
     (case start of
        None \<Rightarrow> Exit (rt_status Stop (rt_status Staring (rt_init link v4 \<lparr>effects = [], closed_after = Some 0\<rparr>)))
      | Some ch \<Rightarrow> rt_loop md5 config envs (rt_status Staring (rt_init link v4 ch)))"

section \<open>Resources of the loop\<close>

definition link_down :: "'c LinkState option \<Rightarrow> bool" where
  "link_down l \<longleftrightarrow> (case l of None \<Rightarrow> True | Some s \<Rightarrow> \<not> SessionPhase_is_up (ss_phase (ls_session s)))"

text \<open>Every handle that was created has been shut down, in order, except the current one.\<close>

definition rt_accounted :: "('h, 'c) rt \<Rightarrow> bool" where
  "rt_accounted s \<longleftrightarrow> rt_created s = rt_shutdowns s @ (case rt_handle s of None \<Rightarrow> [] | Some h \<Rightarrow> [h]) \<and>
     sc_status (rt_cell s) \<in> {Staring, Running, Stopping}"

definition rt_clean :: "('h, 'c) rt \<Rightarrow> bool" where
  "rt_clean s \<longleftrightarrow> rt_handle s = None \<and> rt_shutdowns s = rt_created s \<and> link_down (rt_link s)"

definition rt_flow_ok :: "('h, 'c) rt rt_flow \<Rightarrow> bool" where
  "rt_flow_ok f \<longleftrightarrow>
     (case f of
        Again s \<Rightarrow> rt_clean s \<and> sc_status (rt_cell s) \<in> {Staring, Running, Stopping}
      | Exit s \<Rightarrow> rt_clean s \<and> sc_status (rt_cell s) \<in> {Stop, Failed} \<and> sc_cancelled (rt_cell s)
      | Suspended s \<Rightarrow> rt_accounted s
      | Crashed s \<Rightarrow> True)"

lemma session_down_is_down: "\<not> SessionPhase_is_up (ss_phase (ls_session (snd (session_down l))))"
  by (simp add: session_down_def)

lemma shutdown_clean: "rt_accounted s \<Longrightarrow> rt_clean (shutdown_session s)"
  by (auto simp: rt_accounted_def rt_clean_def shutdown_session_def link_down_def session_down_is_down
      split: option.splits)

lemma shutdown_fields [simp]:
  "rt_cell (shutdown_session s) = rt_cell s" "rt_v4 (shutdown_session s) = rt_v4 s"
  "rt_chan (shutdown_session s) = rt_chan s" "rt_retry (shutdown_session s) = rt_retry s"
  by (simp_all add: shutdown_session_def)

lemma clean_accounted:
  "rt_clean s \<Longrightarrow> sc_status (rt_cell s) \<in> {Staring, Running, Stopping} \<Longrightarrow> rt_accounted s"
  by (simp add: rt_clean_def rt_accounted_def)

lemma rt_clean_irrelevant [simp]:
  "rt_clean (rt_set_v4 v s) = rt_clean s" "rt_clean (rt_status st s) = rt_clean s"
  "rt_clean (s\<lparr>rt_chan := c\<rparr>) = rt_clean s" "rt_clean (s\<lparr>rt_retry := n\<rparr>) = rt_clean s"
  "rt_clean (rt_owner_stop b s) = rt_clean s"
  by (simp_all add: rt_clean_def rt_set_v4_def rt_status_def rt_owner_stop_def)

lemma rt_accounted_irrelevant [simp]:
  "rt_accounted (rt_set_v4 v s) = rt_accounted s" "rt_accounted (s\<lparr>rt_chan := c\<rparr>) = rt_accounted s"
  "rt_accounted (s\<lparr>rt_retry := n\<rparr>) = rt_accounted s"
  by (simp_all add: rt_accounted_def rt_set_v4_def)

lemma rt_accounted_owner_stop: "rt_accounted s \<Longrightarrow> rt_accounted (rt_owner_stop b s)"
  by (auto simp: rt_accounted_def rt_owner_stop_def request_stop_def)

lemma live_to_final:
  assumes "sc_status c \<in> {Staring, Running, Stopping}" "st \<in> {Stop, Failed}"
  shows "sc_status (just_change_status st c) = st \<and> sc_cancelled (just_change_status st c)"
  using assms change_to_Stop [of c] change_to_Failed [of c] by (auto simp: is_stop_def)

lemma live_to_Running:
  assumes "sc_status c \<in> {Staring, Running, Stopping}"
  shows "sc_status (just_change_status Running c) \<in> {Staring, Running, Stopping}"
  using assms just_change_status_cases [of Running c] by auto

lemma rt_break_ok: "rt_accounted s \<Longrightarrow> st \<in> {Stop, Failed} \<Longrightarrow> rt_flow_ok (rt_break st s)"
  using shutdown_clean [of s] live_to_final [of "rt_cell s" st]
  by (auto simp: rt_flow_ok_def rt_break_def rt_accounted_def rt_status_def rt_clean_def)

lemma rt_redial_ok: "rt_accounted s \<Longrightarrow> rt_flow_ok (rt_redial s)"
  using shutdown_clean [of s] by (auto simp: rt_flow_ok_def rt_redial_def rt_accounted_def)

lemma on_phase_error_ok: "rt_accounted s \<Longrightarrow> rt_flow_ok (on_phase_error e s)"
  by (simp add: on_phase_error_def rt_break_ok rt_redial_ok)

lemma suspended_ok: "rt_accounted s \<Longrightarrow> rt_flow_ok (Suspended s)"
  by (simp add: rt_flow_ok_def)

lemma crashed_ok: "rt_flow_ok (Crashed s)"
  by (simp add: rt_flow_ok_def)

lemmas rt_ok_intros = rt_break_ok rt_redial_ok on_phase_error_ok suspended_ok crashed_ok

lemma rt_keepalive_ok: "rt_accounted s \<Longrightarrow> rt_flow_ok (rt_keepalive config env lcp nego s)"
  by (auto simp: rt_keepalive_def rt_ok_intros split: prod.split sum.split abort.split flow.split)

lemma rt_session_up_accounted:
  assumes "rt_clean s" "sc_status (rt_cell s) \<in> {Staring, Running, Stopping}"
  shows "rt_accounted (rt_session_up config lcp nego h s)"
  using assms live_to_Running [of "rt_cell s"]
  by (simp add: rt_session_up_def rt_accounted_def rt_clean_def rt_set_v4_def rt_status_def Let_def)

lemma rt_establish_ok:
  assumes "rt_accounted s"
  shows "rt_flow_ok (rt_establish config env lcp nego s)"
proof (cases "ev_create env")
  case None
  then show ?thesis
    using shutdown_clean [OF assms] live_to_final [of "rt_cell s" Failed] assms
    by (simp add: rt_establish_def rt_flow_ok_def rt_status_def rt_accounted_def rt_clean_def)
next
  case (Some h)
  have "rt_accounted (rt_session_up config lcp nego h (shutdown_session s))"
    using shutdown_clean [OF assms] assms by (intro rt_session_up_accounted) (simp_all add: rt_accounted_def)
  then show ?thesis
    using Some by (simp add: rt_establish_def rt_keepalive_ok rt_accounted_owner_stop)
qed

lemma rt_negotiate_ok: "rt_accounted s \<Longrightarrow> rt_flow_ok (rt_negotiate md5 config env lcp s)"
  by (auto simp: rt_negotiate_def Let_def rt_ok_intros rt_establish_ok split: prod.split sum.split abort.split flow.split)

lemma rt_dial_ok: "rt_accounted s \<Longrightarrow> rt_flow_ok (rt_dial md5 config env s)"
  by (auto simp: rt_dial_def Let_def rt_ok_intros rt_negotiate_ok split: prod.split sum.split abort.split flow.split)

lemma again_ok: "rt_accounted s \<Longrightarrow> rt_clean s \<Longrightarrow> rt_flow_ok (Again (s\<lparr>rt_retry := n\<rparr>))"
  by (simp add: rt_flow_ok_def rt_accounted_def)

lemma rt_channel_ok: "rt_accounted s \<Longrightarrow> rt_clean s \<Longrightarrow> rt_flow_ok (rt_channel md5 config env s)"
  by (simp add: rt_channel_def rt_dial_ok again_ok split: option.split)

lemma rt_iteration_ok:
  assumes "rt_clean s" "sc_status (rt_cell s) \<in> {Staring, Running, Stopping}"
  shows "rt_flow_ok (rt_iteration md5 config env s)"
proof -
  let ?s0 = "rt_owner_stop (ev_stop_early env) s"
  have acc: "rt_accounted ?s0" using assms clean_accounted rt_accounted_owner_stop by blast
  show ?thesis using acc assms(1) by (simp add: rt_iteration_def Let_def rt_break_ok rt_channel_ok)
qed

lemma rt_loop_ok:
  assumes "rt_clean s" "sc_status (rt_cell s) \<in> {Staring, Running, Stopping}"
  shows "rt_flow_ok (rt_loop md5 config envs s)"
  using assms
proof (induction envs arbitrary: s)
  case Nil
  then show ?case by (simp add: rt_flow_ok_def clean_accounted)
next
  case (Cons env envs)
  from rt_iteration_ok [OF Cons.prems, of md5 config env] Cons.IH show ?case
    by (cases "rt_iteration md5 config env s") (auto simp: rt_flow_ok_def rt_set_v4_def rt_clean_def)
qed

lemma rt_loop_Exit_v4: "rt_loop md5 config envs s = Exit t \<Longrightarrow> rt_v4 t = Stopped"
proof (induction envs arbitrary: s)
  case (Cons env envs)
  then show ?case
    by (cases "rt_iteration md5 config env s") (auto simp: rt_set_v4_def)
qed simp

lemma rt_start_clean:
  assumes "link_down link"
  shows "rt_clean (rt_init link v4 ch)"
    and "sc_status (rt_cell (rt_status Staring (rt_init link v4 ch))) = Staring"
  using assms
  by (simp_all add: rt_clean_def rt_init_def rt_status_def ServiceStatusCell_new_def just_change_status_def
      can_transition_to_def is_exit_state_def)

section \<open>Keepalive\<close>

text \<open>An LCP echo frame of the peer on this session.\<close>

definition peer_echo :: "LcpPhaseResult \<Rightarrow> ka_event \<Rightarrow> bool" where
  "peer_echo lcp e \<longleftrightarrow>
     (case e of
        KaRecv (Some raw) \<Rightarrow>
          (case rt_parse_ppp_packet raw (lr_session_id lcp) of
             Some ppp \<Rightarrow> is_lcp_config ppp \<and> (is_echo_request ppp \<or> is_echo_reply ppp)
           | None \<Rightarrow> False)
      | _ \<Rightarrow> False)"

definition is_ka_echo :: "ka_event \<Rightarrow> bool" where
  "is_ka_echo e \<longleftrightarrow> e = KaEcho"

lemma ka_hang_up_result:
  assumes "ka_hang_up config lcp i c = (r, c')"
  shows "r = Inl Panic \<and> (\<exists>p. send_session config lcp p c = (Inl Panic, c')) \<or>
     r = Inl (Err ServiceStopped) \<or> r = Inr (Continue HangingUp)"
proof (cases rule: io_total [of "send_session config lcp (PointToPoint_convert_to_payload (get_termination_request i))" c])
  case (ret x c1)
  with assms have "r = Inr (Continue HangingUp)"
    by (simp add: ka_hang_up_def io_then_def io_bind_def io_return_def reset_ok)
  then show ?thesis by blast
next
  case (err e c1)
  with assms have "r = Inl (Err ServiceStopped)" by (simp add: ka_hang_up_def)
  then show ?thesis by blast
next
  case (panic c1)
  with assms have "r = Inl Panic" "c' = c1" by (simp_all add: ka_hang_up_def)
  with panic show ?thesis by blast
qed

lemma ka_step_no_panic:
  assumes "length (lr_server_mac lcp) = 6"
  shows "ka_step config lcp e s c \<noteq> (Inl Panic, c')"
proof -
  have send: "send_session config lcp p c1 \<noteq> (Inl Panic, c')" for p c1
    using nego_sends_no_panic(1) [OF assms] .
  have recv: "on_ka_recv config lcp raw i f c \<noteq> (Inl Panic, c')" for raw i f
    using send by (simp add: on_ka_recv_def io_elims split: option.split)
  have echo: "on_ka_echo config lcp i f c \<noteq> (Inl Panic, c')" for i f
    using send by (simp add: on_ka_echo_def io_elims Let_def)
  have hang: "ka_hang_up config lcp i c \<noteq> (Inl Panic, c')" for i
    using ka_hang_up_result [of config lcp i c "Inl Panic" c'] send by auto
  have ack: "ka_await_ack lcp raw c \<noteq> (Inl Panic, c')" for raw
    by (simp add: ka_await_ack_def split: option.split)
  show ?thesis
  proof (cases e)
    case (KaRecv r)
    with recv ack show ?thesis by (cases r; cases s) simp_all
  qed (use echo hang in \<open>cases s; simp\<close>)+
qed

lemma ka_run_no_panic:
  assumes "length (lr_server_mac lcp) = 6"
  shows "run_events (ka_step config lcp) es s c \<noteq> (Inl Panic, c')"
  using ka_step_no_panic [OF assms] by (induction es arbitrary: s c) (auto simp: run_Cons)

lemma keepalive_no_panic:
  assumes "length (lr_server_mac lcp) = 6"
  shows "keepalive config lcp i es c \<noteq> (Inl Panic, c')"
  using ka_run_no_panic [OF assms] nego_sends_no_panic(1) [OF assms]
  by (simp add: keepalive_def ka_start_def io_elims)

text \<open>While no echo of the peer arrives, every firing of the echo timer counts.\<close>

lemma ka_step_alive:
  assumes "ka_step config lcp e (Alive i f) c = (Inr (Continue (Alive i' f')), c')" "\<not> peer_echo lcp e" "f \<le> 5"
  shows "f' \<le> 5 \<and> unat f + (if is_ka_echo e then 1 else 0) = unat f'"
proof (cases e)
  case KaEcho
  with assms(1) have "f' = f + 1" "\<not> 5 < f + 1"
    by (auto simp: on_ka_echo_def MAX_ECHO_FAILURES_def io_elims Let_def split: if_split_asm)
  with retry_inc [OF assms(3)] KaEcho show ?thesis by (simp add: is_ka_echo_def)
next
  case KaStop
  with assms(1) ka_hang_up_result [of config lcp i c _ c'] show ?thesis by fastforce
next
  case (KaRecv r)
  show ?thesis
  proof (cases r)
    case None
    with KaRecv assms(1) show ?thesis by simp
  next
    case (Some raw)
    with KaRecv assms have "f' = f"
      by (auto simp: on_ka_recv_def peer_echo_def io_elims split: option.split_asm if_split_asm)
    with KaRecv assms(3) show ?thesis by (simp add: is_ka_echo_def)
  qed
next
  case KaAckWait
  with assms show ?thesis by (simp add: is_ka_echo_def)
qed

lemma ka_hanging_up_stays:
  "run_events (ka_step config lcp) es HangingUp c = (Inr (Continue s'), c') \<Longrightarrow> s' = HangingUp"
proof (induction es arbitrary: c)
  case (Cons e es)
  then obtain s1 c1 where s1: "ka_step config lcp e HangingUp c = (Inr (Continue s1), c1)"
    and r: "run_events (ka_step config lcp) es s1 c1 = (Inr (Continue s'), c')"
    by (auto simp: run_Cons)
  have "s1 = HangingUp"
  proof (cases e)
    case (KaRecv rv)
    with s1 show ?thesis by (cases rv) (auto simp: ka_await_ack_def split: option.split_asm if_split_asm)
  qed (use s1 in auto)
  with r Cons.IH show ?case by blast
qed simp

lemma ka_run_alive:
  assumes "run_events (ka_step config lcp) es (Alive i f) c = (Inr (Continue (Alive i' f')), c')"
    "list_all (\<lambda>e. \<not> peer_echo lcp e) es" "f \<le> 5"
  shows "unat f + length (filter is_ka_echo es) \<le> 5"
  using assms
proof (induction es arbitrary: i f c)
  case Nil
  then show ?case by (simp add: word_le_nat_alt)
next
  case (Cons e es)
  from Cons.prems(1) obtain s1 c1 where s1: "ka_step config lcp e (Alive i f) c = (Inr (Continue s1), c1)"
    and r: "run_events (ka_step config lcp) es s1 c1 = (Inr (Continue (Alive i' f')), c')"
    by (auto simp: run_Cons)
  have "s1 \<noteq> HangingUp" using r ka_hanging_up_stays by blast
  then obtain i1 f1 where a: "s1 = Alive i1 f1" by (cases s1) auto
  from ka_step_alive [OF s1 [unfolded a]] Cons.prems(2,3)
  have f1: "f1 \<le> 5" "unat f + (if is_ka_echo e then 1 else 0) = unat f1" by simp_all
  from Cons.IH [OF r [unfolded a]] f1 Cons.prems(2) show ?case by (simp split: if_split_asm)
qed

lemma ka_never_Done: "run_events (ka_step config lcp) es s c \<noteq> (Inr (Done r), c')"
proof -
  have hang: "ka_hang_up config lcp i c \<noteq> (Inr (Done r), c')" for i c
    using ka_hang_up_result [of config lcp i c "Inr (Done r)" c'] by auto
  have recv: "on_ka_recv config lcp raw i f c \<noteq> (Inr (Done r), c')" for raw i f c
    by (simp add: on_ka_recv_def io_elims split: option.split)
  have ack: "ka_await_ack lcp raw c \<noteq> (Inr (Done r), c')" for raw c
    by (simp add: ka_await_ack_def split: option.split)
  have echo: "on_ka_echo config lcp i f c \<noteq> (Inr (Done r), c')" for i f c
    by (simp add: on_ka_echo_def io_elims Let_def)
  have step: "ka_step config lcp e s c \<noteq> (Inr (Done r), c')" for e s c
  proof (cases e)
    case (KaRecv rv)
    with recv ack show ?thesis by (cases rv; cases s) simp_all
  qed (use echo hang in \<open>cases s; simp\<close>)+
  show ?thesis using step by (induction es arbitrary: s c) (auto simp: run_Cons)
qed

section \<open>Crashes\<close>

lemma on_phase_error_not_Crashed: "on_phase_error e s \<noteq> Crashed t"
  by (simp add: on_phase_error_def rt_break_def rt_redial_def)

lemma rt_keepalive_not_Crashed:
  "length (lr_server_mac lcp) = 6 \<Longrightarrow> rt_keepalive config env lcp nego s \<noteq> Crashed t"
  using keepalive_no_panic
  by (auto simp: rt_keepalive_def rt_break_def rt_redial_def split: prod.split sum.split abort.split flow.split)

lemma rt_establish_not_Crashed:
  "length (lr_server_mac lcp) = 6 \<Longrightarrow> rt_establish config env lcp nego s \<noteq> Crashed t"
  by (simp add: rt_establish_def Let_def rt_keepalive_not_Crashed split: option.split)

lemma rt_negotiate_Crashed:
  assumes "length (lr_server_mac lcp) = 6" "rt_negotiate md5 config env lcp s = Crashed t"
  shows "lr_auth_type lcp = 0xc223 \<and> list_ex (malformed_auth_frame lcp) (ev_nego env)"
proof (rule ccontr)
  assume "\<not> ?thesis"
  then have "list_all (\<lambda>e. lr_auth_type lcp = 0xc223 \<longrightarrow> \<not> malformed_auth_frame lcp e) (ev_nego env)"
    by (auto simp: list_all_iff list_ex_iff)
  from nego_run_no_panic [OF assms(1) this] assms(2) show False
    by (auto simp: rt_negotiate_def Let_def on_phase_error_not_Crashed rt_establish_not_Crashed [OF assms(1)] split: prod.split_asm sum.split_asm abort.split_asm flow.split_asm)
qed

lemma rt_iteration_Crashed:
  assumes "rt_iteration md5 config env s = Crashed t"
  shows "\<exists>lcp. lr_auth_type lcp = 0xc223 \<and> list_ex (malformed_auth_frame lcp) (ev_nego env)"
proof -
  have dial: ?thesis if d: "rt_dial md5 config env s' = Crashed t" for s'
  proof -
    let ?s1 = "rt_set_v4 (Pppoe Dialing) s'"
    obtain lcp c where r: "p1_run config (ev_pid env) (ev_unix_secs env) (ev_p1 env) (rt_chan ?s1) = (Inr (Done lcp), c)"
      and n: "rt_negotiate md5 config env lcp (?s1\<lparr>rt_chan := c, rt_retry := 0\<rparr>) = Crashed t"
      using d p1_run_no_panic
      by (auto simp: rt_dial_def Let_def on_phase_error_not_Crashed split: prod.split_asm sum.split_asm abort.split_asm flow.split_asm)
    have "length (lr_server_mac lcp) = 6" using p1_result_mac [OF r] .
    from rt_negotiate_Crashed [OF this n] show ?thesis by blast
  qed
  from assms show ?thesis
    using dial by (auto simp: rt_iteration_def rt_channel_def rt_break_def Let_def split: if_split_asm option.split_asm)
qed

lemma rt_loop_Crashed:
  "rt_loop md5 config envs s = Crashed t \<Longrightarrow>
     \<exists>env\<in>set envs. \<exists>lcp. lr_auth_type lcp = 0xc223 \<and> list_ex (malformed_auth_frame lcp) (ev_nego env)"
proof (induction envs arbitrary: s)
  case (Cons env envs)
  then show ?case
    using rt_iteration_Crashed [of md5 config env s]
    by (cases "rt_iteration md5 config env s") auto
qed simp

section \<open>Properties\<close>


definition ex_env :: "nat rt_env" where
  "ex_env =
     (let pkt = (\<lambda>p. NgRecv (Some (session_packet [2, 0, 0, 0, 0, 1] (MacAddr 2 0 0 0 0 9) 0x42 p)))
      in \<lparr>ev_backoff_stop = False, ev_rx_closed = False, ev_restart = None, ev_stop_early = False,
          ev_stop_late = True, ev_pid = 0x01000000, ev_unix_secs = 5, ev_p1 = ex_p1_events,
          ev_nego = [pkt [0xc0, 0x23, 2, 1, 0, 4], pkt [0x80, 0x21, 2, 1, 0, 10, 3, 6, 10, 0, 0, 2],
            pkt [0x80, 0x21, 1, 1, 0, 10, 3, 6, 10, 0, 0, 1], pkt [0xc0, 0x21, 8, 3, 0, 6, 0x80, 0x57]],
          ev_create = Some 9, ev_ka = [KaEcho, KaStop, KaAckWait]\<rparr>)"

fun flow_state :: "'s rt_flow \<Rightarrow> 's option" where
  "flow_state (Exit s) = Some s"
| "flow_state _ = None"

lemma ex_rt_run:
  "map_option (\<lambda>s. (rt_created s, sc_status (rt_cell s)))
     (flow_state (rt_run id ex_config (Some (LinkStateHandle_new None :: unit LinkState)) Idle (Some ex_chan) [ex_env])) =
   Some ([9], Stop)"
  by code_simp



definition ex_crash_env :: "nat rt_env" where
  "ex_crash_env = ex_env
     \<lparr>ev_p1 :=
        [P1Recv (Some (ex_eth ETH_P_PPOED ([0x11, 0x07, 0, 0, 0, 8] @ [1, 3, 0, 4, 0, 0, 0, 1]))),
         P1Recv (Some (ex_eth ETH_P_PPOED ([0x11, 0x65, 0, 0x42, 0, 8] @ [1, 3, 0, 4, 0, 0, 0, 1]))),
         P1Recv (Some (ex_eth ETH_P_PPOES ([0x11, 0, 0, 0x42, 0, 20] @ request_mru_with_auth 1 1492 7 0xc223))),
         P1Recv (Some (ex_eth ETH_P_PPOES ([0x11, 0, 0, 0x42, 0, 16] @ ack_mru 1 1492 5)))],
      ev_nego := [NgRecv (Some (session_packet [2, 0, 0, 0, 0, 1] (MacAddr 2 0 0 0 0 9) 0x42 [0xc2, 0x23, 1, 1, 0, 4]))]\<rparr>"

fun is_Crashed :: "'s rt_flow \<Rightarrow> bool" where
  "is_Crashed (Crashed s) \<longleftrightarrow> True"
| "is_Crashed _ \<longleftrightarrow> False"

lemma ex_rt_crash:
  "is_Crashed (rt_run id ex_config (None :: unit LinkState option) Idle (Some ex_chan) [ex_crash_env])"
  by code_simp


text \<open>C15: a dead peer is noticed.  As long as no LCP echo frame of the peer arrives, whatever else it sends,
  the session does not survive five firings of the echo timer: \<open>keepalive\<close> has returned with an
  error, or is already hanging up because the service was stopped.\<close>

theorem keepalive_detects_dead_peer:
  assumes "list_all (\<lambda>e. \<not> peer_echo lcp e) es" "5 \<le> length (filter is_ka_echo es)"
    "length (lr_server_mac lcp) = 6"
  shows "(\<exists>e c'. keepalive config lcp i es c = (Inl (Err e), c')) \<or>
    (\<exists>c'. keepalive config lcp i es c = (Inr (Continue HangingUp), c'))"
proof (cases rule: io_total [of "keepalive config lcp i es" c])
  case (ret f c')
  then obtain c1 where r: "run_events (ka_step config lcp) es (Alive (i + 1) 1) c1 = (Inr f, c')"
    by (auto simp: keepalive_def ka_start_def io_elims)
  then obtain s where s: "f = Continue s" using ka_never_Done by (cases f) auto
  have "s = HangingUp"
    using ka_run_alive [of config lcp es "i + 1" 1 c1] r s assms(1,2) by (cases s) fastforce+
  with ret s show ?thesis by blast
qed (use keepalive_no_panic [OF assms(3)] in blast)+

theorem keepalive_detects_dead_peer_witness:
  "(\<exists>e c'. keepalive ex_config ex_lcp 0 (replicate 5 KaEcho) ex_chan = (Inl (Err e), c')) \<or>
   (\<exists>c'. keepalive ex_config ex_lcp 0 (replicate 5 KaEcho) ex_chan = (Inr (Continue HangingUp), c'))"
  by (rule keepalive_detects_dead_peer)
     (simp_all add: peer_echo_def is_ka_echo_def ex_lcp_def list_all_iff)

text \<open>The loop redials exactly on the errors that \<open>PppoeError::can_redial\<close> names, counting the attempt and
  keeping the status; on every other error of a dialling phase it exits, as \<open>Failed\<close> if the error is
  fatal and as \<open>Stop\<close> if the service was stopped.\<close>

theorem redial_iff_can_redial:
  "on_phase_error e s =
     (if can_redial e then Again ((shutdown_session s)\<lparr>rt_retry := rt_retry s + 1\<rparr>)
      else Exit ((shutdown_session s)\<lparr>rt_cell := just_change_status (if is_fatal e then Failed else Stop) (rt_cell s)\<rparr>))"
  by (auto simp: on_phase_error_def can_redial_def rt_redial_def rt_break_def rt_status_def)

definition backoff_base :: "PPPoEClientConfig \<Rightarrow> nat" where
  "backoff_base config = (case cfg_redial_backoff_base_secs config of Some b \<Rightarrow> b | None \<Rightarrow> 300)"

text \<open>The redial backoff is linear up to half an hour.  With a base of \<open>b\<close> seconds the \<open>k\<close>-th consecutive
  failure waits \<open>min (b * k) 1800\<close> seconds, provided the product fits into 64 bits; the default base
  of five minutes reaches the cap at the sixth failure.\<close>

theorem backoff_delay_linear:
  assumes "backoff_base config * unat k < 2 ^ 64" "k \<noteq> 0"
  shows "unat (backoff_delay config k) =
    min (backoff_base config * unat k) 1800"
proof -
  let ?b = "backoff_base config"
  have "1 \<le> unat k" using assms(2) by (simp add: Suc_leI unat_gt_0)
  then have "?b \<le> ?b * unat k" by simp
  then have b: "?b < 2 ^ 64" using assms(1) by (rule le_less_trans)
  have base: "(case cfg_redial_backoff_base_secs config of Some b \<Rightarrow> word_of_nat b | None \<Rightarrow> 5 * 60) = (word_of_nat ?b :: u64)"
    by (simp add: backoff_base_def split: option.split)
  have ub: "unat (word_of_nat ?b :: u64) = ?b" using b by (simp add: unat_of_nat)
  have prod: "unat (word_of_nat ?b * k) = ?b * unat k"
    using assms(1) ub by (simp add: unat_word_ariths)
  show ?thesis
    unfolding backoff_delay_def base Let_def
    using prod by (simp add: min_def word_le_nat_alt)
qed

theorem backoff_delay_linear_witness:
  "unat (backoff_delay ex_config 6) = 1800 \<and> unat (backoff_delay ex_config 2) = 600"
proof -
  have n: "backoff_base ex_config = 300"
    by (simp add: backoff_base_def ex_config_def PPPoEClientConfig_new_def)
  show ?thesis
    using backoff_delay_linear [of ex_config 6] backoff_delay_linear [of ex_config 2] n by simp
qed

end
