(* ===== verification/Rust_Str.thy ===== *)
theory Rust_Str
  imports Prelude "HOL-Library.Sublist"
begin

text \<open>
  The \<open>str\<close> methods of the standard library that the configuration and DNS code uses.  A Rust
  string is its UTF-8 bytes.

  \<^item> \<open>trim\<close> removes characters with the Unicode property White\_Space at both ends; their UTF-8
    encodings are listed once.  UTF-8 is self-synchronising, so matching an encoding at the end of a
    valid string finds a whole character.
  \<^item> \<open>split\<close>, \<open>split_once\<close>, \<open>matches\<close> and \<open>replacen\<close> scan from the left, without overlap.
\<close>

definition utf8 :: "string \<Rightarrow> bytes" where
  "utf8 s = map of_char s"

definition is_ascii :: "bytes \<Rightarrow> bool" where
  "is_ascii s \<longleftrightarrow> list_all (\<lambda>b. b < 0x80) s"

definition u8_is_ascii_alphanumeric :: "u8 \<Rightarrow> bool" where
  "u8_is_ascii_alphanumeric b \<longleftrightarrow>
     (0x30 \<le> b \<and> b \<le> 0x39) \<or> (0x41 \<le> b \<and> b \<le> 0x5a) \<or> (0x61 \<le> b \<and> b \<le> 0x7a)"

definition u8_to_ascii_lowercase :: "u8 \<Rightarrow> u8" where
  "u8_to_ascii_lowercase b = (if 0x41 \<le> b \<and> b \<le> 0x5a then b + 0x20 else b)"

definition to_ascii_lowercase :: "bytes \<Rightarrow> bytes" where
  "to_ascii_lowercase s = map u8_to_ascii_lowercase s"

text \<open>UTF-8 encodings of the White\_Space characters.\<close>

definition white_space :: "bytes list" where
  "white_space =
     [[0x09], [0x0a], [0x0b], [0x0c], [0x0d], [0x20], [0xc2, 0x85], [0xc2, 0xa0], [0xe1, 0x9a, 0x80],
      [0xe2, 0x80, 0x80], [0xe2, 0x80, 0x81], [0xe2, 0x80, 0x82], [0xe2, 0x80, 0x83],
      [0xe2, 0x80, 0x84], [0xe2, 0x80, 0x85], [0xe2, 0x80, 0x86], [0xe2, 0x80, 0x87],
      [0xe2, 0x80, 0x88], [0xe2, 0x80, 0x89], [0xe2, 0x80, 0x8a], [0xe2, 0x80, 0xa8],
      [0xe2, 0x80, 0xa9], [0xe2, 0x80, 0xaf], [0xe2, 0x81, 0x9f], [0xe3, 0x80, 0x80]]"

fun is_prefix :: "'a list \<Rightarrow> 'a list \<Rightarrow> bool" where
  "is_prefix [] s \<longleftrightarrow> True"
| "is_prefix (p # ps) [] \<longleftrightarrow> False"
| "is_prefix (p # ps) (x # xs) \<longleftrightarrow> p = x \<and> is_prefix ps xs"

text \<open>The length of the first of the given non-empty patterns that starts the string, or 0.\<close>

definition match_len :: "'a list list \<Rightarrow> 'a list \<Rightarrow> nat" where
  "match_len ps s = (case find (\<lambda>p. is_prefix p s) ps of None \<Rightarrow> 0 | Some p \<Rightarrow> length p)"

lemma is_prefix_iff: "is_prefix p s \<longleftrightarrow> prefix p s"
  by (induction p s rule: is_prefix.induct) auto

lemma match_len_le: "match_len ps s \<le> length s"
  by (auto simp: match_len_def is_prefix_iff find_Some_iff prefix_length_le split: option.splits)

function strip_all :: "'a list list \<Rightarrow> 'a list \<Rightarrow> 'a list" where
  "strip_all ps s = (if match_len ps s = 0 then s else strip_all ps (drop (match_len ps s) s))"
  by pat_completeness auto
termination
proof (relation "measure (\<lambda>(ps, s). length s)", goal_cases)
  case (2 ps s)
  then show ?case using match_len_le [of ps s] by auto
qed simp

declare strip_all.simps [simp del]

definition trim_start :: "bytes \<Rightarrow> bytes" where
  "trim_start s = strip_all white_space s"

definition trim_end :: "bytes \<Rightarrow> bytes" where
  "trim_end s = rev (strip_all (map rev white_space) (rev s))"

definition trim :: "bytes \<Rightarrow> bytes" where
  "trim s = trim_end (trim_start s)"

definition trim_end_matches :: "u8 \<Rightarrow> bytes \<Rightarrow> bytes" where
  "trim_end_matches c s = rev (dropWhile (\<lambda>b. b = c) (rev s))"

fun split_on :: "'a \<Rightarrow> 'a list \<Rightarrow> 'a list list" where
  "split_on c [] = [[]]"
| "split_on c (x # xs) =
     (if x = c then [] # split_on c xs
      else (case split_on c xs of [] \<Rightarrow> [[x]] | y # ys \<Rightarrow> (x # y) # ys))"

fun split_once :: "'a list \<Rightarrow> 'a list \<Rightarrow> ('a list \<times> 'a list) option" where
  "split_once t [] = (if t = [] then Some ([], []) else None)"
| "split_once t (x # xs) =
     (if is_prefix t (x # xs) then Some ([], drop (length t) (x # xs))
      else map_option (\<lambda>(a, b). (x # a, b)) (split_once t xs))"

definition remove_first :: "'a list \<Rightarrow> 'a list \<Rightarrow> 'a list" where
  "remove_first t s = (case split_once t s of None \<Rightarrow> s | Some (a, b) \<Rightarrow> a @ b)"

function count_matches :: "'a list \<Rightarrow> 'a list \<Rightarrow> nat" where
  "count_matches t s =
     (if s = [] \<or> t = [] then 0
      else if is_prefix t s then Suc (count_matches t (drop (length t) s))
      else count_matches t (tl s))"
  by pat_completeness auto
termination
  by (relation "measure (\<lambda>(t, s). length s)") (auto simp: length_greater_0_conv)

declare count_matches.simps [simp del]

section \<open>Laws\<close>

fun join_with :: "'a \<Rightarrow> 'a list list \<Rightarrow> 'a list" where
  "join_with c [] = []"
| "join_with c [x] = x"
| "join_with c (x # y # ys) = x @ c # join_with c (y # ys)"

lemma split_on_not_Nil [simp]: "split_on c s \<noteq> []"
  by (cases s) (auto split: list.splits)

lemma join_split [simp]: "join_with c (split_on c s) = s"
proof (induction s)
  case (Cons x xs)
  then show ?case
  proof (cases "split_on c xs")
    case (Cons y ys)
    then show ?thesis using \<open>join_with c (split_on c xs) = xs\<close> by (cases ys) auto
  qed simp
qed simp

lemma split_on_no_sep: "l \<in> set (split_on c s) \<Longrightarrow> c \<notin> set l"
  by (induction s arbitrary: l) (auto split: list.splits if_splits)

lemma split_on_append_sep: "c \<notin> set x \<Longrightarrow> split_on c (x @ c # s) = x # split_on c s"
  by (induction x) auto

lemma split_on_none: "c \<notin> set x \<Longrightarrow> split_on c x = [x]"
  by (induction x) auto

lemma split_join:
  "ls \<noteq> [] \<Longrightarrow> \<forall>l\<in>set ls. c \<notin> set l \<Longrightarrow> split_on c (join_with c ls) = ls"
  by (induction c ls rule: join_with.induct) (auto simp: split_on_none split_on_append_sep)

lemma length_join: "ls \<noteq> [] \<Longrightarrow> Suc (length (join_with c ls)) = sum_list (map (\<lambda>l. Suc (length l)) ls)"
  by (induction c ls rule: join_with.induct) auto

lemma match_len_pos: "match_len ps s \<noteq> 0 \<Longrightarrow> \<exists>p\<in>set ps. prefix p s"
  unfolding match_len_def is_prefix_iff
  by (cases "find (\<lambda>p. prefix p s) ps") (auto simp: find_Some_iff intro: bexI [OF _ nth_mem])

lemma strip_all_noop: "match_len ps s = 0 \<Longrightarrow> strip_all ps s = s"
  by (simp add: strip_all.simps)

lemma white_space_hd: "p \<in> set white_space \<Longrightarrow> p \<noteq> [] \<and> (hd p < 0x21 \<or> 0x80 \<le> hd p)"
  by (auto simp: white_space_def)

lemma white_space_last: "p \<in> set white_space \<Longrightarrow> p \<noteq> [] \<and> (last p < 0x21 \<or> 0x80 \<le> last p)"
  by (auto simp: white_space_def)

text \<open>A string that begins and ends with a visible ASCII character is not changed by \<open>trim\<close>.\<close>

lemma trim_visible:
  assumes "s \<noteq> []" and "0x21 \<le> hd s" and "hd s < 0x80" and "0x21 \<le> last s" and "last s < 0x80"
  shows "trim s = s"
proof -
  have "match_len white_space s = 0"
  proof (rule ccontr)
    assume "match_len white_space s \<noteq> 0"
    then obtain p where p: "p \<in> set white_space" and "prefix p s"
      using match_len_pos by blast
    then have "hd p = hd s" using white_space_hd [OF p] by (auto simp: prefix_def)
    then show False using white_space_hd [OF p] assms(2,3) by auto
  qed
  moreover have "match_len (map rev white_space) (rev s) = 0"
  proof (rule ccontr)
    assume "match_len (map rev white_space) (rev s) \<noteq> 0"
    then obtain p where p: "p \<in> set (map rev white_space)" and pr: "prefix p (rev s)"
      using match_len_pos by blast
    then obtain q where q: "q \<in> set white_space" and pq: "p = rev q" by auto
    have "hd p = last q" using pq white_space_last [OF q] by (simp add: hd_rev)
    moreover have "hd p = last s"
      using pr pq white_space_last [OF q] assms(1) by (auto simp: prefix_def hd_append hd_rev dest: arg_cong [where f = hd])
    ultimately show False using white_space_last [OF q] assms(4,5) by auto
  qed
  ultimately show ?thesis
    by (simp add: trim_def trim_start_def trim_end_def strip_all_noop)
qed

lemma trim_end_matches_noop: "s \<noteq> [] \<Longrightarrow> last s \<noteq> c \<Longrightarrow> trim_end_matches c s = s"
  by (cases s rule: rev_cases) (auto simp: trim_end_matches_def)

lemma trim_end_matches_last: "trim_end_matches c s \<noteq> [] \<Longrightarrow> last (trim_end_matches c s) \<noteq> c"
  using hd_dropWhile [of "\<lambda>b. b = c" "rev s"] by (auto simp: trim_end_matches_def last_rev)

lemma to_ascii_lowercase_idem [simp]:
  "to_ascii_lowercase (to_ascii_lowercase s) = to_ascii_lowercase s"
proof -
  have "u8_to_ascii_lowercase (u8_to_ascii_lowercase b) = u8_to_ascii_lowercase b" for b :: u8
    unfolding u8_to_ascii_lowercase_def by (cases "0x41 \<le> b \<and> b \<le> 0x5a") (auto, (unat_arith)+)
  then show ?thesis by (simp add: to_ascii_lowercase_def)
qed

end
