(* ===== verification/Dhcp_Message.thy ===== *)
theory Dhcp_Message
  imports Rust_Str Net
begin

text \<open>
  The DHCPv4 message as the code sees it, and its helpers
  (\<open>landscape-common/src/net_proto/udp/dhcp\<close>).

  The message type, its getters and setters and the option table come from the crate \<open>dhcproto\<close>,
  re-exported by \<open>net_proto/udp/dhcp/mod.rs\<close>.  They are the vocabulary of this theory: a record of
  the header fields the code reads or writes and a table from option codes to options.  What
  \<open>dhcproto\<close> computes (decoding, encoding, the values of a fresh message) is an argument of the
  definitions that use it.  \<open>'x\<close> stands for the crate's values that the code only passes on.
\<close>

datatype MessageType =
  Discover | Offer | Request | Decline | Ack | Nak | Release | Inform | OtherType u8

datatype Opcode = BootRequest | BootReply | OtherOpcode u8

datatype 'x DhcpV4Option =
    SubnetMask u32
  | Router "u32 list"
  | DomainNameServer "u32 list"
  | Hostname bytes
  | DomainName bytes
  | BroadcastAddr u32
  | VendorExtensions bytes
  | RequestedIpAddress u32
  | AddressLeaseTime u32
  | MessageType MessageType
  | ServerIdentifier u32
  | ParameterRequestList "u8 list"
  | Renewal u32
  | Rebinding u32
  | ClassIdentifier bytes
  | ClientIdentifier bytes
  | TFTPServerName bytes
  | BootfileName bytes
  | RelayAgentInformation 'x
  | DomainSearch "'x list"
  | UnknownOption u8 bytes
  | OtherOption u8 'x

text \<open>\<open>OptionCode::from(\<dots>)\<close>: the codes of RFC 2132, 3046 and 3397.\<close>

fun option_code :: "'x DhcpV4Option \<Rightarrow> u8" where
  "option_code (SubnetMask _) = 1"
| "option_code (Router _) = 3"
| "option_code (DomainNameServer _) = 6"
| "option_code (Hostname _) = 12"
| "option_code (DomainName _) = 15"
| "option_code (BroadcastAddr _) = 28"
| "option_code (VendorExtensions _) = 43"
| "option_code (RequestedIpAddress _) = 50"
| "option_code (AddressLeaseTime _) = 51"
| "option_code (MessageType _) = 53"
| "option_code (ServerIdentifier _) = 54"
| "option_code (ParameterRequestList _) = 55"
| "option_code (Renewal _) = 58"
| "option_code (Rebinding _) = 59"
| "option_code (ClassIdentifier _) = 60"
| "option_code (ClientIdentifier _) = 61"
| "option_code (TFTPServerName _) = 66"
| "option_code (BootfileName _) = 67"
| "option_code (RelayAgentInformation _) = 82"
| "option_code (DomainSearch _) = 119"
| "option_code (UnknownOption c _) = c"
| "option_code (OtherOption c _) = c"

type_synonym 'x DhcpV4Options = "(u8, 'x DhcpV4Option) hmap"

definition opts_insert :: "'x DhcpV4Option \<Rightarrow> 'x DhcpV4Options \<Rightarrow> 'x DhcpV4Options" where
  "opts_insert opt opts = hm_insert (option_code opt) opt opts"

record 'x DhcpV4Message =
  dm_opcode :: Opcode
  dm_hlen :: u8
  dm_xid :: u32
  dm_secs :: u16
  dm_flags :: u16
  dm_ciaddr :: u32
  dm_yiaddr :: u32
  dm_siaddr :: u32
  dm_chaddr :: bytes
  dm_opts :: "'x DhcpV4Options"

definition opts_msg_type :: "'x DhcpV4Options \<Rightarrow> MessageType option" where
  "opts_msg_type opts = (case hm_get opts 53 of Some (MessageType t) \<Rightarrow> Some t | _ \<Rightarrow> None)"

definition set_chaddr :: "bytes \<Rightarrow> 'x DhcpV4Message \<Rightarrow> 'x DhcpV4Message" where
  "set_chaddr addr m =
     m\<lparr>dm_hlen := word_of_nat (length addr), dm_chaddr := addr @ replicate (16 - length addr) 0\<rparr>"

definition flags_broadcast :: "u16 \<Rightarrow> bool" where
  "flags_broadcast f \<longleftrightarrow> bit f 15"

section \<open>Helpers of \<open>v4_helpers.rs\<close>\<close>

definition get_default_request_list :: "'x DhcpV4Option" where
  "get_default_request_list = ParameterRequestList [1, 3, 6, 15, 26, 28, 12, 42, 51, 119]"

definition has_option :: "'x DhcpV4Message \<Rightarrow> u8 \<Rightarrow> 'x DhcpV4Option option" where
  "has_option msg code = hm_get (dm_opts msg) code"

definition get_hostname :: "'x DhcpV4Message \<Rightarrow> bytes option" where
  "get_hostname msg = (case hm_get (dm_opts msg) 12 of Some (Hostname name) \<Rightarrow> Some name | _ \<Rightarrow> None)"

text \<open>The default of T2 is computed at 32 bits: \<open>lease_time * 7\<close> wraps for leases over 19 years.\<close>

definition get_renew_time :: "'x DhcpV4Message \<Rightarrow> (u64 \<times> u64 \<times> u64) option" where
  "get_renew_time msg =
     (case hm_get (dm_opts msg) 51 of
        Some (AddressLeaseTime lease_time) \<Rightarrow>
          (let renew_time = (case hm_get (dm_opts msg) 58 of Some (Renewal t) \<Rightarrow> t | _ \<Rightarrow> lease_time div 2);
               rebinding_time =
                 (case hm_get (dm_opts msg) 59 of Some (Rebinding t) \<Rightarrow> t | _ \<Rightarrow> lease_time * 7 div 8)
           in Some (ucast renew_time, ucast rebinding_time, ucast lease_time))
      | _ \<Rightarrow> None)"

section \<open>Guarded decoding\<close>

text \<open>
  \<open>try_decode_dhcpv4\<close> of a debug build (the pre-scan of a release build accepts everything): the
  option area is scanned for the lengths that trip an assertion inside \<open>dhcproto\<close>.  \<open>hi = None\<close> is
  \<open>usize::MAX\<close>.
\<close>

definition DHCPV4_LENGTH_SENSITIVE_OPTIONS :: "(u8 \<times> nat \<times> nat option) list" where
  "DHCPV4_LENGTH_SENSITIVE_OPTIONS =
     [(80, 0, Some 0), (81, 3, None), (94, 3, Some 3), (151, 1, None),
      (152, 4, Some 4), (153, 4, Some 4), (154, 4, Some 4), (155, 4, Some 4)]"

definition dhcpv4_option_length_is_valid :: "u8 option \<Rightarrow> nat \<Rightarrow> bool" where
  "dhcpv4_option_length_is_valid code merged_len =
     (case Option.bind code (\<lambda>c. map_of DHCPV4_LENGTH_SENSITIVE_OPTIONS c) of
        None \<Rightarrow> True
      | Some (lo, hi) \<Rightarrow> merged_len \<ge> lo \<and> (case hi of None \<Rightarrow> True | Some h \<Rightarrow> merged_len \<le> h))"

text \<open>The loop, on the rest of the option area after index \<open>i\<close>.\<close>

function options_safe_loop :: "bytes \<Rightarrow> u8 option \<Rightarrow> nat \<Rightarrow> bool" where
  "options_safe_loop [] prev merged \<longleftrightarrow> dhcpv4_option_length_is_valid prev merged"
| "options_safe_loop (code # rest) prev merged \<longleftrightarrow>
     (if code = 0 then dhcpv4_option_length_is_valid prev merged \<and> options_safe_loop rest None merged
      else if code = 255 then dhcpv4_option_length_is_valid prev merged
      else case rest of
        [] \<Rightarrow> False
      | len # data \<Rightarrow>
          (if unat len > length data then True
           else if prev = Some code then options_safe_loop (drop (unat len) data) prev (merged + unat len)
           else dhcpv4_option_length_is_valid prev merged \<and>
                options_safe_loop (drop (unat len) data) (Some code) (unat len)))"
  by pat_completeness auto
termination
  by (relation "measure (\<lambda>(s, _, _). length s)") auto

definition dhcpv4_options_are_safe :: "bytes \<Rightarrow> bool" where
  "dhcpv4_options_are_safe options = options_safe_loop options None 0"

definition try_decode_dhcpv4 ::
  "(bytes \<Rightarrow> 'x DhcpV4Message option) \<Rightarrow> bool \<Rightarrow> bytes \<Rightarrow> 'x DhcpV4Message option" where
  "try_decode_dhcpv4 decode debug_assertions data =
     (if length data \<ge> 240 \<and> debug_assertions \<and> \<not> dhcpv4_options_are_safe (drop 240 data) then None
      else decode data)"

section \<open>Lemmas\<close>

lemma opts_get_insert [simp]:
  "hm_get (opts_insert opt opts) c = (if c = option_code opt then Some opt else hm_get opts c)"
  by (simp add: opts_insert_def)

lemma opts_ok_insert [simp]: "hm_ok opts \<Longrightarrow> hm_ok (opts_insert opt opts)"
  by (simp add: opts_insert_def)

lemma opts_msg_type_insert [simp]:
  "opts_msg_type (opts_insert opt opts) =
     (case opt of MessageType t \<Rightarrow> Some t | _ \<Rightarrow> if option_code opt = 53 then None else opts_msg_type opts)"
  by (cases opt) (auto simp: opts_msg_type_def)

end
