(* ===== verification/Dnr.thy ===== *)
theory Dnr
  imports Rust_Str "HOL-Library.List_Lexorder"
begin

text \<open>
  Encrypted-DNS discovery (\<open>landscape-common/src/dns/dnr.rs\<close>): normalising the advertised domain
  names, the DNS wire form of a name, the service parameters of DNS over HTTPS and the payload of
  DHCP option 162 that carries them.

  The wire form of a name is read back by \<open>dns_labels\<close>, the reader RFC 1035 gives, so that the
  round trip is stated against an independent definition.
\<close>

definition DHCPV4_DNR_OPTION_CODE :: u8 where "DHCPV4_DNR_OPTION_CODE = 162"
definition SVC_PARAM_ALPN :: u16 where "SVC_PARAM_ALPN = 1"
definition SVC_PARAM_PORT :: u16 where "SVC_PARAM_PORT = 3"
definition SVC_PARAM_DOHPATH :: u16 where "SVC_PARAM_DOHPATH = 7"

definition label_ok :: "bytes \<Rightarrow> bool" where
  "label_ok label \<longleftrightarrow>
     \<not> (label = [] \<or> length label > 63) \<and>
     \<not> (hd label = 0x2d \<or> last label = 0x2d) \<and>
     list_all (\<lambda>b. u8_is_ascii_alphanumeric b \<or> b = 0x2d) label"

definition normalize_advertise_domain :: "bytes \<Rightarrow> bytes option" where
  "normalize_advertise_domain domain =
     (let normalized = to_ascii_lowercase (trim_end_matches 0x2e (trim domain))
      in if normalized = [] \<or> length normalized > 253 \<or> 0x2a \<in> set normalized \<or>
            \<not> is_ascii normalized then None
         else if \<not> list_all label_ok (split_on 0x2e normalized) then None
         else Some normalized)"

definition normalize_advertise_domains :: "bytes list \<Rightarrow> bytes list" where
  "normalize_advertise_domains domains =
     remdups (sort (List.map_filter normalize_advertise_domain domains))"

definition is_valid_dnr_ipv4_addr :: "u32 \<Rightarrow> bool" where
  "is_valid_dnr_ipv4_addr ip \<longleftrightarrow>
     \<not> (ip = 0 \<or> ip = 0xffffffff \<or> drop_bit 28 ip = 0xe \<or> drop_bit 24 ip = 127)"

definition is_valid_dnr_ipv6_addr :: "u128 \<Rightarrow> bool" where
  "is_valid_dnr_ipv6_addr ip \<longleftrightarrow> \<not> (ip = 0 \<or> drop_bit 120 ip = 0xff \<or> ip = 1)"

fun push_labels :: "bytes list \<Rightarrow> bytes option" where
  "push_labels [] = Some []"
| "push_labels (l # ls) =
     (if l = [] \<or> length l > 63 \<or> \<not> is_ascii l then None
      else map_option (\<lambda>rest. word_of_nat (length l) # l @ rest) (push_labels ls))"

definition encode_dns_name :: "bytes \<Rightarrow> bytes option" where
  "encode_dns_name name =
     (case normalize_advertise_domain name of
        None \<Rightarrow> None
      | Some name \<Rightarrow> map_option (\<lambda>bytes. bytes @ [0]) (push_labels (split_on 0x2e name)))"

definition append_svc_param :: "bytes \<Rightarrow> u16 \<Rightarrow> bytes \<Rightarrow> bytes option" where
  "append_svc_param params key value =
     (if length value > 65535 then None
      else Some (params @ u16_to_be_bytes key @ u16_to_be_bytes (word_of_nat (length value)) @ value))"

text \<open>
  The three query templates, tried in this order; the outer \<open>None\<close> is the early return when a
  second template occurrence is found.
\<close>

definition doh_tokens :: "bytes list" where
  "doh_tokens = [utf8 ''{?dns}'', utf8 ''{&dns}'', utf8 ''{dns}'']"

fun matched_token :: "bytes \<Rightarrow> bytes list \<Rightarrow> bytes option \<Rightarrow> bytes option option" where
  "matched_token path [] found = Some found"
| "matched_token path (t # ts) found =
     (if count_matches t path = 0 then matched_token path ts found
      else if count_matches t path = 1 \<and> found = None then matched_token path ts (Some t)
      else None)"

definition normalize_doh_path_template :: "bytes \<Rightarrow> bytes option" where
  "normalize_doh_path_template doh_path =
     (let path = trim doh_path
      in if path = [] \<or> hd path \<noteq> 0x2f \<or> \<not> is_ascii path \<or> 0x23 \<in> set path then None
         else case matched_token path doh_tokens None of
           None \<Rightarrow> None
         | Some (Some token) \<Rightarrow>
             (case split_once token path of
                None \<Rightarrow> None
              | Some (before_template, _) \<Rightarrow>
                  (let without_template = remove_first token path
                   in if 0x7b \<in> set without_template \<or> 0x7d \<in> set without_template then None
                      else if token = utf8 ''{?dns}'' \<and> 0x3f \<in> set before_template then None
                      else if token = utf8 ''{&dns}'' \<and> 0x3f \<notin> set before_template then None
                      else Some path))
         | Some None \<Rightarrow>
             (if 0x3f \<in> set path \<or> 0x7b \<in> set path \<or> 0x7d \<in> set path then None
              else Some (path @ utf8 ''{?dns}'')))"

definition encode_doh_svc_params :: "u16 \<Rightarrow> bytes \<Rightarrow> bytes option" where
  "encode_doh_svc_params port doh_path =
     (case normalize_doh_path_template doh_path of None \<Rightarrow> None | Some doh_path \<Rightarrow>
     (case append_svc_param [] SVC_PARAM_ALPN [2, 0x68, 0x32] of None \<Rightarrow> None | Some params \<Rightarrow>
     (case append_svc_param params SVC_PARAM_PORT (u16_to_be_bytes port) of None \<Rightarrow> None
      | Some params \<Rightarrow> append_svc_param params SVC_PARAM_DOHPATH doh_path)))"

text \<open>
  \<open>ipv4_addrs.len().checked_mul(4)\<close> cannot fail: a \<open>Vec\<close> of four-byte elements has fewer than
  \<open>2^61\<close> of them.
\<close>

definition encode_dhcpv4_dnr_instance :: "bytes \<Rightarrow> u32 list \<Rightarrow> u16 \<Rightarrow> bytes \<Rightarrow> bytes option" where
  "encode_dhcpv4_dnr_instance domain ipv4_addrs port doh_path =
     (if ipv4_addrs = [] then None
      else case encode_dns_name domain of None \<Rightarrow> None | Some adn \<Rightarrow>
      (case encode_doh_svc_params port doh_path of None \<Rightarrow> None | Some svc_params \<Rightarrow>
       (let addr_len = length ipv4_addrs * 4
        in if length adn > 255 \<or> addr_len > 255 then None
           else let instance_len = 2 + 1 + length adn + 1 + addr_len + length svc_params
                in if instance_len > 65535 then None
                   else Some (u16_to_be_bytes (word_of_nat instance_len) @ u16_to_be_bytes 1 @
                              word_of_nat (length adn) # adn @
                              word_of_nat addr_len # concat (map u32_to_be_bytes ipv4_addrs) @
                              svc_params))))"

fun dnr_payload_loop :: "bytes list \<Rightarrow> u32 list \<Rightarrow> u16 \<Rightarrow> bytes \<Rightarrow> nat \<Rightarrow> bytes \<Rightarrow> bytes" where
  "dnr_payload_loop [] ips port doh_path max_len payload = payload"
| "dnr_payload_loop (domain # domains) ips port doh_path max_len payload =
     (case encode_dhcpv4_dnr_instance domain ips port doh_path of
        None \<Rightarrow> dnr_payload_loop domains ips port doh_path max_len payload
      | Some inst \<Rightarrow>
          (if length payload + length inst > max_len
           then dnr_payload_loop domains ips port doh_path max_len payload
           else dnr_payload_loop domains ips port doh_path max_len (payload @ inst)))"

definition encode_dhcpv4_dnr_payload_truncated ::
  "bytes list \<Rightarrow> u32 list \<Rightarrow> u16 \<Rightarrow> bytes \<Rightarrow> nat \<Rightarrow> bytes" where
  "encode_dhcpv4_dnr_payload_truncated domains ips port doh_path max_len =
     dnr_payload_loop domains ips port doh_path max_len []"

section \<open>Domain names\<close>

lemma split_on_snoc: "split_on c (s @ [c]) = split_on c s @ [[]]"
  by (induction s) (auto split: list.splits)

lemma last_split_on: "s \<noteq> [] \<Longrightarrow> last s = c \<Longrightarrow> last (split_on c s) = []"
  by (cases s rule: rev_cases) (auto simp: split_on_snoc)

lemma mem_split_on: "b \<in> set s \<Longrightarrow> b = c \<or> (\<exists>l\<in>set (split_on c s). b \<in> set l)"
  by (induction s) (auto split: list.splits)

lemma label_char:
  assumes "u8_is_ascii_alphanumeric b \<or> b = 0x2d" shows "0x21 \<le> b \<and> b < 0x80 \<and> b \<noteq> 0x2a"
proof -
  from assms consider "0x30 \<le> b" "b \<le> 0x39" | "0x41 \<le> b" "b \<le> 0x5a" | "0x61 \<le> b" "b \<le> 0x7a"
    | "b = 0x2d" unfolding u8_is_ascii_alphanumeric_def by blast
  then show ?thesis
  proof cases
    case 1
    then have "0x21 \<le> b" "b < 0x80" by (auto intro: order_trans [of _ "0x30"] order_le_less_trans)
    with 1 show ?thesis by auto
  next
    case 2
    then have "0x21 \<le> b" "b < 0x80" by (auto intro: order_trans [of _ "0x41"] order_le_less_trans)
    with 2 show ?thesis by auto
  next
    case 3
    then have "0x21 \<le> b" "b < 0x80" by (auto intro: order_trans [of _ "0x61"] order_le_less_trans)
    with 3 show ?thesis by auto
  qed simp
qed

lemma label_visible:
  assumes "label_ok l" and "b \<in> set l" shows "0x21 \<le> b \<and> b < 0x80 \<and> b \<noteq> 0x2a"
  using assms by (intro label_char) (simp add: label_ok_def list_all_iff)

text \<open>What a normalised name looks like.\<close>

definition domain_ok :: "bytes \<Rightarrow> bool" where
  "domain_ok d \<longleftrightarrow> d \<noteq> [] \<and> length d \<le> 253 \<and> list_all label_ok (split_on 0x2e d) \<and>
     to_ascii_lowercase d = d"

lemma domain_ok_visible:
  assumes "domain_ok d" and "b \<in> set d" shows "0x21 \<le> b \<and> b < 0x80 \<and> b \<noteq> 0x2a"
proof -
  consider "b = 0x2e" | l where "l \<in> set (split_on 0x2e d)" "b \<in> set l"
    using mem_split_on [OF assms(2), of "0x2e"] by blast
  then show ?thesis
  proof cases
    case 2
    with assms(1) have "label_ok l" by (simp add: domain_ok_def list_all_iff)
    with 2 label_visible show ?thesis by blast
  qed simp
qed

lemma domain_ok_last: "domain_ok d \<Longrightarrow> last d \<noteq> 0x2e"
  using last_split_on [of d "0x2e"] last_in_set [OF split_on_not_Nil, of "0x2e" d]
  by (auto simp: domain_ok_def list_all_iff label_ok_def)

lemma normalize_ok: "normalize_advertise_domain d = Some n \<Longrightarrow> domain_ok n"
  by (auto simp: normalize_advertise_domain_def domain_ok_def Let_def split: if_splits)

lemma normalize_fixed:
  assumes ok: "domain_ok d" shows "normalize_advertise_domain d = Some d"
proof -
  have ne: "d \<noteq> []" and low: "to_ascii_lowercase d = d" using ok by (simp_all add: domain_ok_def)
  have "trim d = d"
    using domain_ok_visible [OF ok hd_in_set [OF ne]] domain_ok_visible [OF ok last_in_set [OF ne]]
    by (intro trim_visible ne) simp_all
  moreover have "trim_end_matches 0x2e d = d"
    using ne domain_ok_last [OF ok] by (rule trim_end_matches_noop)
  moreover have "is_ascii d" using domain_ok_visible [OF ok] by (auto simp: is_ascii_def list_all_iff)
  ultimately show ?thesis
    using ok low domain_ok_visible [OF ok]
    by (auto simp: normalize_advertise_domain_def domain_ok_def)
qed

lemma normalize_domains_sound:
  "d \<in> set (normalize_advertise_domains ds) \<longleftrightarrow> (\<exists>x\<in>set ds. normalize_advertise_domain x = Some d)"
  by (auto simp: normalize_advertise_domains_def List.map_filter_def image_iff)

lemma normalize_domains_sorted:
  "sorted (normalize_advertise_domains ds)" "distinct (normalize_advertise_domains ds)"
  by (simp_all add: normalize_advertise_domains_def sorted_remdups)

section \<open>DNS wire form\<close>

text \<open>The reader of RFC 1035, section 3.1: labels of one to 63 bytes, ended by a zero length.\<close>

function dns_labels :: "bytes \<Rightarrow> (bytes list \<times> bytes) option" where
  "dns_labels s =
     (case s of [] \<Rightarrow> None
      | n # s' \<Rightarrow>
          (if n = 0 then Some ([], s')
           else if n > 63 \<or> length s' < unat n then None
           else map_option (\<lambda>(ls, rest). (take (unat n) s' # ls, rest)) (dns_labels (drop (unat n) s'))))"
  by pat_completeness auto
termination
  by (relation "measure length") auto

declare dns_labels.simps [simp del]

lemma push_labels_ok:
  "\<forall>l\<in>set ls. l \<noteq> [] \<and> length l \<le> 63 \<and> is_ascii l \<Longrightarrow>
     push_labels ls = Some (concat (map (\<lambda>l. word_of_nat (length l) # l) ls))"
  by (induction ls) auto

lemma dns_labels_Nil: "dns_labels (0 # rest) = Some ([], rest)"
  by (simp add: dns_labels.simps)

lemma dns_labels_Cons:
  assumes "l \<noteq> []" and "length l \<le> 63"
  shows "dns_labels (word_of_nat (length l) # l @ s) =
    map_option (\<lambda>(ls, rest). (l # ls, rest)) (dns_labels s)"
proof -
  have n: "unat (word_of_nat (length l) :: u8) = length l" using assms(2) by simp
  then have "(word_of_nat (length l) :: u8) \<noteq> 0" and "\<not> (word_of_nat (length l) :: u8) > 63"
    using assms by (auto simp: word_less_nat_alt simp flip: unat_eq_0)
  then show ?thesis using n by (subst dns_labels.simps) simp
qed

lemma dns_labels_concat:
  "\<forall>l\<in>set ls. l \<noteq> [] \<and> length l \<le> 63 \<Longrightarrow>
     dns_labels (concat (map (\<lambda>l. word_of_nat (length l) # l) ls) @ 0 # rest) = Some (ls, rest)"
  by (induction ls) (simp_all add: dns_labels_Nil dns_labels_Cons)

lemma length_label_bytes:
  assumes "ls \<noteq> []"
  shows "length (concat (map (\<lambda>l. (word_of_nat (length l) :: u8) # l) ls)) = Suc (length (join_with c ls))"
  unfolding length_join [OF assms] by (simp only: length_concat map_map comp_def list.size add_0_right add_Suc_right)

lemma domain_ok_labels:
  "domain_ok d \<Longrightarrow> l \<in> set (split_on 0x2e d) \<Longrightarrow> l \<noteq> [] \<and> length l \<le> 63 \<and> is_ascii l"
  using label_visible [of l]
  by (auto simp: domain_ok_def list_all_iff is_ascii_def) (auto simp: label_ok_def)

lemma encode_dns_name_normal:
  assumes d: "domain_ok d"
  shows "encode_dns_name d =
    Some (concat (map (\<lambda>l. word_of_nat (length l) # l) (split_on 0x2e d)) @ [0])"
proof -
  have "push_labels (split_on 0x2e d) =
      Some (concat (map (\<lambda>l. word_of_nat (length l) # l) (split_on 0x2e d)))"
    using domain_ok_labels [OF d] by (intro push_labels_ok) blast
  then show ?thesis by (simp add: encode_dns_name_def normalize_fixed [OF d])
qed

lemma encode_dns_name_Some:
  "encode_dns_name d = Some w \<longleftrightarrow>
     (\<exists>n. normalize_advertise_domain d = Some n \<and> encode_dns_name n = Some w)"
  using normalize_fixed [OF normalize_ok]
  by (auto simp: encode_dns_name_def split: option.splits)

lemma encode_dns_name_None: "encode_dns_name d = None \<longleftrightarrow> normalize_advertise_domain d = None"
  using encode_dns_name_normal [OF normalize_ok] normalize_fixed [OF normalize_ok]
  by (auto simp: encode_dns_name_def split: option.splits)


section \<open>Service parameters and the option payload\<close>

lemma append_svc_param_Some:
  "append_svc_param ps k v = Some qs \<longleftrightarrow>
     length v \<le> 65535 \<and> qs = ps @ u16_to_be_bytes k @ u16_to_be_bytes (word_of_nat (length v)) @ v"
  by (auto simp: append_svc_param_def)

text \<open>The two length bytes of an instance count the bytes after them.\<close>

lemma dnr_instance_length:
  assumes "encode_dhcpv4_dnr_instance d ips port path = Some inst"
  shows "\<exists>body. inst = u16_to_be_bytes (word_of_nat (length body)) @ body \<and> length body < 65536"
proof -
  have len4: "length (concat (map u32_to_be_bytes ips)) = length ips * 4"
    by (induction ips) simp_all
  obtain adn svc where adn: "encode_dns_name d = Some adn" and svc: "encode_doh_svc_params port path = Some svc"
    using assms by (auto simp: encode_dhcpv4_dnr_instance_def split: option.splits if_splits)
  let ?body = "u16_to_be_bytes 1 @ word_of_nat (length adn) # adn @
     word_of_nat (length ips * 4) # concat (map u32_to_be_bytes ips) @ svc"
  have body: "length ?body = 4 + length adn + length ips * 4 + length svc"
    by (simp add: len4)
  have "inst = u16_to_be_bytes (word_of_nat (4 + length adn + length ips * 4 + length svc)) @ ?body \<and>
      4 + length adn + length ips * 4 + length svc < 65536"
    using assms adn svc
    by (auto simp: encode_dhcpv4_dnr_instance_def Let_def simp del: of_nat_add of_nat_mult split: if_splits)
  then show ?thesis unfolding body [symmetric] by blast
qed

definition dnr_instances :: "bytes list \<Rightarrow> u32 list \<Rightarrow> u16 \<Rightarrow> bytes \<Rightarrow> bytes list" where
  "dnr_instances domains ips port path =
     List.map_filter (\<lambda>d. encode_dhcpv4_dnr_instance d ips port path) domains"

lemma dnr_loop_whole:
  "\<exists>sel. subseq sel (dnr_instances domains ips port path) \<and>
     dnr_payload_loop domains ips port path max_len payload = payload @ concat sel \<and>
     (length payload \<le> max_len \<longrightarrow> length (payload @ concat sel) \<le> max_len)"
proof (induction domains arbitrary: payload)
  case (Cons d ds)
  show ?case
  proof (cases "encode_dhcpv4_dnr_instance d ips port path")
    case None
    with Cons.IH [of payload] show ?thesis by (simp add: dnr_instances_def map_filter_simps)
  next
    case (Some inst)
    then have di: "dnr_instances (d # ds) ips port path = inst # dnr_instances ds ips port path"
      by (simp add: dnr_instances_def map_filter_simps)
    show ?thesis
    proof (cases "length payload + length inst > max_len")
      case True
      from Cons.IH [of payload] obtain sel where "subseq sel (dnr_instances ds ips port path)"
        "dnr_payload_loop ds ips port path max_len payload = payload @ concat sel"
        "length payload \<le> max_len \<longrightarrow> length (payload @ concat sel) \<le> max_len" by blast
      with True Some di show ?thesis by (intro exI [of _ sel]) auto
    next
      case False
      from Cons.IH [of "payload @ inst"] obtain sel where "subseq sel (dnr_instances ds ips port path)"
        "dnr_payload_loop ds ips port path max_len (payload @ inst) = (payload @ inst) @ concat sel"
        "length (payload @ inst) \<le> max_len \<longrightarrow> length ((payload @ inst) @ concat sel) \<le> max_len" by blast
      with False Some di show ?thesis by (intro exI [of _ "inst # sel"]) auto
    qed
  qed
qed (auto simp: dnr_instances_def map_filter_simps)

text \<open>C37: The wire form of a domain name decodes to the labels of the normalised name, is followed by
  exactly what follows it on the wire, and takes two bytes more than the name: at most 255, the
  limit of RFC 1035.  Encoding fails only for a name that does not normalise.
\<close>

theorem dns_name_round_trip:
  "(case encode_dns_name name of
      None \<Rightarrow> normalize_advertise_domain name = None
    | Some w \<Rightarrow>
        (\<exists>n. normalize_advertise_domain name = Some n \<and> normalize_advertise_domain n = Some n \<and>
             dns_labels (w @ rest) = Some (split_on 0x2e n, rest) \<and>
             join_with 0x2e (split_on 0x2e n) = n \<and>
             length w = length n + 2 \<and> length w \<le> 255))"
proof (cases "normalize_advertise_domain name")
  case None
  then show ?thesis by (simp add: encode_dns_name_def)
next
  case (Some n)
  note ok = normalize_ok [OF Some]
  let ?w = "concat (map (\<lambda>l. word_of_nat (length l) # l) (split_on 0x2e n)) @ [0]"
  have enc: "encode_dns_name name = Some ?w"
    using encode_dns_name_Some encode_dns_name_normal [OF ok] Some by blast
  have dec: "dns_labels (?w @ rest) = Some (split_on 0x2e n, rest)"
    using dns_labels_concat [of "split_on 0x2e n" rest] domain_ok_labels [OF ok] by auto
  have len: "length ?w = length n + 2"
    using length_label_bytes [OF split_on_not_Nil, of "0x2e" n "0x2e"] by simp
  have "length n \<le> 253" using ok by (simp add: domain_ok_def)
  then show ?thesis unfolding enc option.case
    using Some normalize_fixed [OF ok] dec len by (intro exI [of _ n]) simp
qed

text \<open>An instance as the receiver splits it: two length bytes that count the bytes after them.\<close>

definition framed :: "bytes \<Rightarrow> bool" where
  "framed inst \<longleftrightarrow>
     length inst \<ge> 2 \<and> unat (u16_from_be_bytes (inst ! 0) (inst ! 1)) = length inst - 2"

lemma framedI: "length body < 65536 \<Longrightarrow> framed (u16_to_be_bytes (word_of_nat (length body)) @ body)"
  by (simp add: framed_def u16_to_be_bytes_def)

lemma dnr_instances_framed: "list_all framed (dnr_instances domains ips port path)"
  using framedI by (fastforce simp: list_all_iff dnr_instances_def List.map_filter_def dest: dnr_instance_length)

lemma list_all_subseq: "subseq xs ys \<Longrightarrow> list_all P ys \<Longrightarrow> list_all P xs"
  by (auto simp: list_all_iff dest: list_emb_set [where P = "(=)"])

text \<open>The payload of DHCP option 162 never exceeds the limit it is given, and it is a sequence of
  whole instances, a subsequence of those of the configured domains, each with a length field that
  counts exactly its bytes: no instance is cut.
\<close>

theorem dnr_payload_whole:
  "length (encode_dhcpv4_dnr_payload_truncated domains ips port path max_len) \<le> max_len \<and>
   (\<exists>sel. subseq sel (dnr_instances domains ips port path) \<and> list_all framed sel \<and>
      encode_dhcpv4_dnr_payload_truncated domains ips port path max_len = concat sel)"
  using dnr_loop_whole [of domains ips port path max_len "[]"]
    list_all_subseq [OF _ dnr_instances_framed]
  by (auto simp: encode_dhcpv4_dnr_payload_truncated_def)

end
