(* ===== verification/Dhcp4_Config.thy ===== *)
theory Dhcp4_Config
  imports Dhcp_Message Dnr
begin

text \<open>
  Configuration of the DHCPv4 server (\<open>landscape-common/src/lan_service/lan_dhcpv4/config.rs\<close>) and
  the option filter of \<open>v4_helpers.rs\<close> that relies on it.

  Error messages are constructors, one per \<open>return Err\<close>.  \<open>enc\<close> is \<open>dhcproto\<close>'s encoder of one
  option, \<open>None\<close> where it fails.
\<close>

section \<open>Option codes\<close>

definition PROTOCOL_RESERVED_OPTION_CODES :: "u8 list" where
  "PROTOCOL_RESERVED_OPTION_CODES = [0, 255]"

definition SERVER_MANAGED_OPTION_CODES :: "u8 list" where
  "SERVER_MANAGED_OPTION_CODES = [1, 3, 6, 51, 53, 54]"

definition MAX_CUSTOM_OPTION_DATA_LEN :: nat where "MAX_CUSTOM_OPTION_DATA_LEN = 255"

definition is_reserved_option_code :: "u8 \<Rightarrow> bool" where
  "is_reserved_option_code code \<longleftrightarrow>
     code \<in> set PROTOCOL_RESERVED_OPTION_CODES \<or> code \<in> set SERVER_MANAGED_OPTION_CODES"

definition is_server_managed :: "u8 \<Rightarrow> bool" where
  "is_server_managed code \<longleftrightarrow> code \<in> set SERVER_MANAGED_OPTION_CODES"

section \<open>Custom options\<close>

datatype DhcpV4DnrOptionConfig =
    Local
  | Custom (dnr_domains: "bytes list") (dnr_ips: "u32 list") (dnr_port: "u16 option")
      (dnr_doh_path: "bytes option")

datatype 'x CustomDhcpOption =
    CustomTFTPServerName bytes
  | CustomBootfileName bytes
  | CustomVendorExtensions bytes
  | CustomRelayAgentInformation 'x
  | Dnr DhcpV4DnrOptionConfig

datatype hex_error = OddLength nat | InvalidHexChar u8

datatype option_error =
    DnrNeedsContext
  | EncodeFailed u8
  | EncodedNoData u8
  | UnexpectedCode u8 u8
  | DataEmpty u8
  | DataTooLong u8 nat
  | TextEmpty u8
  | TextNotAscii u8
  | TextTooLong u8 nat
  | VendorHex hex_error
  | VendorTooLong nat
  | RelayEncodeFailed option_error
  | InvalidDnrDomain bytes
  | InvalidDnrIpv4 u32
  | InvalidPort
  | InvalidDohPath

fun custom_code :: "'x CustomDhcpOption \<Rightarrow> u8" where
  "custom_code (CustomTFTPServerName _) = 66"
| "custom_code (CustomBootfileName _) = 67"
| "custom_code (CustomVendorExtensions _) = 43"
| "custom_code (CustomRelayAgentInformation _) = 82"
| "custom_code (Dnr _) = 162"

definition from_hex_digit :: "u8 \<Rightarrow> u8 option" where
  "from_hex_digit b =
     (if 0x30 \<le> b \<and> b \<le> 0x39 then Some (b - 0x30)
      else if 0x61 \<le> b \<and> b \<le> 0x66 then Some (b - 0x61 + 10)
      else if 0x41 \<le> b \<and> b \<le> 0x46 then Some (b - 0x41 + 10)
      else None)"

text \<open>The chunks of two; a chunk of one, which the length check excludes, is an index out of range.\<close>

fun hex_chunks :: "bytes \<Rightarrow> (hex_error + bytes) outcome" where
  "hex_chunks [] = Returned (Inr [])"
| "hex_chunks [a] = (case from_hex_digit a of None \<Rightarrow> Returned (Inl (InvalidHexChar a)) | Some _ \<Rightarrow> Panicked)"
| "hex_chunks (a # b # rest) =
     (case from_hex_digit a of None \<Rightarrow> Returned (Inl (InvalidHexChar a)) | Some hi \<Rightarrow>
     (case from_hex_digit b of None \<Rightarrow> Returned (Inl (InvalidHexChar b)) | Some lo \<Rightarrow>
      and_then (hex_chunks rest) (\<lambda>r. case r of
          Inl e \<Rightarrow> Returned (Inl e)
        | Inr bs \<Rightarrow> Returned (Inr ((push_bit 4 hi OR lo) # bs)))))"

definition hex_decode :: "bytes \<Rightarrow> (hex_error + bytes) outcome" where
  "hex_decode hex =
     (let hex = trim hex
      in if hex = [] then Returned (Inr [])
         else if odd (length hex) then Returned (Inl (OddLength (length hex)))
         else hex_chunks hex)"

fun to_dhcp_option :: "'x CustomDhcpOption \<Rightarrow> 'x DhcpV4Option outcome" where
  "to_dhcp_option (CustomTFTPServerName s) = Returned (TFTPServerName s)"
| "to_dhcp_option (CustomBootfileName s) = Returned (BootfileName s)"
| "to_dhcp_option (CustomVendorExtensions hex) =
     and_then (hex_decode hex) (\<lambda>r. case r of Inl _ \<Rightarrow> Panicked | Inr bs \<Rightarrow> Returned (VendorExtensions bs))"
| "to_dhcp_option (CustomRelayAgentInformation info) = Returned (RelayAgentInformation info)"
| "to_dhcp_option (Dnr _) = Panicked"

definition is_dnr :: "'x CustomDhcpOption \<Rightarrow> bool" where
  "is_dnr opt \<longleftrightarrow> (case opt of Dnr _ \<Rightarrow> True | _ \<Rightarrow> False)"

definition to_raw ::
  "('x DhcpV4Option \<Rightarrow> bytes option) \<Rightarrow> 'x CustomDhcpOption \<Rightarrow> (option_error + u8 \<times> bytes) outcome" where
  "to_raw enc self =
     (if is_dnr self then Returned (Inl DnrNeedsContext)
      else and_then (to_dhcp_option self) (\<lambda>opt.
        case enc opt of
          None \<Rightarrow> Returned (Inl (EncodeFailed (custom_code self)))
        | Some buf \<Rightarrow>
            if length buf < 2 then Returned (Inl (EncodedNoData (custom_code self)))
            else if buf ! 0 \<noteq> custom_code self
                 then Returned (Inl (UnexpectedCode (custom_code self) (buf ! 0)))
            else if unat (buf ! 1) = 0 then Returned (Inl (DataEmpty (custom_code self)))
            else if unat (buf ! 1) \<noteq> length buf - 2
                 then Returned (Inl (DataTooLong (custom_code self) (length buf - 2)))
            else Returned (Inr (buf ! 0, drop 2 buf))))"

fun validate_dnr_ips :: "u32 list \<Rightarrow> option_error option" where
  "validate_dnr_ips [] = None"
| "validate_dnr_ips (ip # ips) =
     (if \<not> is_valid_dnr_ipv4_addr ip then Some (InvalidDnrIpv4 ip) else validate_dnr_ips ips)"

fun validate_dnr_domains :: "bytes list \<Rightarrow> option_error option" where
  "validate_dnr_domains [] = None"
| "validate_dnr_domains (d # ds) =
     (if normalize_advertise_domain d = None then Some (InvalidDnrDomain d) else validate_dnr_domains ds)"

text \<open>\<open>None\<close> is \<open>Ok(())\<close>.\<close>

fun validate_dnr_config :: "DhcpV4DnrOptionConfig \<Rightarrow> option_error option" where
  "validate_dnr_config Local = None"
| "validate_dnr_config (Custom domains ips port doh_path) =
     (case validate_dnr_domains domains of Some e \<Rightarrow> Some e | None \<Rightarrow>
     (case validate_dnr_ips ips of Some e \<Rightarrow> Some e | None \<Rightarrow>
      if port = Some 0 then Some InvalidPort
      else (case doh_path of None \<Rightarrow> None | Some path \<Rightarrow>
        if normalize_doh_path_template path = None then Some InvalidDohPath else None)))"

definition validate_text :: "u8 \<Rightarrow> bytes \<Rightarrow> option_error option" where
  "validate_text code s =
     (if s = [] then Some (TextEmpty code)
      else if \<not> is_ascii s then Some (TextNotAscii code)
      else if length s > MAX_CUSTOM_OPTION_DATA_LEN then Some (TextTooLong code (length s))
      else None)"

fun custom_validate ::
  "('x DhcpV4Option \<Rightarrow> bytes option) \<Rightarrow> 'x CustomDhcpOption \<Rightarrow> option_error option outcome" where
  "custom_validate enc (CustomTFTPServerName s) = Returned (validate_text 66 s)"
| "custom_validate enc (CustomBootfileName s) = Returned (validate_text 67 s)"
| "custom_validate enc (CustomVendorExtensions hex) =
     (if hex = [] then Returned (Some (TextEmpty 43))
      else and_then (hex_decode hex) (\<lambda>r. case r of
          Inl e \<Rightarrow> Returned (Some (VendorHex e))
        | Inr bs \<Rightarrow> Returned (if length bs > MAX_CUSTOM_OPTION_DATA_LEN then Some (VendorTooLong (length bs))
                            else None)))"
| "custom_validate enc (CustomRelayAgentInformation info) =
     and_then (to_raw enc (CustomRelayAgentInformation info)) (\<lambda>r. case r of
         Inl e \<Rightarrow> Returned (Some (RelayEncodeFailed e))
       | Inr _ \<Rightarrow> Returned None)"
| "custom_validate enc (Dnr config) = Returned (validate_dnr_config config)"

datatype config_error =
    BadOption u8 option_error
  | DuplicateOption u8
  | FilterReserved u8
  | FilterServerManaged u8
  | DuplicateFilter u8
  | BadMask u8
  | ServerNotUsable u32 u8
  | RangeStartNotInSubnet u32 u8
  | RangeStartIsServer u32
  | RangeEndNotInSubnet u32 u8
  | RangeEndBeforeStart u32 u32
  | BadLeaseTime

fun validate_custom_loop ::
  "('x DhcpV4Option \<Rightarrow> bytes option) \<Rightarrow> 'x CustomDhcpOption list \<Rightarrow> u8 list \<Rightarrow> config_error option outcome" where
  "validate_custom_loop enc [] seen = Returned None"
| "validate_custom_loop enc (opt # opts) seen =
     and_then (custom_validate enc opt) (\<lambda>r. case r of
         Some e \<Rightarrow> Returned (Some (BadOption (custom_code opt) e))
       | None \<Rightarrow> (if custom_code opt \<in> set seen then Returned (Some (DuplicateOption (custom_code opt)))
                  else validate_custom_loop enc opts (custom_code opt # seen)))"

definition validate_custom_options ::
  "('x DhcpV4Option \<Rightarrow> bytes option) \<Rightarrow> 'x CustomDhcpOption list \<Rightarrow> config_error option outcome" where
  "validate_custom_options enc opts = validate_custom_loop enc opts []"

fun validate_filter_loop :: "u8 list \<Rightarrow> u8 list \<Rightarrow> config_error option" where
  "validate_filter_loop [] seen = None"
| "validate_filter_loop (code # codes) seen =
     (if code \<in> set PROTOCOL_RESERVED_OPTION_CODES then Some (FilterReserved code)
      else if is_server_managed code then Some (FilterServerManaged code)
      else if code \<in> set seen then Some (DuplicateFilter code)
      else validate_filter_loop codes (code # seen))"

definition validate_filter_options :: "u8 list \<Rightarrow> config_error option" where
  "validate_filter_options filters = validate_filter_loop filters []"

section \<open>Server configuration\<close>

record 'x DHCPv4ServerConfig =
  ip_range_start :: u32
  ip_range_end :: "u32 option"
  server_ip_addr :: u32
  network_mask :: u8
  address_lease_time :: "u32 option"
  custom_options :: "'x CustomDhcpOption list"

text \<open>\<open>u32\<close> shifts of a release build take the amount modulo 32.\<close>

definition shl32 :: "u32 \<Rightarrow> u8 \<Rightarrow> u32" where
  "shl32 w n = push_bit (unat (n AND 31)) w"

definition shr32 :: "u32 \<Rightarrow> u8 \<Rightarrow> u32" where
  "shr32 w n = drop_bit (unat (n AND 31)) w"

definition is_usable_host :: "u32 \<Rightarrow> u32 \<Rightarrow> u32 \<Rightarrow> u32 \<Rightarrow> bool" where
  "is_usable_host mask_bits network broadcast ip \<longleftrightarrow>
     ip AND mask_bits = network \<and> ip \<noteq> network \<and> ip \<noteq> broadcast"

definition config_validate ::
  "('x DhcpV4Option \<Rightarrow> bytes option) \<Rightarrow> 'x DHCPv4ServerConfig \<Rightarrow> config_error option outcome" where
  "config_validate enc self =
     (if network_mask self = 0 \<or> network_mask self > 30 then Returned (Some (BadMask (network_mask self)))
      else
       let mask_bits = shl32 0xffffffff (32 - network_mask self);
           network = server_ip_addr self AND mask_bits;
           broadcast = network OR NOT mask_bits
       in if \<not> is_usable_host mask_bits network broadcast (server_ip_addr self)
          then Returned (Some (ServerNotUsable (server_ip_addr self) (network_mask self)))
          else if \<not> is_usable_host mask_bits network broadcast (ip_range_start self)
          then Returned (Some (RangeStartNotInSubnet (ip_range_start self) (network_mask self)))
          else if ip_range_start self = server_ip_addr self
          then Returned (Some (RangeStartIsServer (ip_range_start self)))
          else case (case ip_range_end self of
                       None \<Rightarrow> None
                     | Some e \<Rightarrow>
                         if e AND mask_bits \<noteq> network \<or> e = network
                         then Some (RangeEndNotInSubnet e (network_mask self))
                         else if e < ip_range_start self
                         then Some (RangeEndBeforeStart e (ip_range_start self))
                         else None) of
             Some err \<Rightarrow> Returned (Some err)
           | None \<Rightarrow>
               if address_lease_time self = Some 0 then Returned (Some BadLeaseTime)
               else validate_custom_options enc (custom_options self))"

definition get_ip_range :: "'x DHCPv4ServerConfig \<Rightarrow> u32 \<times> u32" where
  "get_ip_range self =
     (let start = ip_range_start self;
          stop = (case ip_range_end self of
                    Some e \<Rightarrow> e
                  | None \<Rightarrow>
                      (let network = start AND shl32 0xffffffff (32 - network_mask self);
                           broadcast = network OR shr32 0xffffffff (network_mask self)
                       in broadcast - 1))
      in (start, stop))"

definition has_ip_range_overlap :: "'x DHCPv4ServerConfig \<Rightarrow> 'x DHCPv4ServerConfig \<Rightarrow> bool" where
  "has_ip_range_overlap self other =
     (let (start1, end1) = get_ip_range self; (start2, end2) = get_ip_range other
      in start1 \<le> end2 \<and> start2 \<le> end1)"

definition LANDSCAPE_DHCP_DEFAULT_ADDRESS_LEASE_TIME :: u32 where
  "LANDSCAPE_DHCP_DEFAULT_ADDRESS_LEASE_TIME = 60 * 60 * 12"

definition DHCPv4ServerConfig_default :: "'x DHCPv4ServerConfig" where
  "DHCPv4ServerConfig_default =
     \<lparr>ip_range_start = 0xc0a80564, ip_range_end = None, server_ip_addr = 0xc0a80501,
      network_mask = 24, address_lease_time = Some LANDSCAPE_DHCP_DEFAULT_ADDRESS_LEASE_TIME,
      custom_options = []\<rparr>"

section \<open>Filtering a reply\<close>

definition apply_custom_and_filter ::
  "'x DhcpV4Message \<Rightarrow> (u8 \<times> bytes) list \<Rightarrow> u8 list \<Rightarrow> 'x DhcpV4Message" where
  "apply_custom_and_filter msg custom_opts filter_set =
     (let kept = hm_retain (\<lambda>code _. code \<notin> set filter_set \<or> is_server_managed code) (dm_opts msg)
      in msg\<lparr>dm_opts := fold (\<lambda>(code, data) opts. opts_insert (UnknownOption code data) opts)
                          (filter (\<lambda>(code, _). code \<notin> set filter_set) custom_opts) kept\<rparr>)"


section \<open>Custom options: lemmas\<close>

lemma hex_chunks_even: "even (length s) \<Longrightarrow> \<exists>r. hex_chunks s = Returned r"
proof (induction s rule: hex_chunks.induct)
  case (3 a b rest)
  show ?case
  proof (cases "from_hex_digit a = None \<or> from_hex_digit b = None")
    case True
    then show ?thesis by (auto split: option.split)
  next
    case False
    then obtain hi lo where d: "from_hex_digit a = Some hi" "from_hex_digit b = Some lo" by auto
    from 3 d obtain r where "hex_chunks rest = Returned r" by auto
    with d show ?thesis by (cases r) simp_all
  qed
qed auto

lemma hex_decode_total: "\<exists>r. hex_decode s = Returned r"
  by (auto simp: hex_decode_def Let_def intro: hex_chunks_even)

lemma to_dhcp_option_total:
  "custom_validate enc opt = Returned None \<Longrightarrow> \<not> is_dnr opt \<Longrightarrow> \<exists>o'. to_dhcp_option opt = Returned o'"
proof (cases opt)
  case (CustomVendorExtensions hex)
  assume "custom_validate enc opt = Returned None"
  then obtain bs where "hex_decode hex = Returned (Inr bs)"
    using hex_decode_total [of hex] CustomVendorExtensions
    by (auto split: if_splits sum.splits)
  then show ?thesis using CustomVendorExtensions by simp
qed (auto simp: is_dnr_def)

lemma to_raw_total:
  assumes "is_dnr opt \<or> (\<exists>o'. to_dhcp_option opt = Returned o')"
  shows "\<exists>r. to_raw enc opt = Returned r"
proof (cases "is_dnr opt")
  case True
  then show ?thesis by (simp add: to_raw_def)
next
  case False
  with assms obtain o' where "to_dhcp_option opt = Returned o'" by blast
  then show ?thesis using False by (cases "enc o'") (simp_all add: to_raw_def)
qed

lemma custom_validate_total: "\<exists>r. custom_validate enc opt = Returned r"
proof (cases opt)
  case (CustomVendorExtensions hex)
  then show ?thesis using hex_decode_total [of hex] by (auto split: sum.splits)
next
  case (CustomRelayAgentInformation info)
  have "\<exists>r. to_raw enc (CustomRelayAgentInformation info) = Returned r"
    by (intro to_raw_total) simp
  then show ?thesis using CustomRelayAgentInformation by (auto split: sum.splits)
qed auto

lemma validate_custom_loop_total: "\<exists>r. validate_custom_loop enc opts seen = Returned r"
proof (induction opts arbitrary: seen)
  case (Cons opt opts)
  obtain r where "custom_validate enc opt = Returned r" using custom_validate_total by blast
  then show ?case using Cons by (cases r) auto
qed simp

lemma validate_custom_loop_None:
  "validate_custom_loop enc opts seen = Returned None \<Longrightarrow>
     (\<forall>opt\<in>set opts. custom_validate enc opt = Returned None) \<and>
     distinct (map custom_code opts) \<and> (\<forall>opt\<in>set opts. custom_code opt \<notin> set seen)"
proof (induction opts arbitrary: seen)
  case (Cons opt opts)
  obtain r where r: "custom_validate enc opt = Returned r" using custom_validate_total by blast
  with Cons.prems have r0: "r = None" and fresh: "custom_code opt \<notin> set seen"
    and rest: "validate_custom_loop enc opts (custom_code opt # seen) = Returned None"
    by (auto split: option.splits if_splits)
  from Cons.IH [OF rest] r r0 fresh show ?case by auto
qed simp

text \<open>The digits of a byte, as a printer writes them, and the law of the decoder on them.\<close>

definition hex_digit :: "u8 \<Rightarrow> u8" where
  "hex_digit n = (if n < 10 then 0x30 + n else 0x61 + (n - 10))"

fun hex_encode :: "bytes \<Rightarrow> bytes" where
  "hex_encode [] = []"
| "hex_encode (b # bs) = hex_digit (drop_bit 4 b) # hex_digit (b AND 15) # hex_encode bs"

lemma hex_digit_spec:
  assumes "n < (16 :: u8)"
  shows "from_hex_digit (hex_digit n) = Some n \<and> 0x21 \<le> hex_digit n \<and> hex_digit n < 0x80"
proof -
  have n16: "unat n < 16" using assms by (simp add: word_less_nat_alt)
  show ?thesis
  proof (cases "n < 10")
    case True
    then have "unat n < 10" by (simp add: word_less_nat_alt)
    then have u: "unat (0x30 + n) = 48 + unat n" by (simp add: unat_word_ariths)
    then have "0x30 \<le> 0x30 + n" "0x30 + n \<le> 0x39" "0x21 \<le> 0x30 + n" "0x30 + n < 0x80"
      using \<open>unat n < 10\<close> by (simp_all add: word_le_nat_alt word_less_nat_alt)
    then show ?thesis using True by (simp add: hex_digit_def from_hex_digit_def)
  next
    case False
    then have "10 \<le> unat n" by (simp add: word_less_nat_alt)
    then have "unat (n - 10) = unat n - 10" by (simp add: unat_sub word_le_nat_alt)
    then have u: "unat (0x61 + (n - 10)) = 87 + unat n"
      using n16 \<open>10 \<le> unat n\<close> by (simp add: unat_word_ariths)
    then have "0x61 \<le> 0x61 + (n - 10)" "0x61 + (n - 10) \<le> 0x66" "0x21 \<le> 0x61 + (n - 10)"
      "0x61 + (n - 10) < 0x80" "\<not> 0x61 + (n - 10) \<le> 0x39"
      using n16 \<open>10 \<le> unat n\<close> by (simp_all add: word_le_nat_alt word_less_nat_alt)
    then show ?thesis using False by (simp add: hex_digit_def from_hex_digit_def)
  qed
qed

lemma nibbles_less: "drop_bit 4 b < (16 :: u8)" "b AND 15 < (16 :: u8)"
proof -
  have "unat (drop_bit 4 b) = unat b div 16" by (simp only: unat_drop_bit_eq) (simp add: drop_bit_eq_div)
  also have "\<dots> < 16" using unat_u8_less [of b] by linarith
  finally show "drop_bit 4 b < (16 :: u8)" by (simp add: word_less_nat_alt)
  have "b AND 15 \<le> (15 :: u8)" by (rule word_and_le1)
  then show "b AND 15 < (16 :: u8)" by (rule order_le_less_trans) simp
qed

lemma nibbles_join: "push_bit 4 (drop_bit 4 b) OR (b AND 15) = (b :: u8)"
proof (rule bit_word_eqI)
  fix n assume "n < LENGTH(8)"
  have fifteen: "(15 :: u8) = mask 4" by (simp add: mask_eq_exp_minus_1)
  show "bit (push_bit 4 (drop_bit 4 b) OR b AND 15) n = bit b n"
    using \<open>n < LENGTH(8)\<close> unfolding fifteen by (auto simp: bit_simps)
qed

lemma hex_chunks_encode: "hex_chunks (hex_encode bs) = Returned (Inr bs)"
  by (induction bs) (simp_all add: hex_digit_spec nibbles_less nibbles_join)

lemma hex_encode_visible: "b \<in> set (hex_encode bs) \<Longrightarrow> 0x21 \<le> b \<and> b < 0x80"
  by (induction bs) (auto simp: hex_digit_spec nibbles_less)

lemma hex_encode_length: "length (hex_encode bs) = 2 * length bs"
  by (induction bs) auto

lemma hex_decode_encode: "hex_decode (hex_encode bs) = Returned (Inr bs)"
proof (cases "hex_encode bs = []")
  case True
  then have "bs = []" by (cases bs) auto
  then show ?thesis by (simp add: hex_decode_def trim_def trim_start_def trim_end_def strip_all.simps match_len_def
      white_space_def)
next
  case False
  then have "trim (hex_encode bs) = hex_encode bs"
    using hex_encode_visible [OF hd_in_set] hex_encode_visible [OF last_in_set]
    by (intro trim_visible) auto
  then show ?thesis using False by (simp add: hex_decode_def hex_encode_length hex_chunks_encode)
qed

lemma hex_decode_odd_example: "hex_decode (utf8 ''f'') = Returned (Inl (OddLength 1))"
  by code_simp

text \<open>Checking a custom option never panics, and an option that passed the check never panics when
  the server later encodes it; without the check, a hex string with an odd digit or a foreign
  character does.  Every byte string is the value of some hex string the check accepts.
\<close>

theorem validated_option_never_panics:
  "(\<exists>r. custom_validate enc opt = Returned r) \<and>
   (custom_validate enc opt = Returned None \<longrightarrow> (\<exists>r. to_raw enc opt = Returned r)) \<and>
   to_raw enc (CustomVendorExtensions (utf8 ''f'')) = Panicked \<and>
   hex_decode (hex_encode bs) = Returned (Inr bs)"
proof (intro conjI impI)
  show "\<exists>r. custom_validate enc opt = Returned r" by (rule custom_validate_total)
  show "\<exists>r. to_raw enc opt = Returned r" if "custom_validate enc opt = Returned None"
    using to_dhcp_option_total [OF that] by (intro to_raw_total) blast
  show "to_raw enc (CustomVendorExtensions (utf8 ''f'')) = Panicked"
    by (simp add: to_raw_def is_dnr_def hex_decode_odd_example)
  show "hex_decode (hex_encode bs) = Returned (Inr bs)" by (rule hex_decode_encode)
qed

theorem validated_option_never_panics_witness:
  "custom_validate (\<lambda>_. None) (CustomTFTPServerName (utf8 ''pxe'') :: unit CustomDhcpOption) = Returned None \<and>
   (\<exists>r. to_raw (\<lambda>_. None) (CustomTFTPServerName (utf8 ''pxe'') :: unit CustomDhcpOption) = Returned r)"
proof -
  have "custom_validate (\<lambda>_. None) (CustomTFTPServerName (utf8 ''pxe'') :: unit CustomDhcpOption) = Returned None"
    by code_simp
  then show ?thesis
    using validated_option_never_panics [of "\<lambda>_. None" "CustomTFTPServerName (utf8 ''pxe'') :: unit CustomDhcpOption"]
    by blast
qed

section \<open>Filtering a reply: lemmas\<close>

lemma custom_fold_get:
  "hm_get (fold (\<lambda>(code, data) opts. opts_insert (UnknownOption code data) opts) cs opts) c =
     (case map_of (rev cs) c of Some d \<Rightarrow> Some (UnknownOption c d) | None \<Rightarrow> hm_get opts c)"
  by (induction cs arbitrary: opts) (auto simp: map_add_def split: option.splits)

lemma custom_fold_ok:
  "hm_ok opts \<Longrightarrow> hm_ok (fold (\<lambda>(code, data) opts. opts_insert (UnknownOption code data) opts) cs opts)"
  by (induction cs arbitrary: opts) auto

lemma map_of_filter_key: "map_of (filter (\<lambda>(k, v). P k) xs) k = (if P k then map_of xs k else None)"
  by (induction xs) auto

lemma apply_filter_get:
  assumes "hm_ok (dm_opts msg)"
  shows "hm_get (dm_opts (apply_custom_and_filter msg custom fs)) c =
    (if c \<notin> set fs \<and> map_of (rev custom) c \<noteq> None
       then map_option (UnknownOption c) (map_of (rev custom) c)
     else if c \<in> set fs \<and> \<not> is_server_managed c then None
     else hm_get (dm_opts msg) c)"
proof -
  have "map_of (rev (filter (\<lambda>(code, _). code \<notin> set fs) custom)) c =
      (if c \<notin> set fs then map_of (rev custom) c else None)"
    using map_of_filter_key [of "\<lambda>k. k \<notin> set fs" "rev custom" c] by (simp add: rev_filter)
  then show ?thesis using assms
    by (auto simp: apply_custom_and_filter_def Let_def custom_fold_get hm.get_ret split: option.splits)
qed

lemma custom_code_not_managed: "\<not> is_server_managed (custom_code opt)"
  by (cases opt) (simp_all add: is_server_managed_def SERVER_MANAGED_OPTION_CODES_def)

section \<open>Subnets\<close>

text \<open>The host part of a validated mask and the addresses between two hosts of one subnet.\<close>

definition host_bits :: "'x DHCPv4ServerConfig \<Rightarrow> nat" where
  "host_bits c = 32 - unat (network_mask c)"

definition subnet_mask :: "'x DHCPv4ServerConfig \<Rightarrow> u32" where
  "subnet_mask c = NOT (mask (host_bits c))"

definition network_addr :: "'x DHCPv4ServerConfig \<Rightarrow> u32" where
  "network_addr c = server_ip_addr c AND subnet_mask c"

definition broadcast_addr :: "'x DHCPv4ServerConfig \<Rightarrow> u32" where
  "broadcast_addr c = network_addr c OR mask (host_bits c)"

lemma and_not_mask_eq_iff:
  "a AND NOT (mask k) = b AND NOT (mask k) \<longleftrightarrow> drop_bit k a = drop_bit k (b :: u32)"
proof
  assume h: "a AND NOT (mask k) = b AND NOT (mask k)"
  show "drop_bit k a = drop_bit k b"
  proof (rule bit_word_eqI)
    fix n assume "n < LENGTH(32)"
    have "bit (a AND NOT (mask k)) (k + n) = bit (b AND NOT (mask k)) (k + n)" using h by simp
    then show "bit (drop_bit k a) n = bit (drop_bit k b) n"
      by (auto simp: bit_simps dest: bit_imp_le_length)
  qed
next
  assume h: "drop_bit k a = drop_bit k b"
  show "a AND NOT (mask k) = b AND NOT (mask k)"
  proof (rule bit_word_eqI)
    fix n assume "n < LENGTH(32)"
    have "bit (drop_bit k a) (n - k) = bit (drop_bit k b) (n - k)" using h by simp
    then show "bit (a AND NOT (mask k)) n = bit (b AND NOT (mask k)) n"
      by (cases "n < k") (auto simp: bit_simps)
  qed
qed

lemma subnet_convex:
  assumes "a AND NOT (mask k) = net" and "b AND NOT (mask k) = net" and "a \<le> x" and "x \<le> b"
  shows "x AND NOT (mask k) = (net :: u32)"
proof -
  have "drop_bit k a = drop_bit k b" using assms(1,2) and_not_mask_eq_iff by metis
  moreover have "unat a div 2 ^ k \<le> unat x div 2 ^ k" "unat x div 2 ^ k \<le> unat b div 2 ^ k"
    using assms(3,4) by (simp_all add: word_le_nat_alt div_le_mono)
  ultimately have "unat (drop_bit k x) = unat (drop_bit k a)"
    by (metis drop_bit_eq_div le_antisym unat_drop_bit_eq)
  then have "drop_bit k x = drop_bit k a" by (simp add: word_unat_eq_iff)
  then show ?thesis using and_not_mask_eq_iff assms(1) by metis
qed

lemma network_le: "x AND NOT (mask k) \<le> (x :: u32)"
  by (rule word_and_le2)

lemma le_broadcast: "(x :: u32) \<le> (x AND NOT (mask k)) OR mask k"
proof -
  have "(x AND NOT (mask k)) OR mask k = x OR mask k"
    by (rule bit_word_eqI) (auto simp: bit_simps)
  then show ?thesis by (simp add: le_word_or2)
qed

end
