(* ===== verification/Dhcp4_Status.thy ===== *)
theory Dhcp4_Status
  imports Dhcp4_Config
begin

text \<open>
  The address table of the DHCPv4 server
  (\<open>landscape/src/lan_service/lan_dhcp4_server/status.rs\<close>).

  \<^item> The state is the record \<open>DhcpV4AssignStatus\<close>; its hash maps are \<open>hmap\<close>s.  \<open>Ipv4Addr\<close> is a
    32-bit word, a \<open>Uuid\<close> a 128-bit word.  \<open>ip_range_start: Ipv4Inet\<close> is the pair of its address and
    its network length.
  \<^item> The crate \<open>cidr\<close> is an argument: \<open>inet_add\<close> is the address of \<open>overflowing_add_u32\<close>,
    \<open>inet_last\<close> is \<open>last_address\<close>.
  \<^item> \<open>relative_boot_time.elapsed().as_secs()\<close> is an argument \<open>now\<close> of the operations that read it;
    \<open>offer_ip\<close>, whose loop may read it again and again, takes the readings of its iterations as \<open>clk\<close>.
  \<^item> The search loop of \<open>offer_ip\<close> has no bound in the code, so the model runs it for \<open>fuel\<close>
    iterations.
\<close>

section \<open>State\<close>

definition OFFER_VALID_TIME :: u32 where "OFFER_VALID_TIME = 20"

record DHCPv4ServerOfferedCache =
  oc_hostname :: "bytes option"
  oc_ip :: u32
  oc_relative_offer_time :: u64
  oc_valid_time :: u32
  oc_is_static :: bool
  oc_prev_ip :: "u32 option"

definition get_expire_time :: "DHCPv4ServerOfferedCache \<Rightarrow> u64" where
  "get_expire_time c = oc_relative_offer_time c + ucast (oc_valid_time c)"

record 'x PerMacDhcpOptions =
  pm_custom_options :: "'x CustomDhcpOption list"
  pm_filter_options :: "u8 list"

datatype IpAllocSource = Static MacAddr | Dynamic | Declined

record 'x StaticBindingEntry =
  sb_ipv4 :: u32
  sb_custom_options :: "'x CustomDhcpOption list"
  sb_filter_options :: "u8 list"
  sb_device_id :: "u128 option"
  sb_hostname :: "bytes option"

text \<open>The fields of \<open>EnrolledDevice\<close> that the server reads.\<close>

record 'x EnrolledDevice =
  ed_id :: u128
  ed_iface_name :: "bytes option"
  ed_hostname :: "bytes option"
  ed_mac :: MacAddr
  ed_ipv4 :: "u32 option"
  ed_dhcp_custom_options :: "'x CustomDhcpOption list"
  ed_dhcp_filter_options :: "u8 list"

definition from_enrolled :: "'x EnrolledDevice \<Rightarrow> 'x StaticBindingEntry option" where
  "from_enrolled device =
     (case ed_ipv4 device of
        None \<Rightarrow> None
      | Some ipv4 \<Rightarrow>
          Some \<lparr>sb_ipv4 = ipv4, sb_custom_options = ed_dhcp_custom_options device,
                sb_filter_options = ed_dhcp_filter_options device,
                sb_device_id = Some (ed_id device), sb_hostname = ed_hostname device\<rparr>)"

record 'x DhcpV4AssignStatus =
  st_range_start :: u32
  st_range_mask :: u8
  st_range_capacity :: u32
  st_static_bindings :: "(MacAddr, 'x StaticBindingEntry) hmap"
  st_ip_owner :: "(u32, MacAddr) hmap"
  st_per_mac_options :: "(MacAddr, 'x PerMacDhcpOptions) hmap"
  st_allocated_host :: "(u32, IpAllocSource) hmap"
  st_offered_ip :: "(MacAddr, DHCPv4ServerOfferedCache) hmap"

section \<open>Start\<close>

definition per_mac_insert ::
  "MacAddr \<Rightarrow> 'x CustomDhcpOption list \<Rightarrow> u8 list \<Rightarrow> 'x DhcpV4AssignStatus \<Rightarrow> 'x DhcpV4AssignStatus" where
  "per_mac_insert mac custom filt st =
     (if custom \<noteq> [] \<or> filt \<noteq> []
      then st\<lparr>st_per_mac_options :=
                hm_insert mac \<lparr>pm_custom_options = custom, pm_filter_options = filt\<rparr> (st_per_mac_options st)\<rparr>
      else st)"

text \<open>The body of the loop over the enrolled devices, in its steps.\<close>

definition enroll_binding :: "'x StaticBindingEntry \<Rightarrow> MacAddr \<Rightarrow> 'x DhcpV4AssignStatus \<Rightarrow> 'x DhcpV4AssignStatus" where
  "enroll_binding entry mac st =
     (let st1 = st\<lparr>st_static_bindings := hm_insert mac entry (st_static_bindings st)\<rparr>
      in case hm_get (st_static_bindings st) mac of
           None \<Rightarrow> st1
         | Some old \<Rightarrow>
             st1\<lparr>st_allocated_host := hm_remove (sb_ipv4 old) (st_allocated_host st1),
                 st_ip_owner := hm_remove (sb_ipv4 old) (st_ip_owner st1)\<rparr>)"

definition enroll_owner :: "u32 \<Rightarrow> MacAddr \<Rightarrow> 'x DhcpV4AssignStatus \<Rightarrow> 'x DhcpV4AssignStatus" where
  "enroll_owner ipv4 mac st =
     (let st1 = st\<lparr>st_ip_owner := hm_insert ipv4 mac (st_ip_owner st)\<rparr>
      in case hm_get (st_ip_owner st) ipv4 of
           None \<Rightarrow> st1
         | Some old_mac \<Rightarrow>
             (if old_mac \<noteq> mac
              then st1\<lparr>st_static_bindings := hm_remove old_mac (st_static_bindings st1),
                       st_offered_ip := hm_remove old_mac (st_offered_ip st1)\<rparr>
              else st1))"

definition enroll_device :: "'x EnrolledDevice \<Rightarrow> 'x DhcpV4AssignStatus \<Rightarrow> 'x DhcpV4AssignStatus" where
  "enroll_device device st =
     (let mac = ed_mac device;
          st1 = (case from_enrolled device of
                   None \<Rightarrow> st
                 | Some entry \<Rightarrow>
                     (let ipv4 = sb_ipv4 entry;
                          st2 = enroll_owner ipv4 mac (enroll_binding entry mac st)
                      in st2\<lparr>st_allocated_host := hm_insert ipv4 (Static mac) (st_allocated_host st2),
                             st_offered_ip :=
                               hm_insert mac \<lparr>oc_hostname = ed_hostname device, oc_ip = ipv4,
                                              oc_relative_offer_time = 0, oc_valid_time = 86400,
                                              oc_is_static = True, oc_prev_ip = None\<rparr>
                                 (st_offered_ip st2)\<rparr>))
      in per_mac_insert mac (ed_dhcp_custom_options device) (ed_dhcp_filter_options device) st1)"

text \<open>\<open>Ipv4Inet::new(\<dots>).unwrap()\<close> panics for a network length over 32.\<close>

definition from_config_and_devices ::
  "(u32 \<Rightarrow> u8 \<Rightarrow> u32) \<Rightarrow> 'x DHCPv4ServerConfig \<Rightarrow> 'x EnrolledDevice list \<Rightarrow> 'x DhcpV4AssignStatus outcome" where
  "from_config_and_devices inet_last config devices =
     (if network_mask config > 32 then Panicked
      else
        let ip_addr_end = (case ip_range_end config of
                             Some addr \<Rightarrow> (if addr \<noteq> 0 then addr
                                           else inet_last (ip_range_start config) (network_mask config))
                           | None \<Rightarrow> inet_last (ip_range_start config) (network_mask config));
            status = \<lparr>st_range_start = ip_range_start config, st_range_mask = network_mask config,
                      st_range_capacity = ip_addr_end - ip_range_start config,
                      st_static_bindings = [], st_ip_owner = [], st_per_mac_options = [],
                      st_allocated_host = [], st_offered_ip = []\<rparr>
        in Returned (fold enroll_device devices status))"

section \<open>Leases\<close>

definition expired_at :: "u64 \<Rightarrow> DHCPv4ServerOfferedCache \<Rightarrow> bool" where
  "expired_at now c \<longleftrightarrow> \<not> oc_is_static c \<and> now > get_expire_time c"

definition clean_expire_ip ::
  "u64 \<Rightarrow> 'x DhcpV4AssignStatus \<Rightarrow> (MacAddr \<times> u32 \<times> bytes option) list \<times> 'x DhcpV4AssignStatus" where
  "clean_expire_ip now st =
     (let expired = map (\<lambda>(mac, c). (mac, oc_ip c, oc_hostname c))
                        (filter (\<lambda>(mac, c). expired_at now c) (st_offered_ip st));
          offered = hm_retain (\<lambda>_ c. \<not> expired_at now c) (st_offered_ip st);
          allocated = hm_retain (\<lambda>_ source. source \<noteq> Declined) (st_allocated_host st);
          allocated = fold (\<lambda>(_, ip, _). hm_remove ip) expired allocated
      in (expired, st\<lparr>st_offered_ip := offered, st_allocated_host := allocated\<rparr>))"

fun offer_loop ::
  "(u32 \<Rightarrow> u8 \<Rightarrow> u32 \<Rightarrow> u32) \<Rightarrow> (nat \<Rightarrow> u64) \<Rightarrow> MacAddr \<Rightarrow> bytes option \<Rightarrow> nat \<Rightarrow> nat \<Rightarrow> u32 \<Rightarrow>
     'x DhcpV4AssignStatus \<Rightarrow> (u32 option \<times> 'x DhcpV4AssignStatus) outcome" where
  "offer_loop inet_add clk mac hostname 0 k seed st = Unfinished"
| "offer_loop inet_add clk mac hostname (Suc fuel) k seed st =
     (let full = (word_of_nat (length (st_allocated_host st)) = st_range_capacity st);
          (expired, st1) = (if full then clean_expire_ip (clk k) st else ([], st))
      in if full \<and> expired = [] then Returned (None, st1)
         else if st_range_capacity st1 = 0 then Panicked
         else
           let index = seed mod st_range_capacity st1;
               address = inet_add (st_range_start st1) (st_range_mask st1) index
           in if hm_contains (st_allocated_host st1) address
              then offer_loop inet_add clk mac hostname fuel (Suc k) (seed + 1) st1
              else Returned (Some address,
                     st1\<lparr>st_offered_ip :=
                           hm_insert mac \<lparr>oc_hostname = hostname, oc_ip = address,
                                          oc_relative_offer_time = clk k,
                                          oc_valid_time = OFFER_VALID_TIME,
                                          oc_is_static = False, oc_prev_ip = None\<rparr> (st_offered_ip st1),
                         st_allocated_host := hm_insert address Dynamic (st_allocated_host st1)\<rparr>))"

definition offer_ip ::
  "(u32 \<Rightarrow> u8 \<Rightarrow> u32 \<Rightarrow> u32) \<Rightarrow> (nat \<Rightarrow> u64) \<Rightarrow> nat \<Rightarrow> MacAddr \<Rightarrow> bytes option \<Rightarrow>
     'x DhcpV4AssignStatus \<Rightarrow> (u32 option \<times> 'x DhcpV4AssignStatus) outcome" where
  "offer_ip inet_add clk fuel mac hostname st =
     (case hm_get (st_static_bindings st) mac of
        Some entry \<Rightarrow>
          (let ip = sb_ipv4 entry;
               hostname = (case hostname of Some h \<Rightarrow> Some h | None \<Rightarrow> sb_hostname entry);
               st1 = (case hm_get (st_offered_ip st) mac of
                        Some old \<Rightarrow>
                          (if oc_ip old \<noteq> ip
                           then st\<lparr>st_allocated_host := hm_remove (oc_ip old) (st_allocated_host st)\<rparr>
                           else st)
                      | None \<Rightarrow> st)
           in Returned (Some ip,
                st1\<lparr>st_offered_ip :=
                      hm_insert mac \<lparr>oc_hostname = hostname, oc_ip = ip,
                                     oc_relative_offer_time = clk 0, oc_valid_time = OFFER_VALID_TIME,
                                     oc_is_static = True, oc_prev_ip = None\<rparr> (st_offered_ip st1),
                    st_allocated_host := hm_insert ip (Static mac) (st_allocated_host st1)\<rparr>))
      | None \<Rightarrow>
          (case hm_get (st_offered_ip st) mac of
             Some c \<Rightarrow> Returned (Some (oc_ip c), st)
           | None \<Rightarrow> offer_loop inet_add clk mac hostname fuel 0 (u32_ckecksum mac) st))"

definition conflicts_with_static_binding :: "MacAddr \<Rightarrow> u32 \<Rightarrow> 'x DhcpV4AssignStatus \<Rightarrow> bool" where
  "conflicts_with_static_binding mac ip st =
     ((case hm_get (st_static_bindings st) mac of Some entry \<Rightarrow> sb_ipv4 entry \<noteq> ip | None \<Rightarrow> False) \<or>
      (case hm_get (st_ip_owner st) ip of Some static_mac \<Rightarrow> static_mac \<noteq> mac | None \<Rightarrow> False))"

definition is_ip_in_range :: "u32 \<Rightarrow> 'x DhcpV4AssignStatus \<Rightarrow> bool" where
  "is_ip_in_range ip st \<longleftrightarrow> ip \<ge> st_range_start st \<and> ip < st_range_start st + st_range_capacity st"

definition ack_request ::
  "u64 \<Rightarrow> MacAddr \<Rightarrow> u32 \<Rightarrow> bytes option \<Rightarrow> u32 \<Rightarrow> 'x DhcpV4AssignStatus \<Rightarrow> bool \<times> 'x DhcpV4AssignStatus" where
  "ack_request now mac ip hostname lease_time st =
     (if conflicts_with_static_binding mac ip st then (False, st)
      else case hm_get (st_offered_ip st) mac of
        Some c \<Rightarrow>
          (if oc_ip c = ip
           then (True, st\<lparr>st_offered_ip :=
                   hm_insert mac (c\<lparr>oc_hostname := hostname,
                                     oc_valid_time := (if oc_is_static c then oc_valid_time c else lease_time),
                                     oc_relative_offer_time := now\<rparr>) (st_offered_ip st)\<rparr>)
           else (False, st))
      | None \<Rightarrow>
          (if hm_contains (st_allocated_host st) ip then (False, st)
           else if \<not> is_ip_in_range ip st then (False, st)
           else (True, st\<lparr>st_offered_ip :=
                   hm_insert mac \<lparr>oc_hostname = hostname, oc_ip = ip, oc_relative_offer_time = now,
                                  oc_valid_time = lease_time, oc_is_static = False, oc_prev_ip = None\<rparr>
                     (st_offered_ip st),
                 st_allocated_host := hm_insert ip Dynamic (st_allocated_host st)\<rparr>)))"

definition release_ip :: "MacAddr \<Rightarrow> u32 \<Rightarrow> 'x DhcpV4AssignStatus \<Rightarrow> bool \<times> 'x DhcpV4AssignStatus" where
  "release_ip mac ip st =
     (let st1 = st\<lparr>st_offered_ip := hm_remove mac (st_offered_ip st)\<rparr>
      in if hm_contains (st_offered_ip st) mac
         then (True, st1\<lparr>st_allocated_host := hm_remove ip (st_allocated_host st1)\<rparr>)
         else (False, st1))"

definition add_decline_ip :: "u32 \<Rightarrow> 'x DhcpV4AssignStatus \<Rightarrow> 'x DhcpV4AssignStatus" where
  "add_decline_ip ip st =
     (if hm_contains (st_allocated_host st) ip then st
      else st\<lparr>st_allocated_host := hm_insert ip Declined (st_allocated_host st)\<rparr>)"

section \<open>Bindings\<close>

definition find_dynamic_owner_of_ip :: "u32 \<Rightarrow> 'x DhcpV4AssignStatus \<Rightarrow> MacAddr option" where
  "find_dynamic_owner_of_ip ip st =
     map_option fst (find (\<lambda>(mac, c). oc_ip c = ip \<and> \<not> oc_is_static c) (st_offered_ip st))"

definition kick_dynamic ::
  "u32 \<Rightarrow> 'x DhcpV4AssignStatus \<Rightarrow> (MacAddr \<times> bytes option) option \<times> 'x DhcpV4AssignStatus" where
  "kick_dynamic ip st =
     (if hm_get (st_allocated_host st) ip = Some Dynamic
      then (case find_dynamic_owner_of_ip ip st of
              None \<Rightarrow> (None, st)
            | Some z_mac \<Rightarrow>
                (Some (z_mac, Option.bind (hm_get (st_offered_ip st) z_mac) oc_hostname),
                 st\<lparr>st_offered_ip := hm_remove z_mac (st_offered_ip st)\<rparr>))
      else (None, st))"

definition drop_old_binding :: "MacAddr \<Rightarrow> 'x DhcpV4AssignStatus \<Rightarrow> 'x DhcpV4AssignStatus" where
  "drop_old_binding mac st =
     (case hm_get (st_static_bindings st) mac of
        None \<Rightarrow> st
      | Some old \<Rightarrow>
          st\<lparr>st_static_bindings := hm_remove mac (st_static_bindings st),
             st_ip_owner := hm_remove (sb_ipv4 old) (st_ip_owner st),
             st_allocated_host :=
               (if hm_get (st_allocated_host st) (sb_ipv4 old) = Some (Static mac)
                then hm_remove (sb_ipv4 old) (st_allocated_host st) else st_allocated_host st),
             st_offered_ip := hm_remove mac (st_offered_ip st),
             st_per_mac_options := hm_remove mac (st_per_mac_options st)\<rparr>)"

definition take_ip :: "MacAddr \<Rightarrow> u32 \<Rightarrow> 'x DhcpV4AssignStatus \<Rightarrow> 'x DhcpV4AssignStatus" where
  "take_ip mac ip st =
     (let st1 = st\<lparr>st_ip_owner := hm_insert ip mac (st_ip_owner st)\<rparr>
      in case hm_get (st_ip_owner st) ip of
           None \<Rightarrow> st1
         | Some old_mac \<Rightarrow>
             (if old_mac \<noteq> mac
              then st1\<lparr>st_static_bindings := hm_remove old_mac (st_static_bindings st1),
                       st_offered_ip := hm_remove old_mac (st_offered_ip st1),
                       st_per_mac_options := hm_remove old_mac (st_per_mac_options st1)\<rparr>
              else st1))"

definition bind_entry ::
  "u64 \<Rightarrow> MacAddr \<Rightarrow> 'x StaticBindingEntry \<Rightarrow> 'x DhcpV4AssignStatus \<Rightarrow> 'x DhcpV4AssignStatus" where
  "bind_entry now mac entry st =
     per_mac_insert mac (sb_custom_options entry) (sb_filter_options entry)
       (st\<lparr>st_static_bindings := hm_insert mac entry (st_static_bindings st),
           st_allocated_host := hm_insert (sb_ipv4 entry) (Static mac) (st_allocated_host st),
           st_offered_ip :=
             hm_insert mac \<lparr>oc_hostname = sb_hostname entry, oc_ip = sb_ipv4 entry,
                            oc_relative_offer_time = now, oc_valid_time = 86400,
                            oc_is_static = True, oc_prev_ip = None\<rparr> (st_offered_ip st)\<rparr>)"

definition mark_prev_ip :: "MacAddr \<Rightarrow> u32 \<Rightarrow> 'x DhcpV4AssignStatus \<Rightarrow> 'x DhcpV4AssignStatus" where
  "mark_prev_ip mac ip st =
     (case hm_get (st_offered_ip st) mac of
        None \<Rightarrow> st
      | Some c \<Rightarrow> st\<lparr>st_offered_ip := hm_insert mac (c\<lparr>oc_prev_ip := Some ip\<rparr>) (st_offered_ip st)\<rparr>)"

definition add_or_update_binding ::
  "(u32 \<Rightarrow> u8 \<Rightarrow> u32 \<Rightarrow> u32) \<Rightarrow> (nat \<Rightarrow> u64) \<Rightarrow> nat \<Rightarrow> MacAddr \<Rightarrow> 'x StaticBindingEntry \<Rightarrow>
     'x DhcpV4AssignStatus \<Rightarrow> 'x DhcpV4AssignStatus outcome" where
  "add_or_update_binding inet_add clk fuel mac entry st =
     (let ip = sb_ipv4 entry;
          (kicked, st1) = kick_dynamic ip st;
          st2 = bind_entry (clk 0) mac entry (take_ip mac ip (drop_old_binding mac st1))
      in case kicked of
           None \<Rightarrow> Returned st2
         | Some (z_mac, hostname) \<Rightarrow>
             and_then (offer_ip inet_add clk fuel z_mac hostname st2)
               (\<lambda>(_, st3). Returned (mark_prev_ip z_mac ip st3)))"

definition remove_binding :: "MacAddr \<Rightarrow> 'x DhcpV4AssignStatus \<Rightarrow> 'x DhcpV4AssignStatus" where
  "remove_binding mac st =
     (case hm_get (st_static_bindings st) mac of
        None \<Rightarrow> st
      | Some entry \<Rightarrow>
          (let ip = sb_ipv4 entry;
               st1 = st\<lparr>st_static_bindings := hm_remove mac (st_static_bindings st),
                        st_ip_owner := hm_remove ip (st_ip_owner st),
                        st_offered_ip := hm_remove mac (st_offered_ip st),
                        st_per_mac_options := hm_remove mac (st_per_mac_options st)\<rparr>
           in if hm_get (st_allocated_host st1) ip = Some (Static mac)
              then (let has_dynamic = list_ex (\<lambda>(_, c). oc_ip c = ip \<and> \<not> oc_is_static c) (st_offered_ip st1)
                    in if \<not> has_dynamic
                       then st1\<lparr>st_allocated_host := hm_remove ip (st_allocated_host st1)\<rparr> else st1)
              else st1))"

section \<open>One operation\<close>

text \<open>
  The calls made on the table: by the message handler and the expiry timer of \<open>server.rs\<close>, and by
  the enrolled-device observer of \<open>lan_dhcp4_service.rs\<close>.
\<close>

datatype 'x status_op =
    OpOffer "nat \<Rightarrow> u64" MacAddr "bytes option"
  | OpAck u64 MacAddr u32 "bytes option" u32
  | OpDecline u32
  | OpRelease MacAddr u32
  | OpClean u64
  | OpBind "nat \<Rightarrow> u64" MacAddr "'x StaticBindingEntry"
  | OpUnbind MacAddr

fun status_step ::
  "(u32 \<Rightarrow> u8 \<Rightarrow> u32 \<Rightarrow> u32) \<Rightarrow> nat \<Rightarrow> 'x status_op \<Rightarrow> 'x DhcpV4AssignStatus \<Rightarrow> 'x DhcpV4AssignStatus outcome" where
  "status_step inet_add fuel (OpOffer clk mac hostname) st =
     and_then (offer_ip inet_add clk fuel mac hostname st) (\<lambda>(_, st'). Returned st')"
| "status_step inet_add fuel (OpAck now mac ip hostname lease) st =
     Returned (snd (ack_request now mac ip hostname lease st))"
| "status_step inet_add fuel (OpDecline ip) st = Returned (add_decline_ip ip st)"
| "status_step inet_add fuel (OpRelease mac ip) st = Returned (snd (release_ip mac ip st))"
| "status_step inet_add fuel (OpClean now) st = Returned (snd (clean_expire_ip now st))"
| "status_step inet_add fuel (OpBind clk mac entry) st = add_or_update_binding inet_add clk fuel mac entry st"
| "status_step inet_add fuel (OpUnbind mac) st = Returned (remove_binding mac st)"

fun status_run ::
  "(u32 \<Rightarrow> u8 \<Rightarrow> u32 \<Rightarrow> u32) \<Rightarrow> nat \<Rightarrow> 'x status_op list \<Rightarrow> 'x DhcpV4AssignStatus \<Rightarrow> 'x DhcpV4AssignStatus outcome" where
  "status_run inet_add fuel [] st = Returned st"
| "status_run inet_add fuel (op # ops) st =
     and_then (status_step inet_add fuel op st) (status_run inet_add fuel ops)"

section \<open>The invariant of the table\<close>

text \<open>
  Over the maps themselves: every lease is recorded as allocated to its kind, no two clients hold
  one address, the owner index is the inverse of the bindings, and exactly the bound clients hold a
  static lease, at the address of their binding.
\<close>

definition lease_source :: "MacAddr \<Rightarrow> DHCPv4ServerOfferedCache \<Rightarrow> IpAllocSource" where
  "lease_source m c = (if oc_is_static c then Static m else Dynamic)"

definition leases_ok ::
  "(u32 \<Rightarrow> IpAllocSource option) \<Rightarrow> (MacAddr \<Rightarrow> DHCPv4ServerOfferedCache option) \<Rightarrow> bool" where
  "leases_ok al off \<longleftrightarrow>
     (\<forall>m c. off m = Some c \<longrightarrow> al (oc_ip c) = Some (lease_source m c)) \<and>
     (\<forall>m m' c c'. off m = Some c \<longrightarrow> off m' = Some c' \<longrightarrow> oc_ip c = oc_ip c' \<longrightarrow> m = m')"

definition bindings_ok ::
  "(MacAddr \<Rightarrow> 'x StaticBindingEntry option) \<Rightarrow> (u32 \<Rightarrow> MacAddr option) \<Rightarrow>
     (MacAddr \<Rightarrow> DHCPv4ServerOfferedCache option) \<Rightarrow> bool" where
  "bindings_ok sb ow off \<longleftrightarrow>
     (\<forall>ip m. ow ip = Some m \<longleftrightarrow> (\<exists>e. sb m = Some e \<and> sb_ipv4 e = ip)) \<and>
     (\<forall>m e. sb m = Some e \<longrightarrow> (\<exists>c. off m = Some c \<and> oc_is_static c \<and> oc_ip c = sb_ipv4 e)) \<and>
     (\<forall>m c. off m = Some c \<longrightarrow> oc_is_static c \<longrightarrow> (\<exists>e. sb m = Some e \<and> sb_ipv4 e = oc_ip c))"

definition maps_ok :: "'x DhcpV4AssignStatus \<Rightarrow> bool" where
  "maps_ok st \<longleftrightarrow>
     hm_ok (st_static_bindings st) \<and> hm_ok (st_ip_owner st) \<and> hm_ok (st_allocated_host st) \<and>
     hm_ok (st_offered_ip st)"

definition status_ok :: "'x DhcpV4AssignStatus \<Rightarrow> bool" where
  "status_ok st \<longleftrightarrow> maps_ok st \<and>
     leases_ok (hm_get (st_allocated_host st)) (hm_get (st_offered_ip st)) \<and>
     bindings_ok (hm_get (st_static_bindings st)) (hm_get (st_ip_owner st)) (hm_get (st_offered_ip st))"

text \<open>No client other than \<open>m\<close> holds the address.\<close>

definition only_at :: "(MacAddr \<Rightarrow> DHCPv4ServerOfferedCache option) \<Rightarrow> u32 \<Rightarrow> MacAddr \<Rightarrow> bool" where
  "only_at off ip m \<longleftrightarrow> (\<forall>m' c. off m' = Some c \<longrightarrow> oc_ip c = ip \<longrightarrow> m' = m)"

lemma hm_fun_simps [simp]:
  "hm_get (hm_insert k v m) = (hm_get m)(k \<mapsto> v)"
  "hm_get (hm_remove k m) = (hm_get m)(k := None)"
  by (auto simp: fun_eq_iff)

lemma lease_source_not_Declined [simp]: "lease_source m c \<noteq> Declined"
  by (simp add: lease_source_def)

lemma leases_okI:
  assumes "\<And>m c. off m = Some c \<Longrightarrow> al (oc_ip c) = Some (lease_source m c)"
    and "\<And>m m' c c'. off m = Some c \<Longrightarrow> off m' = Some c' \<Longrightarrow> oc_ip c = oc_ip c' \<Longrightarrow> m = m'"
  shows "leases_ok al off"
  using assms unfolding leases_ok_def by blast

lemma leases_okD:
  assumes "leases_ok al off" and "off m = Some c"
  shows "al (oc_ip c) = Some (lease_source m c)" and "off m' = Some c' \<Longrightarrow> oc_ip c' = oc_ip c \<Longrightarrow> m' = m"
  using assms unfolding leases_ok_def by metis+

lemma leases_drop: "leases_ok al off \<Longrightarrow> leases_ok al (off(m := None))"
  by (auto intro!: leases_okI dest: leases_okD split: if_splits)

lemma leases_set_alloc:
  "leases_ok al off \<Longrightarrow> (\<And>m c. off m = Some c \<Longrightarrow> oc_ip c \<noteq> ip) \<Longrightarrow> leases_ok (al(ip := x)) off"
  by (rule leases_okI) (auto dest: leases_okD)

lemma leases_grant:
  assumes ok: "leases_ok al off" and only: "only_at off (oc_ip c) m"
  shows "leases_ok (al(oc_ip c \<mapsto> lease_source m c)) (off(m \<mapsto> c))"
proof (rule leases_okI)
  show "(al(oc_ip c \<mapsto> lease_source m c)) (oc_ip c') = Some (lease_source m' c')"
    if "(off(m \<mapsto> c)) m' = Some c'" for m' c'
  proof (cases "m' = m")
    case False
    with that have c': "off m' = Some c'" by simp
    with only False have "oc_ip c' \<noteq> oc_ip c" unfolding only_at_def by blast
    with leases_okD(1) [OF ok c'] show ?thesis by simp
  qed (use that in simp)
  show "m1 = m2" if "(off(m \<mapsto> c)) m1 = Some c1" "(off(m \<mapsto> c)) m2 = Some c2" "oc_ip c1 = oc_ip c2"
    for m1 m2 c1 c2
  proof -
    consider "m1 = m" "m2 = m" | "m1 = m" "m2 \<noteq> m" | "m1 \<noteq> m" "m2 = m" | "m1 \<noteq> m" "m2 \<noteq> m" by blast
    then show ?thesis
    proof cases
      case 2 with that only show ?thesis unfolding only_at_def by simp
    next
      case 3 with that only show ?thesis unfolding only_at_def by simp
    next
      case 4 with that leases_okD(2) [OF ok, of m2 c2 m1 c1] show ?thesis by simp
    qed simp
  qed
qed

lemma free_unleased:
  "leases_ok al off \<Longrightarrow> al ip = None \<or> al ip = Some Declined \<Longrightarrow> off m = Some c \<Longrightarrow> oc_ip c \<noteq> ip"
  using leases_okD(1) by fastforce

lemma own_only_at: "leases_ok al off \<Longrightarrow> off m = Some c \<Longrightarrow> only_at off (oc_ip c) m"
  using leases_okD(2) unfolding only_at_def by metis

lemma leases_update:
  assumes ok: "leases_ok al off" and c: "off m = Some c" and eq: "oc_ip c' = oc_ip c" "oc_is_static c' = oc_is_static c"
  shows "leases_ok al (off(m \<mapsto> c'))"
proof -
  have "leases_ok (al(oc_ip c' \<mapsto> lease_source m c')) (off(m \<mapsto> c'))"
    using own_only_at [OF ok c] by (intro leases_grant [OF ok]) (simp add: eq)
  moreover have "al(oc_ip c' \<mapsto> lease_source m c') = al"
    using leases_okD(1) [OF ok c] by (auto simp: eq lease_source_def fun_eq_iff)
  ultimately show ?thesis by simp
qed

lemma leases_free:
  assumes ok: "leases_ok al off" and c: "off m = Some c"
  shows "leases_ok (al(oc_ip c := None)) (off(m := None))"
  using leases_drop [OF ok, of m] leases_okD(2) [OF ok c]
  by (intro leases_set_alloc) (auto split: if_splits)

lemma bindings_okI:
  assumes "\<And>ip m. ow ip = Some m \<longleftrightarrow> (\<exists>e. sb m = Some e \<and> sb_ipv4 e = ip)"
    and "\<And>m e. sb m = Some e \<Longrightarrow> \<exists>c. off m = Some c \<and> oc_is_static c \<and> oc_ip c = sb_ipv4 e"
    and "\<And>m c. off m = Some c \<Longrightarrow> oc_is_static c \<Longrightarrow> \<exists>e. sb m = Some e \<and> sb_ipv4 e = oc_ip c"
  shows "bindings_ok sb ow off"
  using assms unfolding bindings_ok_def by blast

lemma bindings_okD:
  assumes "bindings_ok sb ow off"
  shows "ow ip = Some m \<longleftrightarrow> (\<exists>e. sb m = Some e \<and> sb_ipv4 e = ip)"
    and "sb m = Some e \<Longrightarrow> \<exists>c. off m = Some c \<and> oc_is_static c \<and> oc_ip c = sb_ipv4 e"
    and "off m = Some c \<Longrightarrow> oc_is_static c \<Longrightarrow> \<exists>e. sb m = Some e \<and> sb_ipv4 e = oc_ip c"
  using assms unfolding bindings_ok_def by blast+

text \<open>The bindings only see the static leases.\<close>

lemma bindings_same_static:
  assumes ok: "bindings_ok sb ow off"
    and same: "\<And>m ip. (\<exists>c. off' m = Some c \<and> oc_is_static c \<and> oc_ip c = ip) \<longleftrightarrow>
                  (\<exists>c. off m = Some c \<and> oc_is_static c \<and> oc_ip c = ip)"
  shows "bindings_ok sb ow off'"
proof (rule bindings_okI)
  show "ow ip = Some m \<longleftrightarrow> (\<exists>e. sb m = Some e \<and> sb_ipv4 e = ip)" for ip m by (rule bindings_okD(1) [OF ok])
  show "\<exists>c. off' m = Some c \<and> oc_is_static c \<and> oc_ip c = sb_ipv4 e" if "sb m = Some e" for m e
    using bindings_okD(2) [OF ok that] same by blast
  show "\<exists>e. sb m = Some e \<and> sb_ipv4 e = oc_ip c" if "off' m = Some c" "oc_is_static c" for m c
    using bindings_okD(3) [OF ok] same [of m "oc_ip c"] that by metis
qed

section \<open>The lease table as its users see it\<close>

text \<open>
  The abstract table: which client holds which address.  An address may be granted only when no
  other client holds it; a lease may be dropped at any time.
\<close>

definition leases :: "'x DhcpV4AssignStatus \<Rightarrow> MacAddr \<Rightarrow> u32 option" where
  "leases st m = map_option oc_ip (hm_get (st_offered_ip st) m)"

inductive lease_step :: "(MacAddr \<Rightarrow> u32 option) \<Rightarrow> (MacAddr \<Rightarrow> u32 option) \<Rightarrow> bool" where
  grant: "(\<And>m'. L m' = Some ip \<Longrightarrow> m' = m) \<Longrightarrow> lease_step L (L(m \<mapsto> ip))"
| drop: "lease_step L (L(m := None))"

definition lease_steps :: "(MacAddr \<Rightarrow> u32 option) \<Rightarrow> (MacAddr \<Rightarrow> u32 option) \<Rightarrow> bool" where
  "lease_steps = lease_step\<^sup>*\<^sup>*"

definition exclusive :: "(MacAddr \<Rightarrow> u32 option) \<Rightarrow> bool" where
  "exclusive L \<longleftrightarrow> (\<forall>m m' ip. L m = Some ip \<longrightarrow> L m' = Some ip \<longrightarrow> m = m')"

lemma lease_step_exclusive: "lease_step L L' \<Longrightarrow> exclusive L \<Longrightarrow> exclusive L'"
  by (induction rule: lease_step.induct) (auto simp: exclusive_def split: if_splits)

lemma lease_steps_exclusive: "lease_steps L L' \<Longrightarrow> exclusive L \<Longrightarrow> exclusive L'"
  unfolding lease_steps_def by (induction rule: rtranclp_induct) (auto intro: lease_step_exclusive)

lemma lease_steps_refl [simp]: "lease_steps L L"
  by (simp add: lease_steps_def)

lemma lease_steps_trans: "lease_steps L M \<Longrightarrow> lease_steps M N \<Longrightarrow> lease_steps L N"
  unfolding lease_steps_def by (rule rtranclp_trans)

lemma lease_steps_drop: "lease_steps L (L(m := None))"
  unfolding lease_steps_def by (intro r_into_rtranclp drop)

lemma lease_steps_grant: "(\<And>m'. L m' = Some ip \<Longrightarrow> m' = m) \<Longrightarrow> lease_steps L (L(m \<mapsto> ip))"
  unfolding lease_steps_def by (intro r_into_rtranclp grant)

lemma lease_steps_submap:
  assumes "L' \<subseteq>\<^sub>m L" and "finite (dom L)"
  shows "lease_steps L L'"
proof -
  have "finite D \<Longrightarrow> D = dom L - dom L' \<Longrightarrow> L' \<subseteq>\<^sub>m L \<Longrightarrow> lease_steps L L'" for D
  proof (induction D arbitrary: L rule: finite_induct)
    case empty
    then have "L' = L" by (auto simp: map_le_def fun_eq_iff) (metis (mono_tags) Diff_eq_empty_iff domIff subsetD)
    then show ?case by simp
  next
    case (insert m D)
    have "L' m = None" using insert.prems(1) by auto
    then have "L' \<subseteq>\<^sub>m L(m := None)" using insert.prems(2) by (auto simp: map_le_def)
    moreover have "D = dom (L(m := None)) - dom L'" using insert.prems(1) insert.hyps(2) by auto
    ultimately have "lease_steps (L(m := None)) L'" using insert.IH by blast
    then show ?case using lease_steps_drop lease_steps_trans by blast
  qed
  then show ?thesis using assms by simp
qed

lemma finite_dom_leases: "finite (dom (leases st))"
proof -
  have "dom (leases st) = {m. hm_get (st_offered_ip st) m \<noteq> None}" by (auto simp: leases_def)
  then show ?thesis using hm.fin by simp
qed

lemma status_ok_exclusive: "status_ok st \<Longrightarrow> exclusive (leases st)"
  unfolding exclusive_def leases_def status_ok_def using leases_okD(2) by fastforce

section \<open>Expiry\<close>

lemma fold_remove_get:
  "hm_get (fold (\<lambda>(_, ip, _). hm_remove ip) xs m) ip =
     (if ip \<in> (\<lambda>(_, ip, _). ip) ` set xs then None else hm_get m ip)"
  by (induction xs arbitrary: m) auto

lemma fold_remove_ok: "hm_ok m \<Longrightarrow> hm_ok (fold (\<lambda>(_, ip, _). hm_remove ip) xs m)"
  by (induction xs arbitrary: m) auto

lemma clean_expired:
  "hm_ok (st_offered_ip st) \<Longrightarrow>
     (mac, ip, h) \<in> set (fst (clean_expire_ip now st)) \<longleftrightarrow>
     (\<exists>c. hm_get (st_offered_ip st) mac = Some c \<and> expired_at now c \<and> oc_ip c = ip \<and> oc_hostname c = h)"
  by (force simp: clean_expire_ip_def Let_def hm_get_mem [symmetric])

lemma clean_frame:
  "st_range_start (snd (clean_expire_ip now st)) = st_range_start st"
  "st_range_mask (snd (clean_expire_ip now st)) = st_range_mask st"
  "st_range_capacity (snd (clean_expire_ip now st)) = st_range_capacity st"
  "st_static_bindings (snd (clean_expire_ip now st)) = st_static_bindings st"
  "st_ip_owner (snd (clean_expire_ip now st)) = st_ip_owner st"
  "st_per_mac_options (snd (clean_expire_ip now st)) = st_per_mac_options st"
  by (simp_all add: clean_expire_ip_def Let_def)

lemma clean_offered:
  "hm_ok (st_offered_ip st) \<Longrightarrow>
     hm_get (st_offered_ip (snd (clean_expire_ip now st))) m = Some c \<longleftrightarrow>
     hm_get (st_offered_ip st) m = Some c \<and> \<not> expired_at now c"
  by (simp add: clean_expire_ip_def Let_def)

lemma clean_allocated:
  assumes "hm_ok (st_offered_ip st)" and "hm_ok (st_allocated_host st)"
  shows "hm_get (st_allocated_host (snd (clean_expire_ip now st))) ip =
    (if (\<exists>m c. hm_get (st_offered_ip st) m = Some c \<and> expired_at now c \<and> oc_ip c = ip) then None
     else if hm_get (st_allocated_host st) ip = Some Declined then None
     else hm_get (st_allocated_host st) ip)"
proof -
  let ?ex = "fst (clean_expire_ip now st)"
  have "ip \<in> (\<lambda>(_, ip, _). ip) ` set ?ex \<longleftrightarrow>
      (\<exists>m c. hm_get (st_offered_ip st) m = Some c \<and> expired_at now c \<and> oc_ip c = ip)"
    using clean_expired [OF assms(1)] by (force simp: image_iff)
  moreover have "st_allocated_host (snd (clean_expire_ip now st)) =
      fold (\<lambda>(_, ip, _). hm_remove ip) ?ex (hm_retain (\<lambda>_ s. s \<noteq> Declined) (st_allocated_host st))"
    by (simp add: clean_expire_ip_def Let_def)
  ultimately show ?thesis using assms(2)
    by (simp add: fold_remove_get hm.get_ret split: option.splits) blast
qed

lemma clean_maps: "maps_ok st \<Longrightarrow> maps_ok (snd (clean_expire_ip now st))"
  by (simp add: maps_ok_def clean_frame) (simp add: clean_expire_ip_def Let_def fold_remove_ok)

lemma clean_ok:
  assumes ok: "status_ok st" shows "status_ok (snd (clean_expire_ip now st))" (is "status_ok ?st'")
proof -
  have hm: "hm_ok (st_offered_ip st)" "hm_ok (st_allocated_host st)" and m: "maps_ok st"
    and L: "leases_ok (hm_get (st_allocated_host st)) (hm_get (st_offered_ip st))"
    and B: "bindings_ok (hm_get (st_static_bindings st)) (hm_get (st_ip_owner st)) (hm_get (st_offered_ip st))"
    using ok by (simp_all add: status_ok_def maps_ok_def)
  have "leases_ok (hm_get (st_allocated_host ?st')) (hm_get (st_offered_ip ?st'))"
  proof (rule leases_okI)
    fix m c assume "hm_get (st_offered_ip ?st') m = Some c"
    then have c: "hm_get (st_offered_ip st) m = Some c" "\<not> expired_at now c"
      by (simp_all add: clean_offered hm)
    then have "\<not> (\<exists>m' c'. hm_get (st_offered_ip st) m' = Some c' \<and> expired_at now c' \<and> oc_ip c' = oc_ip c)"
      using leases_okD(2) [OF L c(1)] by auto
    then show "hm_get (st_allocated_host ?st') (oc_ip c) = Some (lease_source m c)"
      using leases_okD(1) [OF L c(1)] by (simp add: clean_allocated [OF hm])
  next
    fix m m' c c'
    assume "hm_get (st_offered_ip ?st') m = Some c" "hm_get (st_offered_ip ?st') m' = Some c'" "oc_ip c = oc_ip c'"
    then show "m = m'" using leases_okD(2) [OF L, of m' c' m c] by (simp add: clean_offered hm)
  qed
  moreover have "bindings_ok (hm_get (st_static_bindings st)) (hm_get (st_ip_owner st)) (hm_get (st_offered_ip ?st'))"
    using B by (rule bindings_same_static) (auto simp: clean_offered hm expired_at_def)
  ultimately show ?thesis using clean_maps [OF m] by (simp add: status_ok_def clean_frame)
qed

lemma clean_leases:
  assumes "hm_ok (st_offered_ip st)" shows "lease_steps (leases st) (leases (snd (clean_expire_ip now st)))"
proof (rule lease_steps_submap [OF _ finite_dom_leases])
  show "leases (snd (clean_expire_ip now st)) \<subseteq>\<^sub>m leases st"
    unfolding map_le_def leases_def using clean_offered [OF assms] by (auto simp: dom_def)
qed

section \<open>Every operation keeps the invariant and refines the abstract table\<close>

definition ok_refines :: "'x DhcpV4AssignStatus \<Rightarrow> 'x DhcpV4AssignStatus \<Rightarrow> bool" where
  "ok_refines st st' \<longleftrightarrow> status_ok st' \<and> lease_steps (leases st) (leases st')"

lemma ok_refinesI: "status_ok st' \<Longrightarrow> lease_steps (leases st) (leases st') \<Longrightarrow> ok_refines st st'"
  by (simp add: ok_refines_def)

lemma ok_refines_refl: "status_ok st \<Longrightarrow> ok_refines st st"
  by (simp add: ok_refines_def)

lemma ok_refines_trans: "ok_refines st st' \<Longrightarrow> ok_refines st' st'' \<Longrightarrow> ok_refines st st''"
  using lease_steps_trans by (auto simp: ok_refines_def)

lemma clean_refines: "status_ok st \<Longrightarrow> ok_refines st (snd (clean_expire_ip now st))"
  using clean_ok clean_leases by (auto simp: ok_refines_def status_ok_def maps_ok_def)

text \<open>Granting a dynamic lease at an address nobody has allocated.\<close>

lemma grant_refines:
  assumes ok: "status_ok st" and free: "hm_get (st_allocated_host st) (oc_ip c) = None"
    and nb: "hm_get (st_static_bindings st) mac = None" and dyn: "\<not> oc_is_static c"
  shows "ok_refines st (st\<lparr>st_offered_ip := hm_insert mac c (st_offered_ip st),
    st_allocated_host := hm_insert (oc_ip c) Dynamic (st_allocated_host st)\<rparr>)" (is "ok_refines st ?st'")
proof -
  have L: "leases_ok (hm_get (st_allocated_host st)) (hm_get (st_offered_ip st))"
    and B: "bindings_ok (hm_get (st_static_bindings st)) (hm_get (st_ip_owner st)) (hm_get (st_offered_ip st))"
    using ok by (simp_all add: status_ok_def)
  have un: "hm_get (st_offered_ip st) m = Some c' \<Longrightarrow> oc_ip c' \<noteq> oc_ip c" for m c'
    using free_unleased [OF L] free by blast
  have "leases_ok (hm_get (st_allocated_host ?st')) (hm_get (st_offered_ip ?st'))"
    using leases_grant [OF L, of c mac] un dyn by (simp add: only_at_def lease_source_def)
  moreover have "bindings_ok (hm_get (st_static_bindings st)) (hm_get (st_ip_owner st)) (hm_get (st_offered_ip ?st'))"
    using B
  proof (rule bindings_same_static)
    have "\<not> (\<exists>c'. hm_get (st_offered_ip st) mac = Some c' \<and> oc_is_static c')"
      using bindings_okD(3) [OF B, of mac] nb by auto
    then show "(\<exists>c'. hm_get (st_offered_ip ?st') m = Some c' \<and> oc_is_static c' \<and> oc_ip c' = ip) \<longleftrightarrow>
        (\<exists>c'. hm_get (st_offered_ip st) m = Some c' \<and> oc_is_static c' \<and> oc_ip c' = ip)" for m ip
      using dyn by auto
  qed
  ultimately have "status_ok ?st'" using ok by (simp add: status_ok_def maps_ok_def)
  moreover have "leases ?st' = (leases st)(mac \<mapsto> oc_ip c)"
    by (auto simp: leases_def fun_eq_iff)
  moreover have "lease_steps (leases st) ((leases st)(mac \<mapsto> oc_ip c))"
    using un by (intro lease_steps_grant) (auto simp: leases_def)
  ultimately show ?thesis by (simp add: ok_refines_def)
qed

text \<open>Rewriting the lease a client already holds, address and kind unchanged.\<close>

lemma touch_refines:
  assumes ok: "status_ok st" and c: "hm_get (st_offered_ip st) mac = Some c"
    and eq: "oc_ip c' = oc_ip c" "oc_is_static c' = oc_is_static c"
  shows "ok_refines st (st\<lparr>st_offered_ip := hm_insert mac c' (st_offered_ip st)\<rparr>)" (is "ok_refines st ?st'")
proof -
  have L: "leases_ok (hm_get (st_allocated_host st)) (hm_get (st_offered_ip st))"
    and B: "bindings_ok (hm_get (st_static_bindings st)) (hm_get (st_ip_owner st)) (hm_get (st_offered_ip st))"
    using ok by (simp_all add: status_ok_def)
  have "bindings_ok (hm_get (st_static_bindings st)) (hm_get (st_ip_owner st)) (hm_get (st_offered_ip ?st'))"
    using B by (rule bindings_same_static) (use c eq in auto)
  then have "status_ok ?st'"
    using ok leases_update [OF L c eq] by (simp add: status_ok_def maps_ok_def)
  moreover have "leases ?st' = leases st"
    using c eq by (auto simp: leases_def fun_eq_iff)
  ultimately show ?thesis by (simp add: ok_refines_def)
qed

lemma alloc_same_refines:
  assumes "ok_refines st s" and "hm_get A = hm_get (st_allocated_host s)" and "hm_ok A"
  shows "ok_refines st (s\<lparr>st_allocated_host := A\<rparr>)"
proof -
  have "leases (s\<lparr>st_allocated_host := A\<rparr>) = leases s" by (simp add: leases_def fun_eq_iff)
  then show ?thesis using assms by (simp add: ok_refines_def status_ok_def maps_ok_def)
qed

lemma offer_loop_refines:
  assumes "offer_loop inet_add clk mac hostname fuel k seed st = Returned (r, st')"
    and "status_ok st" and "hm_get (st_static_bindings st) mac = None"
  shows "ok_refines st st'"
  using assms
proof (induction fuel arbitrary: k seed st)
  case (Suc fuel)
  define full where "full = (word_of_nat (length (st_allocated_host st)) = st_range_capacity st)"
  define cl where "cl = (if full then clean_expire_ip (clk k) st else ([], st))"
  let ?st1 = "snd cl"
  let ?address = "inet_add (st_range_start ?st1) (st_range_mask ?st1) (seed mod st_range_capacity ?st1)"
  have r1: "ok_refines st ?st1" and nb: "hm_get (st_static_bindings ?st1) mac = None"
    using Suc.prems(2,3) by (auto simp: cl_def clean_refines ok_refines_refl clean_frame)
  then have ok1: "status_ok ?st1" by (simp add: ok_refines_def)
  have eq: "offer_loop inet_add clk mac hostname (Suc fuel) k seed st =
      (if full \<and> fst cl = [] then Returned (None, ?st1)
       else if st_range_capacity ?st1 = 0 then Panicked
       else if hm_contains (st_allocated_host ?st1) ?address
       then offer_loop inet_add clk mac hostname fuel (Suc k) (seed + 1) ?st1
       else Returned (Some ?address,
              ?st1\<lparr>st_offered_ip := hm_insert mac \<lparr>oc_hostname = hostname, oc_ip = ?address,
                      oc_relative_offer_time = clk k, oc_valid_time = OFFER_VALID_TIME,
                      oc_is_static = False, oc_prev_ip = None\<rparr> (st_offered_ip ?st1),
                   st_allocated_host := hm_insert ?address Dynamic (st_allocated_host ?st1)\<rparr>))"
    by (simp add: full_def cl_def Let_def split_beta)
  consider "full" "fst cl = []" | "\<not> (full \<and> fst cl = [])" "hm_contains (st_allocated_host ?st1) ?address"
    | "\<not> (full \<and> fst cl = [])" "\<not> hm_contains (st_allocated_host ?st1) ?address" by blast
  then show ?case
  proof cases
    case 1
    with Suc.prems(1) eq have "st' = ?st1" by simp
    with r1 show ?thesis by simp
  next
    case 2
    with Suc.prems(1) eq have "offer_loop inet_add clk mac hostname fuel (Suc k) (seed + 1) ?st1 = Returned (r, st')"
      by (simp split: if_splits)
    from Suc.IH [OF this ok1 nb] r1 show ?thesis using ok_refines_trans by blast
  next
    case 3
    let ?c = "\<lparr>oc_hostname = hostname, oc_ip = ?address, oc_relative_offer_time = clk k,
        oc_valid_time = OFFER_VALID_TIME, oc_is_static = False, oc_prev_ip = None\<rparr>"
    have "ok_refines ?st1 (?st1\<lparr>st_offered_ip := hm_insert mac ?c (st_offered_ip ?st1),
        st_allocated_host := hm_insert (oc_ip ?c) Dynamic (st_allocated_host ?st1)\<rparr>)"
      using 3(2) ok1 nb by (intro grant_refines) (simp_all add: hm_contains_def)
    moreover have "st' = ?st1\<lparr>st_offered_ip := hm_insert mac ?c (st_offered_ip ?st1),
        st_allocated_host := hm_insert (oc_ip ?c) Dynamic (st_allocated_host ?st1)\<rparr>"
      using 3 Suc.prems(1) eq by (simp split: if_splits)
    ultimately show ?thesis using r1 ok_refines_trans by blast
  qed
qed simp

lemma offer_refines:
  assumes off: "offer_ip inet_add clk fuel mac hostname st = Returned (r, st')" and ok: "status_ok st"
  shows "ok_refines st st'"
proof (cases "hm_get (st_static_bindings st) mac")
  case (Some e)
  have L: "leases_ok (hm_get (st_allocated_host st)) (hm_get (st_offered_ip st))"
    and B: "bindings_ok (hm_get (st_static_bindings st)) (hm_get (st_ip_owner st)) (hm_get (st_offered_ip st))"
    using ok by (simp_all add: status_ok_def)
  obtain c where c: "hm_get (st_offered_ip st) mac = Some c" "oc_is_static c" "oc_ip c = sb_ipv4 e"
    using bindings_okD(2) [OF B Some] by blast
  define c' where "c' = \<lparr>oc_hostname = (case hostname of Some h \<Rightarrow> Some h | None \<Rightarrow> sb_hostname e),
      oc_ip = sb_ipv4 e, oc_relative_offer_time = clk 0, oc_valid_time = OFFER_VALID_TIME,
      oc_is_static = True, oc_prev_ip = None\<rparr>"
  have al: "hm_get (st_allocated_host st) (sb_ipv4 e) = Some (Static mac)"
    using leases_okD(1) [OF L c(1)] c by (simp add: lease_source_def)
  have st': "st' = st\<lparr>st_offered_ip := hm_insert mac c' (st_offered_ip st),
      st_allocated_host := hm_insert (sb_ipv4 e) (Static mac) (st_allocated_host st)\<rparr>"
    using off Some c by (simp add: offer_ip_def Let_def c'_def)
  have r: "ok_refines st (st\<lparr>st_offered_ip := hm_insert mac c' (st_offered_ip st)\<rparr>)"
    using ok c by (intro touch_refines) (simp_all add: c'_def)
  have "ok_refines st (st\<lparr>st_offered_ip := hm_insert mac c' (st_offered_ip st)\<rparr>
      \<lparr>st_allocated_host := hm_insert (sb_ipv4 e) (Static mac) (st_allocated_host st)\<rparr>)"
    using al ok by (intro alloc_same_refines [OF r]) (auto simp: status_ok_def maps_ok_def)
  then show ?thesis unfolding st' by simp
next
  case None
  then show ?thesis
    using off ok offer_loop_refines [OF _ ok None]
    by (auto simp: offer_ip_def ok_refines_refl split: option.splits)
qed


lemma ack_refines:
  assumes ok: "status_ok st"
  shows "ok_refines st (snd (ack_request now mac ip hostname lease st))"
proof (cases "conflicts_with_static_binding mac ip st")
  case False
  show ?thesis
  proof (cases "hm_get (st_offered_ip st) mac")
    case None
    have B: "bindings_ok (hm_get (st_static_bindings st)) (hm_get (st_ip_owner st)) (hm_get (st_offered_ip st))"
      using ok by (simp add: status_ok_def)
    have nb: "hm_get (st_static_bindings st) mac = None"
      using bindings_okD(2) [OF B, of mac] None by (cases "hm_get (st_static_bindings st) mac") auto
    let ?c = "\<lparr>oc_hostname = hostname, oc_ip = ip, oc_relative_offer_time = now,
        oc_valid_time = lease, oc_is_static = False, oc_prev_ip = None\<rparr>"
    show ?thesis
    proof (cases "hm_contains (st_allocated_host st) ip \<or> \<not> is_ip_in_range ip st")
      case False
      have "ok_refines st (st\<lparr>st_offered_ip := hm_insert mac ?c (st_offered_ip st),
          st_allocated_host := hm_insert (oc_ip ?c) Dynamic (st_allocated_host st)\<rparr>)"
        using ok nb False by (intro grant_refines) (simp_all add: hm_contains_def)
      then show ?thesis
        using False None \<open>\<not> conflicts_with_static_binding mac ip st\<close> by (simp add: ack_request_def)
    qed (use None ok in \<open>auto simp: ack_request_def ok_refines_refl\<close>)
  next
    case (Some c)
    then show ?thesis
      using ok touch_refines [OF ok Some] False by (simp add: ack_request_def ok_refines_refl)
  qed
qed (simp add: ack_request_def ok_refines_refl ok)

lemma decline_refines:
  assumes ok: "status_ok st"
  shows "ok_refines st (add_decline_ip ip st)"
proof (cases "hm_contains (st_allocated_host st) ip")
  case False
  have L: "leases_ok (hm_get (st_allocated_host st)) (hm_get (st_offered_ip st))"
    using ok by (simp add: status_ok_def)
  have "leases_ok ((hm_get (st_allocated_host st))(ip \<mapsto> Declined)) (hm_get (st_offered_ip st))"
    using free_unleased [OF L] False by (intro leases_set_alloc [OF L]) (auto simp: hm_contains_def)
  moreover have "leases (st\<lparr>st_allocated_host := A\<rparr>) = leases st" for A
    by (simp add: leases_def fun_eq_iff)
  ultimately show ?thesis
    using ok False by (simp add: add_decline_ip_def ok_refines_def status_ok_def maps_ok_def)
qed (simp add: add_decline_ip_def ok_refines_refl ok)

text \<open>
  A release that a well-behaved client sends: a client without a binding gives back the address it
  holds.  The code does not check this.
\<close>

definition polite_release :: "MacAddr \<Rightarrow> u32 \<Rightarrow> 'x DhcpV4AssignStatus \<Rightarrow> bool" where
  "polite_release mac ip st \<longleftrightarrow>
     hm_get (st_static_bindings st) mac = None \<and>
     (case hm_get (st_offered_ip st) mac of None \<Rightarrow> True | Some c \<Rightarrow> oc_ip c = ip)"

lemma release_refines:
  assumes ok: "status_ok st" and polite: "polite_release mac ip st"
  shows "ok_refines st (snd (release_ip mac ip st))"
proof -
  have L: "leases_ok (hm_get (st_allocated_host st)) (hm_get (st_offered_ip st))"
    and B: "bindings_ok (hm_get (st_static_bindings st)) (hm_get (st_ip_owner st)) (hm_get (st_offered_ip st))"
    using ok by (simp_all add: status_ok_def)
  have dyn: "\<not> oc_is_static c" if "hm_get (st_offered_ip st) mac = Some c" for c
    using bindings_okD(3) [OF B that] polite by (auto simp: polite_release_def)
  let ?st' = "snd (release_ip mac ip st)"
  have off: "hm_get (st_offered_ip ?st') = (hm_get (st_offered_ip st))(mac := None)"
    by (simp add: release_ip_def Let_def)
  have "leases_ok (hm_get (st_allocated_host ?st')) (hm_get (st_offered_ip ?st'))"
  proof (cases "hm_get (st_offered_ip st) mac")
    case None
    then show ?thesis using leases_drop [OF L] by (simp add: release_ip_def Let_def hm_contains_def)
  next
    case (Some c)
    with polite have "oc_ip c = ip" by (simp add: polite_release_def)
    with Some show ?thesis using leases_free [OF L Some] by (simp add: release_ip_def Let_def hm_contains_def)
  qed
  moreover have "bindings_ok (hm_get (st_static_bindings st)) (hm_get (st_ip_owner st)) (hm_get (st_offered_ip ?st'))"
    using B by (rule bindings_same_static) (use dyn in \<open>auto simp: off\<close>)
  moreover have "maps_ok ?st'" "st_static_bindings ?st' = st_static_bindings st" "st_ip_owner ?st' = st_ip_owner st"
    using ok by (simp_all add: release_ip_def Let_def status_ok_def maps_ok_def)
  ultimately have "status_ok ?st'" by (simp add: status_ok_def)
  moreover have "leases ?st' = (leases st)(mac := None)"
    by (simp add: leases_def fun_eq_iff off)
  ultimately show ?thesis using lease_steps_drop by (simp add: ok_refines_def)
qed

section \<open>Bindings\<close>

lemma unbind_maps:
  assumes L: "leases_ok al off" and B: "bindings_ok sb ow off" and e: "sb m = Some e"
  shows "al (sb_ipv4 e) = Some (Static m)"
    and "leases_ok (al(sb_ipv4 e := None)) (off(m := None))"
    and "bindings_ok (sb(m := None)) (ow(sb_ipv4 e := None)) (off(m := None))"
proof -
  obtain c where c: "off m = Some c" "oc_is_static c" "oc_ip c = sb_ipv4 e"
    using bindings_okD(2) [OF B e] by blast
  show "al (sb_ipv4 e) = Some (Static m)"
    using leases_okD(1) [OF L c(1)] c by (simp add: lease_source_def)
  show "leases_ok (al(sb_ipv4 e := None)) (off(m := None))"
    using leases_free [OF L c(1)] c by simp
  have inj: "m' = m" if "sb m' = Some e'" "sb_ipv4 e' = sb_ipv4 e" for m' e'
    using bindings_okD(1) [OF B, of "sb_ipv4 e" m] bindings_okD(1) [OF B, of "sb_ipv4 e" m'] e that by auto
  show "bindings_ok (sb(m := None)) (ow(sb_ipv4 e := None)) (off(m := None))"
  proof (rule bindings_okI)
    show "(ow(sb_ipv4 e := None)) ip = Some m' \<longleftrightarrow> (\<exists>e'. (sb(m := None)) m' = Some e' \<and> sb_ipv4 e' = ip)" for ip m'
    proof (cases "m' = m")
      case True
      then show ?thesis using bindings_okD(1) [OF B, of ip m] e by simp
    next
      case False
      then show ?thesis using bindings_okD(1) [OF B, of ip m'] inj [of m'] by (cases "ip = sb_ipv4 e") auto
    qed
    show "\<exists>c. (off(m := None)) m' = Some c \<and> oc_is_static c \<and> oc_ip c = sb_ipv4 e'"
      if "(sb(m := None)) m' = Some e'" for m' e'
      using bindings_okD(2) [OF B, of m' e'] that by (simp split: if_splits)
    show "\<exists>e'. (sb(m := None)) m' = Some e' \<and> sb_ipv4 e' = oc_ip c'"
      if "(off(m := None)) m' = Some c'" "oc_is_static c'" for m' c'
      using bindings_okD(3) [OF B, of m' c'] that by (simp split: if_splits)
  qed
qed

lemma bind_maps:
  assumes L: "leases_ok al off" and B: "bindings_ok sb ow off" and nb: "sb m = None"
    and no: "ow (sb_ipv4 e) = None" and only: "only_at off (sb_ipv4 e) m"
    and c: "oc_is_static c" "oc_ip c = sb_ipv4 e"
  shows "leases_ok (al(sb_ipv4 e \<mapsto> Static m)) (off(m \<mapsto> c))"
    and "bindings_ok (sb(m \<mapsto> e)) (ow(sb_ipv4 e \<mapsto> m)) (off(m \<mapsto> c))"
proof -
  show "leases_ok (al(sb_ipv4 e \<mapsto> Static m)) (off(m \<mapsto> c))"
    using leases_grant [OF L, of c m] only c by (simp add: lease_source_def)
  have no': "sb_ipv4 e' \<noteq> sb_ipv4 e" if "sb m' = Some e'" for m' e'
    using bindings_okD(1) [OF B, of "sb_ipv4 e" m'] no that by auto
  show "bindings_ok (sb(m \<mapsto> e)) (ow(sb_ipv4 e \<mapsto> m)) (off(m \<mapsto> c))"
  proof (rule bindings_okI)
    show "(ow(sb_ipv4 e \<mapsto> m)) ip = Some m' \<longleftrightarrow> (\<exists>e'. (sb(m \<mapsto> e)) m' = Some e' \<and> sb_ipv4 e' = ip)" for ip m'
      using bindings_okD(1) [OF B, of ip m'] no' [of m'] nb by (cases "m' = m"; cases "ip = sb_ipv4 e") auto
    show "\<exists>c'. (off(m \<mapsto> c)) m' = Some c' \<and> oc_is_static c' \<and> oc_ip c' = sb_ipv4 e'"
      if "(sb(m \<mapsto> e)) m' = Some e'" for m' e'
      using bindings_okD(2) [OF B, of m' e'] that c by (cases "m' = m") auto
    show "\<exists>e'. (sb(m \<mapsto> e)) m' = Some e' \<and> sb_ipv4 e' = oc_ip c'"
      if "(off(m \<mapsto> c)) m' = Some c'" "oc_is_static c'" for m' c'
      using bindings_okD(3) [OF B, of m' c'] that c by (cases "m' = m") auto
  qed
qed

text \<open>The state after a binding is gone, however the code gets there.\<close>

lemma unbind_refines:
  assumes ok: "status_ok st" and e: "hm_get (st_static_bindings st) m = Some e"
    and maps: "hm_get (st_static_bindings st') = (hm_get (st_static_bindings st))(m := None)"
      "hm_get (st_ip_owner st') = (hm_get (st_ip_owner st))(sb_ipv4 e := None)"
      "hm_get (st_allocated_host st') = (hm_get (st_allocated_host st))(sb_ipv4 e := None)"
      "hm_get (st_offered_ip st') = (hm_get (st_offered_ip st))(m := None)"
    and hm: "maps_ok st'"
  shows "ok_refines st st'"
proof -
  have L: "leases_ok (hm_get (st_allocated_host st)) (hm_get (st_offered_ip st))"
    and B: "bindings_ok (hm_get (st_static_bindings st)) (hm_get (st_ip_owner st)) (hm_get (st_offered_ip st))"
    using ok by (simp_all add: status_ok_def)
  have "leases st' = (leases st)(m := None)" by (simp add: leases_def fun_eq_iff maps)
  then show ?thesis
    using hm unbind_maps [OF L B e] lease_steps_drop by (simp add: ok_refines_def status_ok_def maps)
qed

lemma drop_old_refines:
  assumes ok: "status_ok st"
  shows "ok_refines st (drop_old_binding m st)"
    and "hm_get (st_static_bindings (drop_old_binding m st)) m = None"
    and "\<forall>m'. hm_get (st_offered_ip (drop_old_binding m st)) m' \<noteq> None \<longrightarrow>
           hm_get (st_offered_ip (drop_old_binding m st)) m' = hm_get (st_offered_ip st) m'"
proof -
  show "ok_refines st (drop_old_binding m st)"
  proof (cases "hm_get (st_static_bindings st) m")
    case None
    then show ?thesis by (simp add: drop_old_binding_def ok_refines_refl ok)
  next
    case (Some e)
    then have "hm_get (st_allocated_host st) (sb_ipv4 e) = Some (Static m)"
      using unbind_maps(1) ok by (auto simp: status_ok_def)
    then show ?thesis
      using ok Some by (intro unbind_refines [OF ok Some]) (simp_all add: drop_old_binding_def status_ok_def maps_ok_def)
  qed
qed (auto simp: drop_old_binding_def split: option.splits)

lemma remove_refines:
  assumes ok: "status_ok st"
  shows "ok_refines st (remove_binding m st)"
proof (cases "hm_get (st_static_bindings st) m")
  case None
  then show ?thesis by (simp add: remove_binding_def ok_refines_refl ok)
next
  case (Some e)
  have L: "leases_ok (hm_get (st_allocated_host st)) (hm_get (st_offered_ip st))"
    and B: "bindings_ok (hm_get (st_static_bindings st)) (hm_get (st_ip_owner st)) (hm_get (st_offered_ip st))"
    and hm: "hm_ok (st_offered_ip st)"
    using ok by (simp_all add: status_ok_def maps_ok_def)
  have al: "hm_get (st_allocated_host st) (sb_ipv4 e) = Some (Static m)" using unbind_maps(1) [OF L B Some] .
  have "\<not> list_ex (\<lambda>(_, c). oc_ip c = sb_ipv4 e \<and> \<not> oc_is_static c) (hm_remove m (st_offered_ip st))"
  proof
    assume "list_ex (\<lambda>(_, c). oc_ip c = sb_ipv4 e \<and> \<not> oc_is_static c) (hm_remove m (st_offered_ip st))"
    then obtain m' c where "(m', c) \<in> set (hm_remove m (st_offered_ip st))" "oc_ip c = sb_ipv4 e" "\<not> oc_is_static c"
      by (auto simp: list_ex_iff)
    then have "hm_get (st_offered_ip st) m' = Some c" "oc_ip c = sb_ipv4 e" "\<not> oc_is_static c"
      using hm_get_mem [of "hm_remove m (st_offered_ip st)" m' c] hm by (auto split: if_splits)
    then show False using leases_okD(1) [OF L] al by (force simp: lease_source_def)
  qed
  then show ?thesis
    using ok Some al by (intro unbind_refines [OF ok Some]) (simp_all add: remove_binding_def Let_def status_ok_def maps_ok_def)
qed

lemma kick_refines:
  assumes ok: "status_ok st"
  shows "ok_refines st (snd (kick_dynamic ip st))"
    and "hm_get (st_offered_ip (snd (kick_dynamic ip st))) m = Some c \<Longrightarrow> oc_ip c = ip \<Longrightarrow> oc_is_static c"
proof -
  have L: "leases_ok (hm_get (st_allocated_host st)) (hm_get (st_offered_ip st))"
    and B: "bindings_ok (hm_get (st_static_bindings st)) (hm_get (st_ip_owner st)) (hm_get (st_offered_ip st))"
    and hm: "hm_ok (st_offered_ip st)"
    using ok by (simp_all add: status_ok_def maps_ok_def)
  have owner: "\<exists>cz. hm_get (st_offered_ip st) z = Some cz \<and> oc_ip cz = ip \<and> \<not> oc_is_static cz"
    if "find_dynamic_owner_of_ip ip st = Some z" for z
  proof -
    from that obtain p where p: "find (\<lambda>(mac, c). oc_ip c = ip \<and> \<not> oc_is_static c) (st_offered_ip st) = Some p" "fst p = z"
      by (auto simp: find_dynamic_owner_of_ip_def)
    then have "p \<in> set (st_offered_ip st)" "oc_ip (snd p) = ip \<and> \<not> oc_is_static (snd p)"
      by (auto simp: find_Some_iff split_beta)
    then show ?thesis using hm_get_mem [OF hm, of z "snd p"] p(2) by (cases p) auto
  qed
  have none: "\<not> (\<exists>z cz. hm_get (st_offered_ip st) z = Some cz \<and> oc_ip cz = ip \<and> \<not> oc_is_static cz)"
    if "find_dynamic_owner_of_ip ip st = None"
    using that hm_get_mem [OF hm] by (auto simp: find_dynamic_owner_of_ip_def find_None_iff)
  have dynamic: "hm_get (st_allocated_host st) ip = Some Dynamic"
    if "hm_get (st_offered_ip st) z = Some cz" "oc_ip cz = ip" "\<not> oc_is_static cz" for z cz
    using leases_okD(1) [OF L that(1)] that by (simp add: lease_source_def)
  show "ok_refines st (snd (kick_dynamic ip st))"
  proof (cases "fst (kick_dynamic ip st)")
    case None
    then have "snd (kick_dynamic ip st) = st" by (auto simp: kick_dynamic_def split: option.splits if_splits)
    then show ?thesis by (simp add: ok_refines_refl ok)
  next
    case (Some zh)
    obtain z h where "zh = (z, h)" by (cases zh)
    with Some have z: "find_dynamic_owner_of_ip ip st = Some z"
      and st': "snd (kick_dynamic ip st) = st\<lparr>st_offered_ip := hm_remove z (st_offered_ip st)\<rparr>" (is "_ = ?st'")
      by (auto simp: kick_dynamic_def split: option.splits if_splits)
    have "bindings_ok (hm_get (st_static_bindings st)) (hm_get (st_ip_owner st)) (hm_get (st_offered_ip ?st'))"
      using B by (rule bindings_same_static) (use owner [OF z] in auto)
    moreover have "leases ?st' = (leases st)(z := None)" by (simp add: leases_def fun_eq_iff)
    ultimately show ?thesis unfolding st'
      using ok leases_drop [OF L] lease_steps_drop by (simp add: ok_refines_def status_ok_def maps_ok_def)
  qed
  show "oc_is_static c" if "hm_get (st_offered_ip (snd (kick_dynamic ip st))) m = Some c" "oc_ip c = ip"
  proof (rule ccontr)
    assume "\<not> oc_is_static c"
    have off: "hm_get (st_offered_ip st) m = Some c"
      using that(1) by (auto simp: kick_dynamic_def split: option.splits if_splits)
    with dynamic \<open>\<not> oc_is_static c\<close> that have al: "hm_get (st_allocated_host st) ip = Some Dynamic" by blast
    show False
    proof (cases "find_dynamic_owner_of_ip ip st")
      case None
      with none off that \<open>\<not> oc_is_static c\<close> show False by blast
    next
      case (Some z)
      with owner obtain cz where "hm_get (st_offered_ip st) z = Some cz" "oc_ip cz = ip" by blast
      with leases_okD(2) [OF L off] that(2) have "z = m" by simp
      with that(1) al Some show False by (simp add: kick_dynamic_def)
    qed
  qed
qed

definition evict :: "('a \<Rightarrow> MacAddr option) \<Rightarrow> 'a \<Rightarrow> (MacAddr \<Rightarrow> 'b option) \<Rightarrow> (MacAddr \<Rightarrow> 'b option)" where
  "evict ow ip f = (case ow ip of None \<Rightarrow> f | Some old \<Rightarrow> f(old := None))"

text \<open>The state after a client without a binding got one, however the code gets there.\<close>

lemma bind_refines:
  assumes ok: "status_ok st" and nb: "hm_get (st_static_bindings st) m = None"
    and K: "\<And>m c. hm_get (st_offered_ip st) m = Some c \<Longrightarrow> oc_ip c = sb_ipv4 e \<Longrightarrow> oc_is_static c"
    and c: "oc_is_static c" "oc_ip c = sb_ipv4 e"
    and maps: "hm_get (st_static_bindings st') =
        (evict (hm_get (st_ip_owner st)) (sb_ipv4 e) (hm_get (st_static_bindings st)))(m \<mapsto> e)"
      "hm_get (st_ip_owner st') = (hm_get (st_ip_owner st))(sb_ipv4 e \<mapsto> m)"
      "hm_get (st_allocated_host st') = (hm_get (st_allocated_host st))(sb_ipv4 e \<mapsto> Static m)"
      "hm_get (st_offered_ip st') =
        (evict (hm_get (st_ip_owner st)) (sb_ipv4 e) (hm_get (st_offered_ip st)))(m \<mapsto> c)"
    and hm: "maps_ok st'"
  shows "ok_refines st st'"
proof -
  let ?sb = "hm_get (st_static_bindings st)" and ?ow = "hm_get (st_ip_owner st)"
    and ?al = "hm_get (st_allocated_host st)" and ?off = "hm_get (st_offered_ip st)"
  let ?off1 = "evict ?ow (sb_ipv4 e) ?off"
  have L: "leases_ok ?al ?off" and B: "bindings_ok ?sb ?ow ?off" using ok by (simp_all add: status_ok_def)
  have new: "leases_ok (?al(sb_ipv4 e \<mapsto> Static m)) (?off1(m \<mapsto> c)) \<and>
      bindings_ok ((evict ?ow (sb_ipv4 e) ?sb)(m \<mapsto> e)) (?ow(sb_ipv4 e \<mapsto> m)) (?off1(m \<mapsto> c)) \<and>
      only_at ?off1 (sb_ipv4 e) m"
  proof (cases "?ow (sb_ipv4 e)")
    case None
    have "only_at ?off (sb_ipv4 e) m" unfolding only_at_def
    proof (intro allI impI)
      fix m' c' assume a: "?off m' = Some c'" "oc_ip c' = sb_ipv4 e"
      with K have "oc_is_static c'" by blast
      with bindings_okD(3) [OF B a(1)] a(2) have "?ow (sb_ipv4 e) = Some m'"
        using bindings_okD(1) [OF B] by simp
      with None show "m' = m" by simp
    qed
    then show ?thesis using bind_maps [OF L B nb None _ c] by (simp add: evict_def None)
  next
    case (Some old)
    then obtain eo where eo: "?sb old = Some eo" "sb_ipv4 eo = sb_ipv4 e" using bindings_okD(1) [OF B] by blast
    note U = unbind_maps [OF L B eo(1)]
    have "oc_ip c' \<noteq> sb_ipv4 e" if "(?off(old := None)) m' = Some c'" for m' c'
      using that eo(2) by (intro free_unleased [OF U(2)]) simp_all
    then have "only_at (?off(old := None)) (sb_ipv4 e) m" unfolding only_at_def by blast
    then show ?thesis
      using bind_maps [OF U(2) U(3) _ _ _ c, of m] nb eo(2) by (simp add: evict_def Some)
  qed
  let ?L1 = "\<lambda>m. map_option oc_ip (?off1 m)"
  have "leases st' = ?L1(m \<mapsto> sb_ipv4 e)" using c by (simp add: leases_def fun_eq_iff maps)
  moreover have "lease_steps (leases st) ?L1"
    by (rule lease_steps_submap [OF _ finite_dom_leases])
      (auto simp: map_le_def leases_def evict_def split: option.splits if_splits)
  moreover have "lease_steps ?L1 (?L1(m \<mapsto> sb_ipv4 e))"
    using new by (intro lease_steps_grant) (auto simp: only_at_def)
  ultimately have "lease_steps (leases st) (leases st')" using lease_steps_trans by metis
  then show ?thesis using new hm by (simp add: ok_refines_def status_ok_def maps)
qed

lemma per_mac_frame [simp]:
  "st_static_bindings (per_mac_insert mac cs fs st) = st_static_bindings st"
  "st_ip_owner (per_mac_insert mac cs fs st) = st_ip_owner st"
  "st_allocated_host (per_mac_insert mac cs fs st) = st_allocated_host st"
  "st_offered_ip (per_mac_insert mac cs fs st) = st_offered_ip st"
  "st_range_start (per_mac_insert mac cs fs st) = st_range_start st"
  "st_range_mask (per_mac_insert mac cs fs st) = st_range_mask st"
  "st_range_capacity (per_mac_insert mac cs fs st) = st_range_capacity st"
  by (simp_all add: per_mac_insert_def)

lemma take_bind_refines:
  assumes ok: "status_ok st" and nb: "hm_get (st_static_bindings st) m = None"
    and K: "\<And>m c. hm_get (st_offered_ip st) m = Some c \<Longrightarrow> oc_ip c = sb_ipv4 e \<Longrightarrow> oc_is_static c"
  shows "ok_refines st (bind_entry now m e (take_ip m (sb_ipv4 e) st))"
proof (rule bind_refines [OF ok nb K])
  have B: "bindings_ok (hm_get (st_static_bindings st)) (hm_get (st_ip_owner st)) (hm_get (st_offered_ip st))"
    using ok by (simp add: status_ok_def)
  have ne: "hm_get (st_ip_owner st) (sb_ipv4 e) \<noteq> Some m"
    using nb bindings_okD(1) [OF B] by simp
  let ?st' = "bind_entry now m e (take_ip m (sb_ipv4 e) st)"
  let ?c = "\<lparr>oc_hostname = sb_hostname e, oc_ip = sb_ipv4 e, oc_relative_offer_time = now,
      oc_valid_time = 86400, oc_is_static = True, oc_prev_ip = None\<rparr>"
  show "oc_is_static ?c" "oc_ip ?c = sb_ipv4 e" by simp_all
  show "hm_get (st_static_bindings ?st') =
      (evict (hm_get (st_ip_owner st)) (sb_ipv4 e) (hm_get (st_static_bindings st)))(m \<mapsto> e)"
    and "hm_get (st_offered_ip ?st') =
      (evict (hm_get (st_ip_owner st)) (sb_ipv4 e) (hm_get (st_offered_ip st)))(m \<mapsto> ?c)"
    and "hm_get (st_ip_owner ?st') = (hm_get (st_ip_owner st))(sb_ipv4 e \<mapsto> m)"
    and "hm_get (st_allocated_host ?st') = (hm_get (st_allocated_host st))(sb_ipv4 e \<mapsto> Static m)"
    using ne by (auto simp: bind_entry_def take_ip_def Let_def evict_def split: option.splits)
  show "maps_ok ?st'" using ok
    by (auto simp: bind_entry_def take_ip_def Let_def status_ok_def maps_ok_def split: option.splits)
qed

lemma mark_prev_refines: "status_ok st \<Longrightarrow> ok_refines st (mark_prev_ip m ip st)"
  using touch_refines by (fastforce simp: mark_prev_ip_def ok_refines_refl split: option.splits)

lemma update_binding_refines:
  assumes ok: "status_ok st" and run: "add_or_update_binding inet_add clk fuel m e st = Returned st'"
  shows "ok_refines st st'"
proof -
  let ?st1 = "snd (kick_dynamic (sb_ipv4 e) st)"
  let ?st2 = "drop_old_binding m ?st1"
  let ?st3 = "bind_entry (clk 0) m e (take_ip m (sb_ipv4 e) ?st2)"
  have r1: "ok_refines st ?st1" using kick_refines(1) [OF ok] .
  then have ok1: "status_ok ?st1" by (simp add: ok_refines_def)
  note D = drop_old_refines [OF ok1, of m]
  then have ok2: "status_ok ?st2" by (simp add: ok_refines_def)
  have "oc_is_static c" if "hm_get (st_offered_ip ?st2) m' = Some c" "oc_ip c = sb_ipv4 e" for m' c
    using kick_refines(2) [OF ok, of "sb_ipv4 e" m' c] D(3) that by auto
  then have r3: "ok_refines ?st2 ?st3" using take_bind_refines [OF ok2 D(2)] by blast
  have r: "ok_refines st ?st3" using r1 D(1) r3 ok_refines_trans by blast
  then have ok3: "status_ok ?st3" by (simp add: ok_refines_def)
  show ?thesis
  proof (cases "fst (kick_dynamic (sb_ipv4 e) st)")
    case None
    with run r show ?thesis by (simp add: add_or_update_binding_def Let_def split_beta)
  next
    case (Some zh)
    with run obtain r4 st4 where off: "offer_ip inet_add clk fuel (fst zh) (snd zh) ?st3 = Returned (r4, st4)"
      and st': "st' = mark_prev_ip (fst zh) (sb_ipv4 e) st4"
      by (auto simp: add_or_update_binding_def Let_def split_beta and_then_Returned)
    have r4: "ok_refines ?st3 st4" using offer_refines [OF off ok3] .
    then have "ok_refines st4 st'" unfolding st' by (intro mark_prev_refines) (simp add: ok_refines_def)
    with r r4 show ?thesis using ok_refines_trans by blast
  qed
qed

section \<open>From the enrolled devices to any later state\<close>

definition all_static :: "'x DhcpV4AssignStatus \<Rightarrow> bool" where
  "all_static st \<longleftrightarrow> (\<forall>m c. hm_get (st_offered_ip st) m = Some c \<longrightarrow> oc_is_static c)"

lemma bound_allocated:
  assumes "status_ok st" and e: "hm_get (st_static_bindings st) m = Some e"
  shows "hm_get (st_allocated_host st) (sb_ipv4 e) = Some (Static m)"
proof -
  have L: "leases_ok (hm_get (st_allocated_host st)) (hm_get (st_offered_ip st))"
    and B: "bindings_ok (hm_get (st_static_bindings st)) (hm_get (st_ip_owner st)) (hm_get (st_offered_ip st))"
    using assms by (simp_all add: status_ok_def)
  show ?thesis by (rule unbind_maps(1) [OF L B e])
qed

lemma enroll_ok:
  assumes ok: "status_ok st" and stat: "all_static st"
  shows "status_ok (enroll_device d st)" and "all_static (enroll_device d st)"
proof -
  let ?m = "ed_mac d"
  show "all_static (enroll_device d st)"
    using stat by (auto simp: all_static_def enroll_device_def enroll_owner_def enroll_binding_def Let_def
        split: option.splits if_splits)
  show "status_ok (enroll_device d st)"
  proof (cases "from_enrolled d")
    case None
    then show ?thesis using ok by (simp add: enroll_device_def status_ok_def maps_ok_def)
  next
    case (Some e)
    let ?st1 = "drop_old_binding ?m st"
    note D = drop_old_refines [OF ok, of ?m]
    then have ok1: "status_ok ?st1" by (simp add: ok_refines_def)
    have B: "bindings_ok (hm_get (st_static_bindings ?st1)) (hm_get (st_ip_owner ?st1)) (hm_get (st_offered_ip ?st1))"
      using ok1 by (simp add: status_ok_def)
    have ne: "hm_get (st_ip_owner ?st1) (sb_ipv4 e) \<noteq> Some ?m" using D(2) bindings_okD(1) [OF B] by simp
    have ow: "st_ip_owner (enroll_binding e ?m st) = st_ip_owner ?st1"
      and off: "hm_get (st_offered_ip (enroll_binding e ?m st)) m' = hm_get (st_offered_ip ?st1) m' \<or> m' = ?m"
      and sb: "hm_get (st_static_bindings (enroll_binding e ?m st)) = (hm_get (st_static_bindings ?st1))(?m \<mapsto> e)"
      for m'
      by (auto simp: enroll_binding_def drop_old_binding_def Let_def split: option.splits)
    have al0: "hm_get (st_allocated_host st) (sb_ipv4 x) = Some (Static ?m)"
      if "hm_get (st_static_bindings st) ?m = Some x" for x
      using bound_allocated [OF ok that] .
    have al: "hm_get (st_allocated_host (enroll_binding e ?m st)) = hm_get (st_allocated_host ?st1)"
      using al0 by (auto simp: enroll_binding_def drop_old_binding_def Let_def split: option.splits)
    have "ok_refines ?st1 (enroll_device d st)"
    proof (rule bind_refines [OF ok1 D(2), of e])
      let ?c = "\<lparr>oc_hostname = ed_hostname d, oc_ip = sb_ipv4 e, oc_relative_offer_time = 0,
          oc_valid_time = 86400, oc_is_static = True, oc_prev_ip = None\<rparr>"
      let ?ow = "hm_get (st_ip_owner ?st1)"
      show "oc_is_static c" if "hm_get (st_offered_ip ?st1) m = Some c" for m c
        using D(3) that stat unfolding all_static_def by (metis option.distinct(1))
      show "oc_is_static ?c" "oc_ip ?c = sb_ipv4 e" by simp_all
      show "hm_get (st_static_bindings (enroll_device d st)) =
          (evict ?ow (sb_ipv4 e) (hm_get (st_static_bindings ?st1)))(?m \<mapsto> e)"
        using Some ne by (auto simp: enroll_device_def enroll_owner_def Let_def ow sb evict_def split: option.splits)
      show "hm_get (st_ip_owner (enroll_device d st)) = ?ow(sb_ipv4 e \<mapsto> ?m)"
        using Some by (auto simp: enroll_device_def enroll_owner_def Let_def ow split: option.splits)
      show "hm_get (st_allocated_host (enroll_device d st)) =
          (hm_get (st_allocated_host ?st1))(sb_ipv4 e \<mapsto> Static ?m)"
        using Some by (auto simp: enroll_device_def enroll_owner_def Let_def al split: option.splits)
      show "hm_get (st_offered_ip (enroll_device d st)) = (evict ?ow (sb_ipv4 e) (hm_get (st_offered_ip ?st1)))(?m \<mapsto> ?c)"
        using Some off by (auto simp: enroll_device_def enroll_owner_def Let_def ow evict_def fun_eq_iff split: option.splits)
      show "maps_ok (enroll_device d st)"
        using Some ok by (auto simp: enroll_device_def enroll_owner_def enroll_binding_def Let_def status_ok_def
            maps_ok_def split: option.splits)
    qed
    then show ?thesis by (simp add: ok_refines_def)
  qed
qed

lemma enroll_fold_ok:
  "status_ok st \<Longrightarrow> all_static st \<Longrightarrow> status_ok (fold enroll_device ds st) \<and> all_static (fold enroll_device ds st)"
  by (induction ds arbitrary: st) (simp_all add: enroll_ok)

lemma enroll_frame:
  "st_range_start (fold enroll_device ds st) = st_range_start st"
  "st_range_mask (fold enroll_device ds st) = st_range_mask st"
  "st_range_capacity (fold enroll_device ds st) = st_range_capacity st"
proof -
  have "st_range_start (enroll_device d s) = st_range_start s"
    "st_range_mask (enroll_device d s) = st_range_mask s"
    "st_range_capacity (enroll_device d s) = st_range_capacity s" for d and s :: "'a DhcpV4AssignStatus"
    by (auto simp: enroll_device_def enroll_owner_def enroll_binding_def Let_def split: option.splits)
  then show "st_range_start (fold enroll_device ds st) = st_range_start st"
    "st_range_mask (fold enroll_device ds st) = st_range_mask st"
    "st_range_capacity (fold enroll_device ds st) = st_range_capacity st"
    by (induction ds arbitrary: st) simp_all
qed

text \<open>The address the pool ends before.\<close>

definition pool_end :: "(u32 \<Rightarrow> u8 \<Rightarrow> u32) \<Rightarrow> 'x DHCPv4ServerConfig \<Rightarrow> u32" where
  "pool_end inet_last config =
     (case ip_range_end config of
        Some addr \<Rightarrow> (if addr \<noteq> 0 then addr else inet_last (ip_range_start config) (network_mask config))
      | None \<Rightarrow> inet_last (ip_range_start config) (network_mask config))"

definition empty_status :: "(u32 \<Rightarrow> u8 \<Rightarrow> u32) \<Rightarrow> 'x DHCPv4ServerConfig \<Rightarrow> 'x DhcpV4AssignStatus" where
  "empty_status inet_last config =
     \<lparr>st_range_start = ip_range_start config, st_range_mask = network_mask config,
      st_range_capacity = pool_end inet_last config - ip_range_start config,
      st_static_bindings = [], st_ip_owner = [], st_per_mac_options = [],
      st_allocated_host = [], st_offered_ip = []\<rparr>"

lemma from_config_eq:
  "from_config_and_devices inet_last config ds = Returned st \<longleftrightarrow>
     network_mask config \<le> 32 \<and> st = fold enroll_device ds (empty_status inet_last config)"
  by (auto simp: from_config_and_devices_def Let_def empty_status_def pool_end_def split: if_splits)

lemma empty_status_ok: "status_ok (empty_status inet_last config)" "all_static (empty_status inet_last config)"
  by (auto simp: empty_status_def status_ok_def maps_ok_def leases_ok_def bindings_ok_def all_static_def)

lemma from_config_ok:
  assumes "from_config_and_devices inet_last config ds = Returned st"
  shows "status_ok st" and "all_static st"
    and "st_range_start st = ip_range_start config" and "st_range_mask st = network_mask config"
    and "st_range_capacity st = pool_end inet_last config - ip_range_start config"
  using assms enroll_fold_ok [OF empty_status_ok]
  by (auto simp: from_config_eq enroll_frame) (simp_all add: empty_status_def)

fun polite :: "'x status_op \<Rightarrow> 'x DhcpV4AssignStatus \<Rightarrow> bool" where
  "polite (OpRelease mac ip) st = polite_release mac ip st"
| "polite _ st = True"

text \<open>Every release of a run is polite at the moment it arrives.\<close>

fun polite_run ::
  "(u32 \<Rightarrow> u8 \<Rightarrow> u32 \<Rightarrow> u32) \<Rightarrow> nat \<Rightarrow> 'x status_op list \<Rightarrow> 'x DhcpV4AssignStatus \<Rightarrow> bool" where
  "polite_run inet_add fuel [] st = True"
| "polite_run inet_add fuel (op # ops) st =
     (polite op st \<and>
      (case status_step inet_add fuel op st of Returned st' \<Rightarrow> polite_run inet_add fuel ops st' | _ \<Rightarrow> True))"

lemma status_step_refines:
  assumes "status_ok st" and "polite op st" and "status_step inet_add fuel op st = Returned st'"
  shows "ok_refines st st'"
  using assms
  by (cases op)
    (auto simp: and_then_Returned intro: offer_refines ack_refines decline_refines release_refines
      clean_refines update_binding_refines remove_refines)

interpretation dhcp_table:
  refined_machine "status_step inet_add fuel" "status_run inet_add fuel" status_ok polite
    "polite_run inet_add fuel" leases lease_step
  for inet_add :: "u32 \<Rightarrow> u8 \<Rightarrow> u32 \<Rightarrow> u32" and fuel :: nat
proof unfold_locales
  fix op :: "'x status_op" and s s'
  assume "status_ok s" "polite op s" "status_step inet_add fuel op s = Returned s'"
  then have "ok_refines s s'"
    by (rule status_step_refines)
  then show "status_ok s' \<and> lease_step\<^sup>*\<^sup>* (leases s) (leases s')"
    by (simp add: ok_refines_def lease_steps_def)
qed simp_all

lemma status_run_refines:
  assumes "status_ok st" and "polite_run inet_add fuel ops st" and "status_run inet_add fuel ops st = Returned st'"
  shows "ok_refines st st'"
  using dhcp_table.run_refines [OF assms] by (simp add: ok_refines_def lease_steps_def)

section \<open>The search loop\<close>

definition in_pool :: "u32 \<Rightarrow> 'x DhcpV4AssignStatus \<Rightarrow> bool" where
  "in_pool ip st \<longleftrightarrow> ip - st_range_start st < st_range_capacity st"

text \<open>What the loop relies on of \<open>overflowing_add_u32\<close>: a step inside the pool is an addition.\<close>

definition inet_add_exact :: "(u32 \<Rightarrow> u8 \<Rightarrow> u32 \<Rightarrow> u32) \<Rightarrow> 'x DhcpV4AssignStatus \<Rightarrow> bool" where
  "inet_add_exact inet_add st \<longleftrightarrow>
     (\<forall>i. i < st_range_capacity st \<longrightarrow>
        inet_add (st_range_start st) (st_range_mask st) i = st_range_start st + i)"

lemma unat_of_nat_u32: "n < 4294967296 \<Longrightarrow> unat (word_of_nat n :: u32) = n"
  by (simp add: unat_of_nat)

lemma card_words_less: "card {i :: u32. i < c} = unat c"
proof -
  have small: "n < 4294967296" if "n < unat c" for n
    using that unat_u32_less [of c] by (rule order.strict_trans)
  have "{i :: u32. i < c} = word_of_nat ` {..<unat c}"
  proof (intro equalityI subsetI)
    fix i assume "i \<in> {i. i < c}"
    then show "i \<in> word_of_nat ` {..<unat c}"
      by (intro image_eqI [of _ _ "unat i"]) (simp_all add: word_less_nat_alt)
  next
    fix i assume "i \<in> (word_of_nat :: nat \<Rightarrow> u32) ` {..<unat c}"
    then obtain n where n: "n < unat c" "i = word_of_nat n" by auto
    then have "unat i = n" using unat_of_nat_u32 [OF small] by simp
    with n show "i \<in> {i. i < c}" by (simp add: word_less_nat_alt)
  qed
  moreover have "inj_on (word_of_nat :: nat \<Rightarrow> u32) {..<unat c}"
    using unat_of_nat_u32 [OF small] by (intro inj_onI) (metis lessThan_iff)
  ultimately show ?thesis by (simp add: card_image)
qed

lemma pool_eq_image: "{ip. in_pool ip st} = (\<lambda>i. st_range_start st + i) ` {i. i < st_range_capacity st}"
proof (intro equalityI subsetI)
  fix ip assume "ip \<in> {ip. in_pool ip st}"
  then show "ip \<in> (\<lambda>i. st_range_start st + i) ` {i. i < st_range_capacity st}"
    by (intro image_eqI [of _ _ "ip - st_range_start st"]) (simp_all add: in_pool_def)
qed (auto simp: in_pool_def)

lemma card_pool: "card {ip. in_pool ip st} = unat (st_range_capacity st)"
proof -
  have "inj_on (\<lambda>i. st_range_start st + i) {i. i < st_range_capacity st}" by (simp add: inj_on_def)
  then show ?thesis by (simp add: pool_eq_image card_image card_words_less)
qed

text \<open>Counting up from any seed meets every residue within two rounds, wrap-around included.\<close>

lemma residue_hit:
  assumes "i < (cap :: u32)"
  shows "\<exists>j < 2 * unat cap. (s + word_of_nat j) mod cap = i"
proof -
  let ?S = "unat s" and ?C = "unat cap" and ?I = "unat i"
  have I: "?I < ?C" using assms by (simp add: word_less_nat_alt)
  have C: "?C < 4294967296" and S: "?S < 4294967296" by (simp_all only: unat_u32_less)
  show ?thesis
  proof (cases "?S + ?C \<le> 4294967296")
    case True
    define j where "j = (?I + ?C - ?S mod ?C) mod ?C"
    have j: "j < ?C" using I by (simp add: j_def)
    have "(?S + j) mod ?C = (?S mod ?C + (?I + ?C - ?S mod ?C)) mod ?C"
      by (simp add: j_def mod_simps)
    also have "?S mod ?C + (?I + ?C - ?S mod ?C) = ?I + ?C"
      using I mod_less_divisor [of ?C ?S] by linarith
    also have "(?I + ?C) mod ?C = ?I" using I by simp
    finally have m: "(?S + j) mod ?C = ?I" .
    have "unat (s + word_of_nat j) = ?S + j"
      using True j by (simp add: unat_word_ariths unat_of_nat)
    then have "unat ((s + word_of_nat j) mod cap) = ?I" by (simp add: unat_mod m)
    then have "(s + word_of_nat j) mod cap = i" by (simp add: word_unat_eq_iff)
    then show ?thesis using j by (intro exI [of _ j]) simp
  next
    case False
    define j where "j = (4294967296 - ?S) + ?I"
    have j: "j < 2 * ?C" using False I by (simp add: j_def)
    have sum: "?S + j = 4294967296 + ?I" unfolding j_def using S by linarith
    have "unat (s + word_of_nat j) = (?S + j) mod 4294967296" by (simp add: unat_word_ariths unat_of_nat mod_simps)
    also have "\<dots> = ?I" unfolding sum using order.strict_trans [OF I C] by simp
    finally have "unat (s + word_of_nat j) = ?I" .
    then have "unat ((s + word_of_nat j) mod cap) = ?I" using I by (simp add: unat_mod)
    then have "(s + word_of_nat j) mod cap = i" by (simp add: word_unat_eq_iff)
    then show ?thesis using j by blast
  qed
qed

lemma offer_loop_notfull:
  "word_of_nat (length (st_allocated_host st)) \<noteq> st_range_capacity st \<Longrightarrow> st_range_capacity st \<noteq> 0 \<Longrightarrow>
   offer_loop inet_add clk mac hostname (Suc fuel) k seed st =
     (let address = inet_add (st_range_start st) (st_range_mask st) (seed mod st_range_capacity st)
      in if hm_contains (st_allocated_host st) address
         then offer_loop inet_add clk mac hostname fuel (Suc k) (seed + 1) st
         else Returned (Some address,
                st\<lparr>st_offered_ip := hm_insert mac \<lparr>oc_hostname = hostname, oc_ip = address,
                      oc_relative_offer_time = clk k, oc_valid_time = OFFER_VALID_TIME,
                      oc_is_static = False, oc_prev_ip = None\<rparr> (st_offered_ip st),
                   st_allocated_host := hm_insert address Dynamic (st_allocated_host st)\<rparr>))"
  by (simp add: Let_def)

lemma offer_loop_finds:
  assumes nf: "word_of_nat (length (st_allocated_host st)) \<noteq> st_range_capacity st" and cap: "st_range_capacity st \<noteq> 0"
    and hit: "\<exists>j<fuel. \<not> hm_contains (st_allocated_host st)
        (inet_add (st_range_start st) (st_range_mask st) ((seed + word_of_nat j) mod st_range_capacity st))"
  shows "\<exists>a st'. offer_loop inet_add clk mac hostname fuel k seed st = Returned (Some a, st') \<and>
    leases st' = (leases st)(mac \<mapsto> a) \<and> \<not> hm_contains (st_allocated_host st) a"
  using hit
proof (induction fuel arbitrary: k seed)
  case (Suc fuel)
  let ?a = "\<lambda>s. inet_add (st_range_start st) (st_range_mask st) (s mod st_range_capacity st)"
  show ?case
  proof (cases "hm_contains (st_allocated_host st) (?a seed)")
    case True
    obtain j where j: "j < Suc fuel" "\<not> hm_contains (st_allocated_host st) (?a (seed + word_of_nat j))"
      using Suc.prems by blast
    with True obtain j' where j': "j = Suc j'" by (cases j) auto
    have "seed + word_of_nat j = seed + 1 + word_of_nat j'" by (simp add: j')
    then have "\<not> hm_contains (st_allocated_host st) (?a (seed + 1 + word_of_nat j'))" using j(2) by argo
    with j(1) j' have "\<exists>j<fuel. \<not> hm_contains (st_allocated_host st) (?a (seed + 1 + word_of_nat j))"
      by (intro exI [of _ j']) simp
    from Suc.IH [OF this] True show ?thesis
      unfolding offer_loop_notfull [OF nf cap] Let_def by simp
  next
    case False
    then show ?thesis unfolding offer_loop_notfull [OF nf cap] Let_def by (auto simp: leases_def fun_eq_iff)
  qed
qed simp

lemma offer_loop_stuck:
  assumes nf: "word_of_nat (length (st_allocated_host st)) \<noteq> st_range_capacity st" and cap: "st_range_capacity st \<noteq> 0"
    and full: "\<And>i. i < st_range_capacity st \<Longrightarrow>
        hm_contains (st_allocated_host st) (inet_add (st_range_start st) (st_range_mask st) i)"
  shows "offer_loop inet_add clk mac hostname fuel k seed st = Unfinished"
proof (induction fuel arbitrary: k seed)
  case (Suc fuel)
  have "seed mod st_range_capacity st < st_range_capacity st"
    using cap by (simp add: word_mod_less_divisor word_gt_0)
  then show ?case using full Suc unfolding offer_loop_notfull [OF nf cap] Let_def by simp
qed simp

definition pool_only :: "'x DhcpV4AssignStatus \<Rightarrow> bool" where
  "pool_only st \<longleftrightarrow> (\<forall>ip. hm_contains (st_allocated_host st) ip \<longrightarrow> in_pool ip st)"

definition pool_exhausted :: "'x DhcpV4AssignStatus \<Rightarrow> bool" where
  "pool_exhausted st \<longleftrightarrow> (\<forall>ip. in_pool ip st \<longrightarrow> hm_contains (st_allocated_host st) ip)"

lemma pool_length:
  assumes hm: "hm_ok (st_allocated_host st)" and sub: "pool_only st"
  shows "word_of_nat (length (st_allocated_host st)) = st_range_capacity st \<longleftrightarrow> pool_exhausted st"
proof -
  let ?K = "{ip. hm_get (st_allocated_host st) ip \<noteq> None}" and ?P = "{ip. in_pool ip st}"
  have KP: "?K \<subseteq> ?P" using sub by (auto simp: pool_only_def hm_contains_def)
  have len: "length (st_allocated_host st) = card ?K" using hm by (rule hm.len_card)
  have "card ?K \<le> unat (st_range_capacity st)" using card_mono [OF _ KP] card_pool [of st] by simp
  then have "unat (word_of_nat (card ?K) :: u32) = card ?K"
    using unat_u32_less [of "st_range_capacity st"] by (intro unat_of_nat_u32) (rule order_le_less_trans)
  then have "word_of_nat (length (st_allocated_host st)) = st_range_capacity st \<longleftrightarrow> card ?K = card ?P"
    unfolding len card_pool by (metis word_of_nat_eqI)
  also have "\<dots> \<longleftrightarrow> ?P \<subseteq> ?K" using card_subset_eq [OF _ KP] KP by (auto simp: finite_subset)
  also have "\<dots> \<longleftrightarrow> pool_exhausted st" by (auto simp: pool_exhausted_def hm_contains_def)
  finally show ?thesis .
qed

lemma offer_loop_not_exhausted:
  assumes hm: "hm_ok (st_allocated_host st)" and sub: "pool_only st" and ex: "\<not> pool_exhausted st"
    and cap: "st_range_capacity st \<noteq> 0" and exact: "inet_add_exact inet_add st"
    and fuel: "2 * unat (st_range_capacity st) \<le> fuel"
  shows "\<exists>a st'. offer_loop inet_add clk mac hostname fuel k seed st = Returned (Some a, st') \<and>
    leases st' = (leases st)(mac \<mapsto> a) \<and> \<not> hm_contains (st_allocated_host st) a"
proof (rule offer_loop_finds)
  show "word_of_nat (length (st_allocated_host st)) \<noteq> st_range_capacity st"
    using pool_length [OF hm sub] ex by simp
  obtain ip where ip: "in_pool ip st" "\<not> hm_contains (st_allocated_host st) ip"
    using ex by (auto simp: pool_exhausted_def)
  define i where "i = ip - st_range_start st"
  have i: "i < st_range_capacity st" "inet_add (st_range_start st) (st_range_mask st) i = ip"
    using ip(1) exact by (simp_all add: in_pool_def inet_add_exact_def i_def)
  obtain j where "j < 2 * unat (st_range_capacity st)" "(seed + word_of_nat j) mod st_range_capacity st = i"
    using residue_hit [OF i(1)] by blast
  then show "\<exists>j<fuel. \<not> hm_contains (st_allocated_host st)
      (inet_add (st_range_start st) (st_range_mask st) ((seed + word_of_nat j) mod st_range_capacity st))"
    using i(2) ip(2) fuel by (intro exI [of _ j]) simp
qed (rule cap)

lemma clean_frees:
  assumes ok: "status_ok st" and sub: "pool_only st" and ne: "fst (clean_expire_ip now st) \<noteq> []"
  shows "pool_only (snd (clean_expire_ip now st))" and "\<not> pool_exhausted (snd (clean_expire_ip now st))"
proof -
  have hm: "hm_ok (st_offered_ip st)" "hm_ok (st_allocated_host st)"
    and L: "leases_ok (hm_get (st_allocated_host st)) (hm_get (st_offered_ip st))"
    using ok by (simp_all add: status_ok_def maps_ok_def)
  have fr: "in_pool ip (snd (clean_expire_ip now st)) \<longleftrightarrow> in_pool ip st" for ip
    by (simp add: in_pool_def clean_frame)
  show "pool_only (snd (clean_expire_ip now st))"
    using sub by (auto simp: pool_only_def hm_contains_def clean_allocated [OF hm] fr split: if_splits)
  from ne obtain m ip h where "(m, ip, h) \<in> set (fst (clean_expire_ip now st))"
    by (cases "fst (clean_expire_ip now st)") auto
  then obtain c where c: "hm_get (st_offered_ip st) m = Some c" "expired_at now c" "oc_ip c = ip"
    unfolding clean_expired [OF hm(1)] by blast
  have "hm_contains (st_allocated_host st) ip" using leases_okD(1) [OF L c(1)] c(3) by (simp add: hm_contains_def)
  then have "in_pool ip st" using sub by (simp add: pool_only_def)
  moreover have "\<not> hm_contains (st_allocated_host (snd (clean_expire_ip now st))) ip"
    using c by (auto simp: hm_contains_def clean_allocated [OF hm])
  ultimately show "\<not> pool_exhausted (snd (clean_expire_ip now st))"
    by (auto simp: pool_exhausted_def fr)
qed

lemma offer_loop_after_clean:
  assumes "word_of_nat (length (st_allocated_host st)) = st_range_capacity st"
    and "fst (clean_expire_ip (clk k) st) \<noteq> []"
    and "word_of_nat (length (st_allocated_host (snd (clean_expire_ip (clk k) st)))) \<noteq> st_range_capacity st"
  shows "offer_loop inet_add clk mac hostname (Suc fuel) k seed st =
    offer_loop inet_add clk mac hostname (Suc fuel) k seed (snd (clean_expire_ip (clk k) st))"
  using assms by (simp add: clean_frame split_beta Let_def)

lemma offer_loop_total:
  assumes ok: "status_ok st" and sub: "pool_only st" and cap: "st_range_capacity st \<noteq> 0"
    and exact: "inet_add_exact inet_add st" and fuel: "2 * unat (st_range_capacity st) \<le> fuel"
  shows "\<exists>r st'. offer_loop inet_add clk mac hostname fuel k seed st = Returned (r, st') \<and>
    (case r of Some a \<Rightarrow> leases st' mac = Some a
     | None \<Rightarrow> pool_exhausted st \<and> fst (clean_expire_ip (clk k) st) = [])"
proof -
  have hm: "hm_ok (st_allocated_host st)" using ok by (simp add: status_ok_def maps_ok_def)
  note len = pool_length [OF hm sub]
  show ?thesis
  proof (cases "pool_exhausted st")
    case False
    from offer_loop_not_exhausted [OF hm sub False cap exact fuel, of clk mac hostname k seed]
    show ?thesis by fastforce
  next
    case True
    then have full: "word_of_nat (length (st_allocated_host st)) = st_range_capacity st" using len by simp
    have "0 < unat (st_range_capacity st)" using cap unat_gt_0 by blast
    then obtain f where f: "fuel = Suc f" using fuel by (cases fuel) auto
    let ?st1 = "snd (clean_expire_ip (clk k) st)"
    show ?thesis
    proof (cases "fst (clean_expire_ip (clk k) st) = []")
      case empty: True
      then have "offer_loop inet_add clk mac hostname fuel k seed st = Returned (None, ?st1)"
        using full by (simp add: f split_beta Let_def)
      then show ?thesis using True empty by (intro exI [of _ None] exI [of _ ?st1]) simp
    next
      case ne: False
      note fr = clean_frees [OF ok sub ne]
      have hm1: "hm_ok (st_allocated_host ?st1)" using clean_ok [OF ok] by (simp add: status_ok_def maps_ok_def)
      have "inet_add_exact inet_add ?st1" using exact by (simp add: inet_add_exact_def clean_frame)
      then obtain a st' where "offer_loop inet_add clk mac hostname fuel k seed ?st1 = Returned (Some a, st')"
        "leases st' = (leases ?st1)(mac \<mapsto> a)"
        using offer_loop_not_exhausted [OF hm1 fr(1,2)] cap fuel unfolding clean_frame by blast
      moreover have "offer_loop inet_add clk mac hostname fuel k seed st =
          offer_loop inet_add clk mac hostname fuel k seed ?st1"
        unfolding f using full ne pool_length [OF hm1 fr(1)] fr(2)
        by (intro offer_loop_after_clean) (simp_all add: clean_frame)
      ultimately show ?thesis by (intro exI [of _ "Some a"] exI [of _ st']) simp
    qed
  qed
qed

section \<open>Validated configurations\<close>

lemma mask_bits_eq:
  assumes "m \<noteq> (0 :: u8)" and "\<not> m > 30"
  shows "shl32 0xffffffff (32 - m) = NOT (mask (32 - unat m))"
proof -
  have m: "0 < unat m" "unat m \<le> 30" using assms by (simp_all add: word_less_nat_alt unat_gt_0)
  then have s: "unat (32 - m) = 32 - unat m" by (simp add: unat_sub word_le_nat_alt)
  have mask5: "(31 :: u8) = mask 5" by (simp add: mask_eq_exp_minus_1)
  have "unat ((32 - m) AND 31) = unat (32 - m) mod 2 ^ 5"
    by (simp only: mask5 take_bit_eq_mask [symmetric] unsigned_take_bit_eq) (simp only: take_bit_eq_mod)
  also have "\<dots> = 32 - unat m" using m by (simp add: s)
  finally have "unat ((32 - m) AND 31) = 32 - unat m" .
  moreover have "(0xffffffff :: u32) = - 1" by simp
  ultimately show ?thesis by (simp only: shl32_def push_bit_minus_one_eq_not_mask)
qed

lemma between_sub:
  assumes "a \<le> e" and "ip - a < e - (a :: u32)"
  shows "a \<le> ip" and "ip < e"
proof -
  let ?d = "ip - a"
  have "unat (e - a) = unat e - unat a" using assms(1) by (simp add: unat_sub)
  then have d: "unat a + unat ?d < unat e" using assms by (simp add: word_less_nat_alt word_le_nat_alt)
  then have "unat a + unat ?d < 4294967296" using unat_u32_less [of e] by linarith
  then have "unat (a + ?d) = unat a + unat ?d" by (subst unat_word_ariths) simp
  then have "unat ip = unat a + unat ?d" by simp
  with d show "a \<le> ip" "ip < e" by (simp_all add: word_le_nat_alt word_less_nat_alt)
qed

text \<open>What the code relies on of \<open>last_address\<close>: all host bits set.\<close>

definition inet_last_ok :: "(u32 \<Rightarrow> u8 \<Rightarrow> u32) \<Rightarrow> 'x DHCPv4ServerConfig \<Rightarrow> bool" where
  "inet_last_ok inet_last c \<longleftrightarrow>
     inet_last (ip_range_start c) (network_mask c) =
       (ip_range_start c AND subnet_mask c) OR mask (host_bits c)"

lemma validate_facts:
  assumes v: "config_validate enc c = Returned None"
  shows "network_mask c \<le> 30"
    and "ip_range_start c AND subnet_mask c = network_addr c" and "ip_range_start c \<noteq> network_addr c"
    and "ip_range_start c \<noteq> broadcast_addr c"
    and "ip_range_end c = Some e \<Longrightarrow> e AND subnet_mask c = network_addr c \<and> e \<noteq> network_addr c \<and> ip_range_start c \<le> e"
proof -
  have m: "network_mask c \<noteq> 0" "\<not> network_mask c > 30"
    using v by (auto simp: config_validate_def split: if_splits)
  have M: "shl32 0xffffffff (32 - network_mask c) = subnet_mask c"
    using mask_bits_eq [OF m] by (simp add: subnet_mask_def host_bits_def)
  have bc: "network_addr c OR NOT (subnet_mask c) = broadcast_addr c"
    by (simp add: broadcast_addr_def subnet_mask_def)
  note v' = v [unfolded config_validate_def M Let_def, folded network_addr_def, unfolded bc]
  show "network_mask c \<le> 30" using m(2) by (simp add: not_less)
  show "ip_range_start c AND subnet_mask c = network_addr c" "ip_range_start c \<noteq> network_addr c"
    "ip_range_start c \<noteq> broadcast_addr c"
    using v' by (auto simp: is_usable_host_def split: if_splits)
  show "e AND subnet_mask c = network_addr c \<and> e \<noteq> network_addr c \<and> ip_range_start c \<le> e"
    if "ip_range_end c = Some e"
    using v' that by (auto simp: not_less split: if_splits)
qed

lemma pool_end_validated:
  assumes v: "config_validate enc c = Returned None" and last: "inet_last_ok inet_last c"
  shows "pool_end inet_last c AND subnet_mask c = network_addr c"
    and "ip_range_start c \<le> pool_end inet_last c" and "pool_end inet_last c \<le> broadcast_addr c"
proof -
  note F = validate_facts [OF v]
  have bc: "x \<le> broadcast_addr c" if "x AND subnet_mask c = network_addr c" for x
    using le_broadcast [of x "host_bits c"] that by (simp add: broadcast_addr_def subnet_mask_def)
  have bm: "broadcast_addr c AND subnet_mask c = network_addr c"
    unfolding broadcast_addr_def network_addr_def subnet_mask_def
    by (rule bit_word_eqI) (auto simp: bit_simps)
  have "pool_end inet_last c = broadcast_addr c \<or> (\<exists>e. ip_range_end c = Some e \<and> pool_end inet_last c = e)"
    using last F(2) by (auto simp: pool_end_def inet_last_ok_def broadcast_addr_def split: option.splits)
  then show "pool_end inet_last c AND subnet_mask c = network_addr c" "ip_range_start c \<le> pool_end inet_last c"
    "pool_end inet_last c \<le> broadcast_addr c"
    using F(5) bc [OF F(2)] bm bc by auto
qed

text \<open>C33: A configuration that passes validation gives a pool inside the server's subnet: the capacity
  is the distance from the start to the end without wrap-around, and every address of the pool is a
  host address, neither the network nor the broadcast address.
\<close>

theorem validated_pool_in_subnet:
  assumes "config_validate enc c = Returned None" and "inet_last_ok inet_last c"
    and "from_config_and_devices inet_last c devices = Returned st"
  shows "unat (st_range_capacity st) = unat (pool_end inet_last c) - unat (ip_range_start c) \<and>
    ip_range_start c \<le> pool_end inet_last c \<and>
    (in_pool ip st \<longrightarrow> ip \<ge> ip_range_start c \<and> ip < pool_end inet_last c \<and>
       is_usable_host (subnet_mask c) (network_addr c) (broadcast_addr c) ip)"
proof (intro conjI impI)
  note F = validate_facts [OF assms(1)] and P = pool_end_validated [OF assms(1,2)] and S = from_config_ok [OF assms(3)]
  show "ip_range_start c \<le> pool_end inet_last c" by (rule P(2))
  show "unat (st_range_capacity st) = unat (pool_end inet_last c) - unat (ip_range_start c)"
    using P(2) by (simp add: S unat_sub)
  assume "in_pool ip st"
  then have ip: "ip_range_start c \<le> ip" "ip < pool_end inet_last c"
    using between_sub [OF P(2), of ip] by (simp_all add: in_pool_def S)
  then show "ip \<ge> ip_range_start c" "ip < pool_end inet_last c" .
  have "ip AND subnet_mask c = network_addr c"
    using subnet_convex [OF F(2) [unfolded subnet_mask_def] P(1) [unfolded subnet_mask_def] ip(1)] ip(2)
    by (simp add: subnet_mask_def)
  moreover have "network_addr c < ip"
    using network_le [of "ip_range_start c" "host_bits c"] F(2,3) ip(1) by (simp add: subnet_mask_def)
  moreover have "ip < broadcast_addr c" using ip(2) P(3) by simp
  ultimately show "is_usable_host (subnet_mask c) (network_addr c) (broadcast_addr c) ip"
    by (auto simp: is_usable_host_def)
qed


section \<open>Examples\<close>

text \<open>The crate's functions on the addresses of the examples, and a small server.\<close>

definition plain_inet_add :: "u32 \<Rightarrow> u8 \<Rightarrow> u32 \<Rightarrow> u32" where
  "plain_inet_add a len i = a + i"

definition plain_inet_last :: "u32 \<Rightarrow> u8 \<Rightarrow> u32" where
  "plain_inet_last a len = a OR mask (32 - unat len)"

definition ex_mac :: "u8 \<Rightarrow> MacAddr" where
  "ex_mac n = MacAddr 2 0 0 0 0 n"

definition ex_config4 :: "u32 \<Rightarrow> u32 \<Rightarrow> u32 \<Rightarrow> unit DHCPv4ServerConfig" where
  "ex_config4 start stop server =
     \<lparr>ip_range_start = start, ip_range_end = Some stop, server_ip_addr = server,
      network_mask = 24, address_lease_time = Some 3600, custom_options = []\<rparr>"

definition ex_device :: "u8 \<Rightarrow> u32 \<Rightarrow> unit EnrolledDevice" where
  "ex_device n ip =
     \<lparr>ed_id = 7, ed_iface_name = None, ed_hostname = None, ed_mac = ex_mac n, ed_ipv4 = Some ip,
      ed_dhcp_custom_options = [], ed_dhcp_filter_options = []\<rparr>"

definition ex_offer :: "u8 \<Rightarrow> unit status_op" where
  "ex_offer n = OpOffer (\<lambda>_. 0) (ex_mac n) None"

definition ex_run ::
  "unit DHCPv4ServerConfig \<Rightarrow> unit EnrolledDevice list \<Rightarrow> unit status_op list \<Rightarrow> unit DhcpV4AssignStatus outcome" where
  "ex_run c ds ops =
     and_then (from_config_and_devices plain_inet_last c ds) (status_run plain_inet_add 16 ops)"

definition ex_status :: "unit EnrolledDevice list \<Rightarrow> unit status_op list \<Rightarrow> unit DhcpV4AssignStatus" where
  "ex_status ds ops =
     (case ex_run (ex_config4 0xc0a8050a 0xc0a8050c 0xc0a80501) ds ops of
        Returned st \<Rightarrow> st | _ \<Rightarrow> empty_status plain_inet_last (ex_config4 0 0 0))"

theorem validated_pool_in_subnet_witness:
  "is_usable_host 0xffffff00 0xc0a80500 0xc0a805ff 0xc0a8050b"
proof -
  let ?c = "ex_config4 0xc0a8050a 0xc0a8050c 0xc0a80501"
  have v: "config_validate (\<lambda>_. None) ?c = Returned None" by code_simp
  have l: "inet_last_ok plain_inet_last ?c" by code_simp
  have f: "from_config_and_devices plain_inet_last ?c [] = Returned (ex_status [] [])" by code_simp
  have p: "in_pool 0xc0a8050b (ex_status [] [])" by code_simp
  have eqs: "subnet_mask ?c = 0xffffff00" "network_addr ?c = 0xc0a80500" "broadcast_addr ?c = 0xc0a805ff"
    by code_simp+
  show ?thesis using validated_pool_in_subnet [OF v l f, of "0xc0a8050b"] p unfolding eqs by blast
qed


section \<open>Properties of the table\<close>

text \<open>C12: Each operation of the table refines the abstract lease table, in which an address is only
  ever granted while no other client holds it, and keeps the table's invariant; the operation is
  arbitrary, a release alone has to be one of a client without a binding for the address it holds.
\<close>

theorem status_step_simulates_lease_table:
  assumes "status_ok st" and "polite op st" and "status_step inet_add fuel op st = Returned st'"
  shows "status_ok st' \<and> lease_steps (leases st) (leases st')"
  using status_step_refines [OF assms] by (simp add: ok_refines_def)

theorem status_step_simulates_lease_table_witness:
  "status_ok (ex_status [] [ex_offer 1]) \<and>
   lease_steps (leases (ex_status [] [])) (leases (ex_status [] [ex_offer 1]))"
proof -
  have f: "from_config_and_devices plain_inet_last (ex_config4 0xc0a8050a 0xc0a8050c 0xc0a80501) [] = Returned (ex_status [] [])"
    by code_simp
  have s: "status_step plain_inet_add 16 (ex_offer 1) (ex_status [] []) = Returned (ex_status [] [ex_offer 1])"
    by code_simp
  have "polite (ex_offer 1) (ex_status [] [])" by (simp add: ex_offer_def)
  then show ?thesis using status_step_simulates_lease_table [OF from_config_ok(1) [OF f] _ s] by blast
qed

text \<open>C1: Whatever clients and administrators do, from start-up on, no two clients hold one address and
  an address bound to a device is held by nobody else, as long as every release is sent by a client
  without a binding for the address it holds.
\<close>

theorem no_address_held_twice:
  assumes "from_config_and_devices inet_last config devices = Returned st0"
    and "polite_run inet_add fuel ops st0" and "status_run inet_add fuel ops st0 = Returned st"
  shows "exclusive (leases st) \<and>
    (hm_get (st_static_bindings st) m = Some e \<longrightarrow> leases st m' = Some (sb_ipv4 e) \<longrightarrow> m' = m)"
proof -
  have ok: "status_ok st"
    using status_run_refines [OF from_config_ok(1) [OF assms(1)] assms(2,3)] by (simp add: ok_refines_def)
  have L: "leases_ok (hm_get (st_allocated_host st)) (hm_get (st_offered_ip st))"
    and B: "bindings_ok (hm_get (st_static_bindings st)) (hm_get (st_ip_owner st)) (hm_get (st_offered_ip st))"
    using ok by (simp_all add: status_ok_def)
  have "m' = m" if e: "hm_get (st_static_bindings st) m = Some e" and l: "leases st m' = Some (sb_ipv4 e)"
  proof -
    obtain c where "hm_get (st_offered_ip st) m = Some c" "oc_ip c = sb_ipv4 e" using bindings_okD(2) [OF B e] by blast
    then show ?thesis using leases_okD(2) [OF L] l by (auto simp: leases_def)
  qed
  then show ?thesis using status_ok_exclusive [OF ok] by blast
qed

theorem no_address_held_twice_witness:
  "exclusive (leases (ex_status [ex_device 1 0xc0a8050a] [ex_offer 2, OpRelease (ex_mac 2) 0xc0a8050b, ex_offer 3]))"
proof -
  let ?ops = "[ex_offer 2, OpRelease (ex_mac 2) 0xc0a8050b, ex_offer 3]"
  have f: "from_config_and_devices plain_inet_last (ex_config4 0xc0a8050a 0xc0a8050c 0xc0a80501)
      [ex_device 1 0xc0a8050a] = Returned (ex_status [ex_device 1 0xc0a8050a] [])" by code_simp
  have p: "polite_run plain_inet_add 16 ?ops (ex_status [ex_device 1 0xc0a8050a] [])" by code_simp
  have r: "status_run plain_inet_add 16 ?ops (ex_status [ex_device 1 0xc0a8050a] []) =
      Returned (ex_status [ex_device 1 0xc0a8050a] ?ops)" by code_simp
  show ?thesis using no_address_held_twice [OF f p r] by blast
qed



text \<open>C14: Offering always ends when only addresses of the pool are allocated: the search meets every
  address within two rounds over the pool, the wrap-around of the seed included.  It comes to an
  address the client then holds, or to none, and to none only if the client has neither a binding nor
  a lease, every address of the pool is taken and no lease has expired.
\<close>

theorem offer_ip_terminates:
  assumes "status_ok st" and "pool_only st" and "st_range_capacity st \<noteq> 0"
    and "inet_add_exact inet_add st" and "2 * unat (st_range_capacity st) \<le> fuel"
  shows "\<exists>r st'. offer_ip inet_add clk fuel mac hostname st = Returned (r, st') \<and>
    (case r of Some a \<Rightarrow> leases st' mac = Some a
     | None \<Rightarrow> leases st mac = None \<and> hm_get (st_static_bindings st) mac = None \<and>
         pool_exhausted st \<and> fst (clean_expire_ip (clk 0) st) = [])"
proof (cases "hm_get (st_static_bindings st) mac")
  case (Some e)
  then show ?thesis by (auto simp: offer_ip_def Let_def leases_def)
next
  case nb: None
  show ?thesis
  proof (cases "hm_get (st_offered_ip st) mac")
    case (Some c)
    then show ?thesis using nb by (auto simp: offer_ip_def leases_def)
  next
    case None
    then have "offer_ip inet_add clk fuel mac hostname st =
        offer_loop inet_add clk mac hostname fuel 0 (u32_ckecksum mac) st" "leases st mac = None"
      using nb by (simp_all add: offer_ip_def leases_def)
    moreover obtain r st' where "offer_loop inet_add clk mac hostname fuel 0 (u32_ckecksum mac) st = Returned (r, st')"
      "case r of Some a \<Rightarrow> leases st' mac = Some a
       | None \<Rightarrow> pool_exhausted st \<and> fst (clean_expire_ip (clk 0) st) = []"
      using offer_loop_total [OF assms, of clk mac hostname 0 "u32_ckecksum mac"] by blast
    ultimately show ?thesis using nb by (intro exI [of _ r] exI [of _ st']) (simp split: option.splits)
  qed
qed

lemma ex_pool_only: "pool_only (ex_status [] [ex_offer 1])"
proof -
  have "st_allocated_host (ex_status [] [ex_offer 1]) = [(0xc0a8050a, Dynamic)]" by code_simp
  moreover have "in_pool 0xc0a8050a (ex_status [] [ex_offer 1])" by code_simp
  ultimately show ?thesis by (auto simp: pool_only_def hm_contains_def hm_get_def split: if_splits)
qed

theorem offer_ip_terminates_witness:
  "\<exists>r st'. offer_ip plain_inet_add (\<lambda>_. 0) 4 (ex_mac 2) None (ex_status [] [ex_offer 1]) = Returned (r, st') \<and>
     r \<noteq> None"
proof -
  let ?st = "ex_status [] [ex_offer 1]"
  have f: "from_config_and_devices plain_inet_last (ex_config4 0xc0a8050a 0xc0a8050c 0xc0a80501) [] = Returned (ex_status [] [])"
    by code_simp
  have s: "status_step plain_inet_add 16 (ex_offer 1) (ex_status [] []) = Returned ?st" by code_simp
  have "polite (ex_offer 1) (ex_status [] [])" by (simp add: ex_offer_def)
  then have ok: "status_ok ?st"
    using status_step_refines [OF from_config_ok(1) [OF f] _ s] by (simp add: ok_refines_def)
  have cap: "st_range_capacity ?st = 2" by code_simp
  have exact: "inet_add_exact plain_inet_add ?st" by (simp add: inet_add_exact_def plain_inet_add_def)
  have "in_pool 0xc0a8050b ?st" "\<not> hm_contains (st_allocated_host ?st) 0xc0a8050b" by code_simp+
  then have "\<not> pool_exhausted ?st" unfolding pool_exhausted_def by blast
  then show ?thesis
    using offer_ip_terminates [OF ok ex_pool_only _ exact, of 4 "\<lambda>_. 0" "ex_mac 2" None] cap
    by (auto split: option.splits)
qed

text \<open>C20: The search never ends when every address of the pool is taken and the number of allocated
  addresses differs from the capacity, as it does once an address outside the pool is allocated:
  the test for a full table compares the two numbers.  The handler then spins with the lock of the
  table held.
\<close>

theorem offer_ip_diverges:
  assumes "hm_get (st_static_bindings st) mac = None" and "leases st mac = None"
    and "st_range_capacity st \<noteq> 0" and "word_of_nat (length (st_allocated_host st)) \<noteq> st_range_capacity st"
    and "\<And>i. i < st_range_capacity st \<Longrightarrow>
           hm_contains (st_allocated_host st) (inet_add (st_range_start st) (st_range_mask st) i)"
  shows "offer_ip inet_add clk fuel mac hostname st = Unfinished"
proof -
  have "offer_loop inet_add clk mac hostname fuel 0 (u32_ckecksum mac) st = Unfinished"
    using assms(4,3,5) by (rule offer_loop_stuck)
  then show ?thesis using assms(1,2) by (simp add: offer_ip_def leases_def)
qed

theorem offer_ip_diverges_witness:
  "\<forall>fuel. offer_ip plain_inet_add (\<lambda>_. 0) fuel (ex_mac 3) None
     (ex_status [] [ex_offer 1, ex_offer 2, OpDecline 0x0a000001]) = Unfinished"
proof (rule allI, rule offer_ip_diverges)
  let ?st = "ex_status [] [ex_offer 1, ex_offer 2, OpDecline 0x0a000001]"
  show "hm_get (st_static_bindings ?st) (ex_mac 3) = None" "leases ?st (ex_mac 3) = None"
    "st_range_capacity ?st \<noteq> 0" "word_of_nat (length (st_allocated_host ?st)) \<noteq> st_range_capacity ?st"
    by code_simp+
  fix i assume "i < st_range_capacity ?st"
  moreover have cap: "st_range_capacity ?st = 2" by code_simp
  ultimately have "unat i < 2" by (simp add: word_less_nat_alt)
  then consider "unat i = 0" | "unat i = 1" by linarith
  then have "i = 0 \<or> i = 1" by cases (simp_all add: word_unat_eq_iff)
  moreover have "hm_contains (st_allocated_host ?st) (plain_inet_add (st_range_start ?st) (st_range_mask ?st) 0)"
    "hm_contains (st_allocated_host ?st) (plain_inet_add (st_range_start ?st) (st_range_mask ?st) 1)"
    by code_simp+
  ultimately show "hm_contains (st_allocated_host ?st) (plain_inet_add (st_range_start ?st) (st_range_mask ?st) i)"
    by blast
qed

text \<open>C36: Declining an address that a client holds changes nothing: the address stays allocated as it
  was, so a client that found its address in use by another host is offered the same one again.
\<close>

theorem decline_of_a_lease_is_ignored:
  assumes "status_ok st" and "leases st mac = Some ip"
  shows "add_decline_ip ip st = st \<and>
    (\<exists>st'. offer_ip inet_add clk fuel mac hostname (add_decline_ip ip st) = Returned (Some ip, st'))"
proof -
  have L: "leases_ok (hm_get (st_allocated_host st)) (hm_get (st_offered_ip st))"
    and B: "bindings_ok (hm_get (st_static_bindings st)) (hm_get (st_ip_owner st)) (hm_get (st_offered_ip st))"
    using assms by (simp_all add: status_ok_def)
  obtain c where c: "hm_get (st_offered_ip st) mac = Some c" "oc_ip c = ip" using assms(2) by (auto simp: leases_def)
  have same: "add_decline_ip ip st = st"
    using leases_okD(1) [OF L c(1)] c(2) by (simp add: add_decline_ip_def hm_contains_def)
  have "\<exists>st'. offer_ip inet_add clk fuel mac hostname st = Returned (Some ip, st')"
  proof (cases "hm_get (st_static_bindings st) mac")
    case (Some e)
    then show ?thesis using bindings_okD(2) [OF B Some] c by (simp add: offer_ip_def Let_def)
  qed (use c in \<open>simp add: offer_ip_def\<close>)
  then show ?thesis using same by simp
qed

theorem decline_of_a_lease_is_ignored_witness:
  "add_decline_ip 0xc0a8050a (ex_status [ex_device 1 0xc0a8050a] []) = ex_status [ex_device 1 0xc0a8050a] []"
proof -
  have f: "from_config_and_devices plain_inet_last (ex_config4 0xc0a8050a 0xc0a8050c 0xc0a80501)
      [ex_device 1 0xc0a8050a] = Returned (ex_status [ex_device 1 0xc0a8050a] [])" by code_simp
  have "leases (ex_status [ex_device 1 0xc0a8050a] []) (ex_mac 1) = Some 0xc0a8050a" by code_simp
  then show ?thesis using decline_of_a_lease_is_ignored [OF from_config_ok(1) [OF f]] by blast
qed

lemma ack_request_cases:
  assumes "status_ok st"
  shows "case ack_request now mac ip hostname lease st of
      (ok, st') \<Rightarrow>
        (ok \<longleftrightarrow> leases st mac = Some ip \<or>
          leases st mac = None \<and> \<not> hm_contains (st_allocated_host st) ip \<and> is_ip_in_range ip st \<and>
          hm_get (st_ip_owner st) ip = None) \<and>
        leases st' = (if ok then (leases st)(mac \<mapsto> ip) else leases st) \<and> (ok \<or> st' = st)"
proof -
  have L: "leases_ok (hm_get (st_allocated_host st)) (hm_get (st_offered_ip st))"
    and B: "bindings_ok (hm_get (st_static_bindings st)) (hm_get (st_ip_owner st)) (hm_get (st_offered_ip st))"
    using assms by (simp_all add: status_ok_def)
  have bound: "\<exists>c. hm_get (st_offered_ip st) m = Some c \<and> oc_ip c = ip"
    if "hm_get (st_ip_owner st) ip = Some m" for m
  proof -
    from that obtain e where e: "hm_get (st_static_bindings st) m = Some e" "sb_ipv4 e = ip"
      using bindings_okD(1) [OF B] by blast
    show ?thesis using bindings_okD(2) [OF B e(1)] e(2) by blast
  qed
  show ?thesis
  proof (cases "hm_get (st_offered_ip st) mac")
    case None
    have nb: "hm_get (st_static_bindings st) mac = None"
      using bindings_okD(2) [OF B, of mac] None by (cases "hm_get (st_static_bindings st) mac") simp_all
    have "hm_get (st_ip_owner st) ip \<noteq> Some mac" using bound [of mac] None by auto
    then have "conflicts_with_static_binding mac ip st \<longleftrightarrow> hm_get (st_ip_owner st) ip \<noteq> None"
      using nb by (cases "hm_get (st_ip_owner st) ip") (simp_all add: conflicts_with_static_binding_def)
    moreover have "leases st mac = None" using None by (simp add: leases_def)
    moreover have "leases (st\<lparr>st_offered_ip := hm_insert mac c (st_offered_ip st), st_allocated_host := A\<rparr>) =
        (leases st)(mac \<mapsto> oc_ip c)" for c A by (simp add: leases_def fun_eq_iff)
    ultimately show ?thesis using None by (simp add: ack_request_def)
  next
    case (Some c)
    have "\<not> conflicts_with_static_binding mac ip st" if "oc_ip c = ip"
    proof -
      have "sb_ipv4 e = ip" if "hm_get (st_static_bindings st) mac = Some e" for e
        using bindings_okD(2) [OF B that] Some \<open>oc_ip c = ip\<close> by auto
      moreover have "m = mac" if "hm_get (st_ip_owner st) ip = Some m" for m
        using bound [OF that] leases_okD(2) [OF L Some] \<open>oc_ip c = ip\<close> by auto
      ultimately show ?thesis
        by (auto simp: conflicts_with_static_binding_def split: option.split)
    qed
    moreover have "leases st mac = Some (oc_ip c)" using Some by (simp add: leases_def)
    moreover have "leases (st\<lparr>st_offered_ip := hm_insert mac c' (st_offered_ip st)\<rparr>) =
        (leases st)(mac \<mapsto> oc_ip c')" for c' by (simp add: leases_def fun_eq_iff)
    ultimately show ?thesis using Some by (simp add: ack_request_def)
  qed
qed

text \<open>C32: A request is acknowledged exactly when the client already holds the address, or holds none
  and the address is in the range, allocated to nobody and bound to nobody; the client then holds it,
  no other lease changes, and a refused request changes nothing.
\<close>

theorem ack_request_exact:
  assumes "status_ok st"
  shows "case ack_request now mac ip hostname lease st of
      (ok, st') \<Rightarrow>
        (ok \<longleftrightarrow> leases st mac = Some ip \<or>
          leases st mac = None \<and> \<not> hm_contains (st_allocated_host st) ip \<and> is_ip_in_range ip st \<and>
          hm_get (st_ip_owner st) ip = None) \<and>
        leases st' = (if ok then (leases st)(mac \<mapsto> ip) else leases st) \<and> (ok \<or> st' = st)"
  using assms by (rule ack_request_cases)

theorem ack_request_exact_witness:
  "fst (ack_request 5 (ex_mac 2) 0xc0a8050b None 3600 (ex_status [ex_device 1 0xc0a8050a] []))"
proof -
  let ?st = "ex_status [ex_device 1 0xc0a8050a] []"
  have f: "from_config_and_devices plain_inet_last (ex_config4 0xc0a8050a 0xc0a8050c 0xc0a80501)
      [ex_device 1 0xc0a8050a] = Returned ?st" by code_simp
  have "leases ?st (ex_mac 2) = None" "\<not> hm_contains (st_allocated_host ?st) 0xc0a8050b"
    "is_ip_in_range 0xc0a8050b ?st" "hm_get (st_ip_owner ?st) 0xc0a8050b = None" by code_simp+
  then show ?thesis
    using ack_request_exact [OF from_config_ok(1) [OF f], of "ex_mac 2" "0xc0a8050b" 5 None 3600]
    by (auto simp: split_beta)
qed

end
