(* ===== verification/Dhcp4_Server.thy ===== *)
theory Dhcp4_Server
  imports Dhcp4_Status Service
begin

text \<open>
  The DHCPv4 server (\<open>landscape/src/lan_service/lan_dhcp4_server/server.rs\<close>): building replies,
  handling one message, and the loop of \<open>dhcp_v4_server\<close> over messages, the expiry timer and the stop
  signal.

  \<^item> The functions of the crates \<open>cidr\<close>, \<open>dhcproto\<close> and \<open>hickory_proto\<close> are the fields of one
    argument, \<open>crates\<close>.
  \<^item> \<open>Arc<Mutex<DhcpV4AssignStatus>>\<close> is the field \<open>sv_status\<close>; every method locks it for its whole
    body, so calls on it do not interleave.  The hot-reloaded cells (\<open>ArcSwap\<close>) hold one value during
    a call.
  \<^item> What leaves the server is its output: datagrams, lease events and entries learned by the
    dataplane.
\<close>

section \<open>State\<close>

record 'x crates =
  cr_inet_add :: "u32 \<Rightarrow> u8 \<Rightarrow> u32 \<Rightarrow> u32"
  cr_inet_mask :: "u8 \<Rightarrow> u32"
  cr_opt_encode :: "'x DhcpV4Option \<Rightarrow> bytes option"
  cr_msg_decode :: "bytes \<Rightarrow> 'x DhcpV4Message option"
  cr_msg_encode :: "'x DhcpV4Message \<Rightarrow> bytes option"
  cr_default_msg :: "'x DhcpV4Message"
  cr_name_from_utf8 :: "bytes \<Rightarrow> 'x option"
  cr_debug_assertions :: bool

record DhcpV4DnrRuntimeContext =
  local_domains :: "bytes list"
  doh_port :: u16
  doh_path :: bytes

record LanHostnameConfig =
  lh_enable :: bool
  lh_lan_suffix :: bytes

record 'x DHCPv4Server =
  sv_server_ip :: u32
  sv_options_map :: "(u8, 'x DhcpV4Option) hmap"
  sv_global_custom_options :: "(u8 \<times> bytes) list"
  sv_global_dynamic_options :: "'x CustomDhcpOption list"
  sv_dnr_context :: "DhcpV4DnrRuntimeContext option"
  sv_lan_domain_state :: "LanHostnameConfig option"
  sv_address_lease_time :: u32
  sv_iface_name :: bytes
  sv_status :: "'x DhcpV4AssignStatus"

definition IP_EXPIRE_INTERVAL :: nat where "IP_EXPIRE_INTERVAL = 60 * 10"
definition DHCP_MAGIC_COOKIE :: u32 where "DHCP_MAGIC_COOKIE = 0x63825363"
definition DHCPV4_DOMAIN_NAME_OPTION_CODE :: u8 where "DHCPV4_DOMAIN_NAME_OPTION_CODE = 15"
definition DHCPV4_DOMAIN_SEARCH_OPTION_CODE :: u8 where "DHCPV4_DOMAIN_SEARCH_OPTION_CODE = 119"

section \<open>Messages\<close>

definition encode_dhcpv4 :: "'x crates \<Rightarrow> 'x DhcpV4Message \<Rightarrow> bytes outcome" where
  "encode_dhcpv4 cr msg = (case cr_msg_encode cr msg of None \<Rightarrow> Panicked | Some buf \<Rightarrow> Returned buf)"

definition client_chaddr :: "'x DhcpV4Message \<Rightarrow> MacAddr option" where
  "client_chaddr msg =
     (let hlen = dm_hlen msg
      in if \<not> (6 \<le> hlen \<and> hlen \<le> 16) then None
         else MacAddr_from_arry (take 6 (take (unat hlen) (dm_chaddr msg))))"

section \<open>Custom options\<close>

definition dnr_parameters ::
  "DhcpV4DnrOptionConfig \<Rightarrow> u32 \<Rightarrow> DhcpV4DnrRuntimeContext \<Rightarrow> bytes list \<times> u32 list \<times> u16 \<times> bytes" where
  "dnr_parameters config server_ip context =
     (case config of
        Local \<Rightarrow> (local_domains context, [server_ip], doh_port context, doh_path context)
      | Custom domains ips port path \<Rightarrow>
          (if domains = [] then local_domains context else domains,
           if ips = [] then [server_ip] else ips,
           case port of None \<Rightarrow> doh_port context | Some p \<Rightarrow> p,
           case path of None \<Rightarrow> doh_path context | Some p \<Rightarrow> p))"

definition encode_custom_option_with_defaults ::
  "'x crates \<Rightarrow> 'x CustomDhcpOption \<Rightarrow> u32 \<Rightarrow> DhcpV4DnrRuntimeContext option \<Rightarrow>
     (option_error + (u8 \<times> bytes) option) outcome" where
  "encode_custom_option_with_defaults cr opt server_ip dnr_context =
     (case opt of
        Dnr config \<Rightarrow>
          Returned (Inr
            (case dnr_context of
               None \<Rightarrow> None
             | Some context \<Rightarrow>
                 (let (domains, ips, port, path) = dnr_parameters config server_ip context;
                      domains = normalize_advertise_domains domains;
                      ips = filter is_valid_dnr_ipv4_addr ips
                  in if domains = [] then None
                     else if ips = [] then None
                     else let payload = encode_dhcpv4_dnr_payload_truncated domains ips port path 255
                          in if payload = [] then None else Some (DHCPV4_DNR_OPTION_CODE, payload))))
      | _ \<Rightarrow>
          and_then (to_raw (cr_opt_encode cr) opt) (\<lambda>r.
            case r of Inl e \<Rightarrow> Returned (Inl e) | Inr raw \<Rightarrow> Returned (Inr (Some raw))))"

definition encode_custom_option ::
  "'x crates \<Rightarrow> 'x CustomDhcpOption \<Rightarrow> 'x DHCPv4ServerConfig \<Rightarrow> DhcpV4DnrRuntimeContext option \<Rightarrow>
     (option_error + (u8 \<times> bytes) option) outcome" where
  "encode_custom_option cr opt config dnr_context =
     encode_custom_option_with_defaults cr opt (server_ip_addr config) dnr_context"

text \<open>The \<open>filter_map\<close> over the configured options: those encoded now, and those left for later.\<close>

fun split_options ::
  "'x crates \<Rightarrow> 'x DHCPv4ServerConfig \<Rightarrow> DhcpV4DnrRuntimeContext option \<Rightarrow> 'x CustomDhcpOption list \<Rightarrow>
     ((u8 \<times> bytes) list \<times> 'x CustomDhcpOption list) outcome" where
  "split_options cr config ctx [] = Returned ([], [])"
| "split_options cr config ctx (opt # opts) =
     (if is_dnr opt
      then and_then (split_options cr config ctx opts) (\<lambda>(raws, dyns). Returned (raws, opt # dyns))
      else and_then (encode_custom_option cr opt config ctx) (\<lambda>r.
           and_then (split_options cr config ctx opts) (\<lambda>(raws, dyns).
             Returned (case r of Inr (Some raw) \<Rightarrow> (raw # raws, dyns) | _ \<Rightarrow> (raws, dyns)))))"

definition DHCPv4Server_new ::
  "'x crates \<Rightarrow> 'x DHCPv4ServerConfig \<Rightarrow> DhcpV4DnrRuntimeContext option \<Rightarrow> LanHostnameConfig option \<Rightarrow>
     'x DhcpV4AssignStatus \<Rightarrow> bytes \<Rightarrow> 'x DHCPv4Server outcome" where
  "DHCPv4Server_new cr config dnr_context lan_domain_state status iface_name =
     (if network_mask config > 32 then Panicked
      else
        let mask = cr_inet_mask cr (network_mask config);
            broadcast_u32 = server_ip_addr config OR NOT mask;
            options = [SubnetMask mask, Router [server_ip_addr config],
                       ServerIdentifier (server_ip_addr config),
                       DomainNameServer [server_ip_addr config], BroadcastAddr broadcast_u32];
            options_map = fold (\<lambda>each m. hm_insert (option_code each) each m) options []
        in and_then (split_options cr config dnr_context (custom_options config)) (\<lambda>(raws, dyns).
             Returned \<lparr>sv_server_ip = server_ip_addr config, sv_options_map = options_map,
               sv_global_custom_options = raws, sv_global_dynamic_options = dyns,
               sv_dnr_context = dnr_context, sv_lan_domain_state = lan_domain_state,
               sv_address_lease_time =
                 (case address_lease_time config of
                    Some t \<Rightarrow> t | None \<Rightarrow> LANDSCAPE_DHCP_DEFAULT_ADDRESS_LEASE_TIME),
               sv_iface_name = iface_name, sv_status = status\<rparr>))"

definition lan_domain_option :: "'x crates \<Rightarrow> u8 \<Rightarrow> 'x DHCPv4Server \<Rightarrow> 'x DhcpV4Option option" where
  "lan_domain_option cr code sv =
     (case sv_lan_domain_state sv of
        None \<Rightarrow> None
      | Some config \<Rightarrow>
          (if \<not> lh_enable config \<or> lh_lan_suffix config = [] then None
           else if code = DHCPV4_DOMAIN_NAME_OPTION_CODE then Some (DomainName (lh_lan_suffix config))
           else if code = DHCPV4_DOMAIN_SEARCH_OPTION_CODE
           then map_option (\<lambda>name. DomainSearch [name]) (cr_name_from_utf8 cr (lh_lan_suffix config @ [0x2e]))
           else None))"

definition dynamic_requested_option :: "'x crates \<Rightarrow> u8 \<Rightarrow> 'x DHCPv4Server \<Rightarrow> 'x DhcpV4Option option" where
  "dynamic_requested_option cr code sv =
     (if code = DHCPV4_DOMAIN_NAME_OPTION_CODE \<or> code = DHCPV4_DOMAIN_SEARCH_OPTION_CODE
      then lan_domain_option cr code sv else None)"

fun merge_custom_options ::
  "'x crates \<Rightarrow> 'x CustomDhcpOption list \<Rightarrow> u32 \<Rightarrow> DhcpV4DnrRuntimeContext option \<Rightarrow>
     (u8, bytes) hmap \<Rightarrow> (u8, bytes) hmap outcome" where
  "merge_custom_options cr [] server_ip ctx merged = Returned merged"
| "merge_custom_options cr (opt # opts) server_ip ctx merged =
     and_then (encode_custom_option_with_defaults cr opt server_ip ctx) (\<lambda>r.
       merge_custom_options cr opts server_ip ctx
         (case r of Inr (Some (code, data)) \<Rightarrow> hm_insert code data merged | _ \<Rightarrow> merged))"

definition resolve_options_for_mac ::
  "'x crates \<Rightarrow> MacAddr \<Rightarrow> 'x DHCPv4Server \<Rightarrow> ((u8 \<times> bytes) list \<times> u8 list) outcome" where
  "resolve_options_for_mac cr mac sv =
     (let per_mac = hm_get (st_per_mac_options (sv_status sv)) mac;
          merged = fold (\<lambda>(code, data) m. hm_insert code data m) (sv_global_custom_options sv) []
      in and_then (merge_custom_options cr (sv_global_dynamic_options sv) (sv_server_ip sv) (sv_dnr_context sv) merged)
           (\<lambda>merged. case per_mac of
              None \<Rightarrow> Returned (merged, [])
            | Some pm \<Rightarrow>
                and_then (merge_custom_options cr (pm_custom_options pm) (sv_server_ip sv) (sv_dnr_context sv) merged)
                  (\<lambda>merged. Returned (merged, pm_filter_options pm))))"

section \<open>Replies\<close>

definition reply_header :: "'x crates \<Rightarrow> 'x DHCPv4Server \<Rightarrow> 'x DhcpV4Message \<Rightarrow> MacAddr \<Rightarrow> 'x DhcpV4Message" where
  "reply_header cr sv frame chaddr =
     (set_chaddr (octets chaddr)
       ((cr_default_msg cr)\<lparr>dm_opcode := BootReply, dm_xid := dm_xid frame, dm_secs := dm_secs frame,
                            dm_flags := dm_flags frame\<rparr>))\<lparr>dm_siaddr := sv_server_ip sv\<rparr>"

fun add_requested ::
  "'x crates \<Rightarrow> 'x DHCPv4Server \<Rightarrow> u8 list \<Rightarrow> u8 list \<Rightarrow> 'x DhcpV4Options \<Rightarrow> 'x DhcpV4Options" where
  "add_requested cr sv filter_set [] opts = opts"
| "add_requested cr sv filter_set (code # codes) opts =
     add_requested cr sv filter_set codes
       (if code \<in> set filter_set then opts
        else case hm_get (sv_options_map sv) code of
          Some opt \<Rightarrow> opts_insert opt opts
        | None \<Rightarrow> (case dynamic_requested_option cr code sv of
                      Some opt \<Rightarrow> opts_insert opt opts | None \<Rightarrow> opts))"

definition request_params :: "'x DhcpV4Message \<Rightarrow> 'x DhcpV4Option" where
  "request_params frame = (case has_option frame 55 of Some p \<Rightarrow> p | None \<Rightarrow> get_default_request_list)"

definition requested_options ::
  "'x crates \<Rightarrow> 'x DHCPv4Server \<Rightarrow> 'x DhcpV4Message \<Rightarrow> u8 list \<Rightarrow> 'x DhcpV4Options \<Rightarrow> 'x DhcpV4Options" where
  "requested_options cr sv frame filter_set opts =
     (case request_params frame of
        ParameterRequestList info_list \<Rightarrow> add_requested cr sv filter_set info_list opts
      | _ \<Rightarrow> opts)"

definition gen_offer ::
  "'x crates \<Rightarrow> (nat \<Rightarrow> u64) \<Rightarrow> nat \<Rightarrow> 'x DHCPv4Server \<Rightarrow> 'x DhcpV4Message \<Rightarrow>
     ('x DhcpV4Message option \<times> 'x DHCPv4Server) outcome" where
  "gen_offer cr clk fuel sv frame =
     (case client_chaddr frame of
        None \<Rightarrow> Returned (None, sv)
      | Some chaddr \<Rightarrow>
          and_then (resolve_options_for_mac cr chaddr sv) (\<lambda>(custom_opts, filter_set).
            let reply = reply_header cr sv frame chaddr;
                opts = requested_options cr sv frame filter_set (dm_opts reply);
                opts = opts_insert (ServerIdentifier (sv_server_ip sv))
                         (opts_insert (AddressLeaseTime (sv_address_lease_time sv))
                           (opts_insert (MessageType Offer) opts));
                reply = apply_custom_and_filter (reply\<lparr>dm_opts := opts\<rparr>) custom_opts filter_set
            in and_then (offer_ip (cr_inet_add cr) clk fuel chaddr (get_hostname frame) (sv_status sv))
                 (\<lambda>(client_addr, st). Returned
                    (map_option (\<lambda>a. reply\<lparr>dm_yiaddr := a\<rparr>) client_addr, sv\<lparr>sv_status := st\<rparr>))))"

definition requested_ip :: "'x DhcpV4Message \<Rightarrow> u32 option" where
  "requested_ip frame =
     (case has_option frame 50 of
        Some (RequestedIpAddress ip) \<Rightarrow> Some ip
      | _ \<Rightarrow> (if dm_ciaddr frame \<noteq> 0 then Some (dm_ciaddr frame) else None))"

text \<open>One entry of the dataplane: interface index, address, client and interface MAC.\<close>

type_synonym learned = "u32 \<times> u32 \<times> MacAddr \<times> MacAddr"

definition gen_ack_v4 ::
  "'x crates \<Rightarrow> u64 \<Rightarrow> u32 \<Rightarrow> MacAddr option \<Rightarrow> 'x DHCPv4Server \<Rightarrow> 'x DhcpV4Message \<Rightarrow>
     ('x DhcpV4Message option \<times> learned option \<times> 'x DHCPv4Server) outcome" where
  "gen_ack_v4 cr now ifindex iface_mac sv frame =
     (case client_chaddr frame of
        None \<Rightarrow> Returned (None, None, sv)
      | Some chaddr \<Rightarrow>
          and_then (resolve_options_for_mac cr chaddr sv) (\<lambda>(custom_opts, filter_set).
            let reply = reply_header cr sv frame chaddr;
                opts = requested_options cr sv frame filter_set (dm_opts reply)
            in case requested_ip frame of
                 None \<Rightarrow> Returned (None, None, sv)
               | Some client_ip \<Rightarrow>
                   (let (ack_result, st) = ack_request now chaddr client_ip (get_hostname frame)
                                             (sv_address_lease_time sv) (sv_status sv);
                        sv' = sv\<lparr>sv_status := st\<rparr>
                    in if ack_result
                       then let opts = opts_insert (ServerIdentifier (sv_server_ip sv))
                                         (opts_insert (AddressLeaseTime (sv_address_lease_time sv))
                                           (opts_insert (MessageType Ack) opts));
                                reply = apply_custom_and_filter
                                          (reply\<lparr>dm_ciaddr := dm_ciaddr frame, dm_yiaddr := client_ip, dm_opts := opts\<rparr>)
                                          custom_opts filter_set
                            in Returned (Some reply, map_option (\<lambda>dev_mac. (ifindex, client_ip, chaddr, dev_mac)) iface_mac, sv')
                       else let opts = opts_insert (ServerIdentifier (sv_server_ip sv)) (opts_insert (MessageType Nak) [])
                            in Returned (Some (reply\<lparr>dm_ciaddr := 0, dm_yiaddr := 0, dm_opts := opts\<rparr>), None, sv'))))"

section \<open>One message\<close>

record IPv4AssignInfo =
  ai_iface_name :: bytes
  ai_mac :: MacAddr
  ai_ip :: u32
  ai_hostname :: "bytes option"
  ai_device_id :: "u128 option"
  ai_lease_time_secs :: "u32 option"

datatype IPv4AssignEvent = Allocated IPv4AssignInfo | Expired IPv4AssignInfo

datatype server_output =
    Datagram u32 u16 bytes
  | Event IPv4AssignEvent
  | Learned learned

definition device_id_of :: "MacAddr \<Rightarrow> 'x DHCPv4Server \<Rightarrow> u128 option" where
  "device_id_of mac sv = Option.bind (hm_get (st_static_bindings (sv_status sv)) mac) sb_device_id"

definition expired_event :: "bytes \<Rightarrow> MacAddr \<Rightarrow> u32 \<Rightarrow> bytes option \<Rightarrow> u128 option \<Rightarrow> server_output" where
  "expired_event iface mac ip hostname device_id =
     Event (Expired \<lparr>ai_iface_name = iface, ai_mac = mac, ai_ip = ip, ai_hostname = hostname,
       ai_device_id = device_id, ai_lease_time_secs = None\<rparr>)"

definition lease_hostname :: "MacAddr \<Rightarrow> 'x DHCPv4Server \<Rightarrow> bytes option" where
  "lease_hostname mac sv = Option.bind (hm_get (st_offered_ip (sv_status sv)) mac) oc_hostname"

definition on_discover ::
  "'x crates \<Rightarrow> (nat \<Rightarrow> u64) \<Rightarrow> nat \<Rightarrow> 'x DhcpV4Message \<Rightarrow> 'x DHCPv4Server \<Rightarrow>
     (bool \<times> server_output list \<times> 'x DHCPv4Server) outcome" where
  "on_discover cr clk fuel dhcp sv =
     and_then (gen_offer cr clk fuel sv dhcp) (\<lambda>(payload, sv').
       case payload of
         None \<Rightarrow> Returned (False, [], sv')
       | Some payload \<Rightarrow>
           and_then (encode_dhcpv4 cr payload) (\<lambda>buf. Returned (True, [Datagram 0xffffffff 68 buf], sv')))"

definition on_request ::
  "'x crates \<Rightarrow> (nat \<Rightarrow> u64) \<Rightarrow> u32 \<Rightarrow> MacAddr option \<Rightarrow> bytes \<Rightarrow> u16 \<Rightarrow> MacAddr \<Rightarrow> 'x DhcpV4Message \<Rightarrow>
     'x DHCPv4Server \<Rightarrow> (bool \<times> server_output list \<times> 'x DHCPv4Server) outcome" where
  "on_request cr clk ifindex iface_mac iface_name port mac dhcp sv =
     and_then (gen_ack_v4 cr (clk 0) ifindex iface_mac sv dhcp) (\<lambda>(payload, learn, sv').
       case payload of
         None \<Rightarrow> Returned (False, [], sv')
       | Some payload \<Rightarrow>
           (let learned = (case learn of None \<Rightarrow> [] | Some l \<Rightarrow> [Learned l]);
                events = (if opts_msg_type (dm_opts payload) = Some Ack
                          then [Event (Allocated \<lparr>ai_iface_name = iface_name, ai_mac = mac,
                                  ai_ip = dm_yiaddr payload, ai_hostname = get_hostname dhcp,
                                  ai_device_id = device_id_of mac sv',
                                  ai_lease_time_secs = Some (sv_address_lease_time sv')\<rparr>)]
                          else []);
                (addr, dport) = (if flags_broadcast (dm_flags payload) then (0xffffffff, 68)
                                 else (if dm_ciaddr payload = 0 then 0xffffffff else dm_ciaddr payload, port))
            in and_then (encode_dhcpv4 cr payload) (\<lambda>buf.
                 Returned (True, learned @ events @ [Datagram addr dport buf], sv'))))"

definition on_decline ::
  "bytes \<Rightarrow> MacAddr \<Rightarrow> 'x DhcpV4Message \<Rightarrow> 'x DHCPv4Server \<Rightarrow> (bool \<times> server_output list \<times> 'x DHCPv4Server) outcome" where
  "on_decline iface_name mac dhcp sv =
     (case has_option dhcp 50 of
        Some (RequestedIpAddress ip) \<Rightarrow>
          Returned (False, [expired_event iface_name mac ip (lease_hostname mac sv) (device_id_of mac sv)],
                    sv\<lparr>sv_status := add_decline_ip ip (sv_status sv)\<rparr>)
      | _ \<Rightarrow> Returned (False, [], sv))"

definition on_release ::
  "bytes \<Rightarrow> MacAddr \<Rightarrow> 'x DhcpV4Message \<Rightarrow> 'x DHCPv4Server \<Rightarrow> (bool \<times> server_output list \<times> 'x DHCPv4Server) outcome" where
  "on_release iface_name mac dhcp sv =
     (let ip = dm_ciaddr dhcp;
          (released, st) = release_ip mac ip (sv_status sv)
      in Returned (False,
           if released then [expired_event iface_name mac ip (lease_hostname mac sv) (device_id_of mac sv)] else [],
           sv\<lparr>sv_status := st\<rparr>))"

definition handle_dhcp_message ::
  "'x crates \<Rightarrow> (nat \<Rightarrow> u64) \<Rightarrow> nat \<Rightarrow> u32 \<Rightarrow> MacAddr option \<Rightarrow> bytes \<Rightarrow> bytes \<times> u16 \<Rightarrow> 'x DHCPv4Server \<Rightarrow>
     (bool \<times> server_output list \<times> 'x DHCPv4Server) outcome" where
  "handle_dhcp_message cr clk fuel ifindex iface_mac iface_name = (\<lambda>(message, port) sv.
     if length message < 240 \<or>
        u32_from_be_bytes (message ! 236) (message ! 237) (message ! 238) (message ! 239) \<noteq> DHCP_MAGIC_COOKIE
     then Returned (False, [], sv)
     else case try_decode_dhcpv4 (cr_msg_decode cr) (cr_debug_assertions cr) message of
       None \<Rightarrow> Returned (False, [], sv)
     | Some dhcp \<Rightarrow>
         (case client_chaddr dhcp of
            None \<Rightarrow> Returned (False, [], sv)
          | Some chaddr \<Rightarrow>
              if dm_opcode dhcp = BootRequest
              then (case opts_msg_type (dm_opts dhcp) of
                      Some Discover \<Rightarrow> on_discover cr clk fuel dhcp sv
                    | Some Request \<Rightarrow> on_request cr clk ifindex iface_mac iface_name port chaddr dhcp sv
                    | Some Decline \<Rightarrow> on_decline iface_name chaddr dhcp sv
                    | Some Release \<Rightarrow> on_release iface_name chaddr dhcp sv
                    | _ \<Rightarrow> Returned (False, [], sv))
              else Returned (False, [], sv)))"

section \<open>The server loop\<close>

text \<open>
  The branches of the \<open>select!\<close> and the readings of the clock during them: a message from the
  receiving task, the end of its channel, the expiry timer, and the stop signal.
\<close>

datatype server_event =
    GotMessage "nat \<Rightarrow> u64" bytes u16
  | ChannelClosed
  | ExpiryTimer u64
  | StopSignal

definition on_expiry :: "u64 \<Rightarrow> bytes \<Rightarrow> 'x DHCPv4Server \<Rightarrow> server_output list \<times> 'x DHCPv4Server" where
  "on_expiry now iface_name sv =
     (let (expired, st) = clean_expire_ip now (sv_status sv);
          sv' = sv\<lparr>sv_status := st\<rparr>
      in (map (\<lambda>(mac, ip, hostname). expired_event iface_name mac ip hostname (device_id_of mac sv')) expired, sv'))"

fun server_loop ::
  "'x crates \<Rightarrow> nat \<Rightarrow> u32 \<Rightarrow> MacAddr option \<Rightarrow> bytes \<Rightarrow> server_event list \<Rightarrow> 'x DHCPv4Server \<Rightarrow>
     (server_output list \<times> 'x DHCPv4Server) outcome" where
  "server_loop cr fuel ifindex iface_mac iface_name [] sv = Returned ([], sv)"
| "server_loop cr fuel ifindex iface_mac iface_name (ev # evs) sv =
     (case ev of
        GotMessage clk message port \<Rightarrow>
          and_then (handle_dhcp_message cr clk fuel ifindex iface_mac iface_name (message, port) sv) (\<lambda>(_, out, sv').
          and_then (server_loop cr fuel ifindex iface_mac iface_name evs sv') (\<lambda>(outs, sv'').
            Returned (out @ outs, sv'')))
      | ExpiryTimer now \<Rightarrow>
          (let (out, sv') = on_expiry now iface_name sv
           in and_then (server_loop cr fuel ifindex iface_mac iface_name evs sv') (\<lambda>(outs, sv'').
                Returned (out @ outs, sv'')))
      | ChannelClosed \<Rightarrow> Returned ([], sv)
      | StopSignal \<Rightarrow> Returned ([], sv))"

text \<open>The status the service reports after the loop.\<close>

definition report_exit :: "ServiceStatusCell \<Rightarrow> ServiceStatusCell" where
  "report_exit c =
     (if \<not> is_stop c then just_change_status (if is_exit c then Stop else Failed) c else c)"

section \<open>The server and its table\<close>

text \<open>A call on the table that the server makes for a message, if it makes one.\<close>

definition table_call ::
  "'x crates \<Rightarrow> nat \<Rightarrow> 'x status_op list \<Rightarrow> 'x DHCPv4Server \<Rightarrow> 'x DHCPv4Server \<Rightarrow> bool" where
  "table_call cr fuel ops sv sv' \<longleftrightarrow>
     (\<exists>st'. status_run (cr_inet_add cr) fuel ops (sv_status sv) = Returned st' \<and> sv' = sv\<lparr>sv_status := st'\<rparr>)"

lemma table_call_none: "table_call cr fuel [] sv sv"
  by (simp add: table_call_def)

lemma table_call_append:
  "table_call cr fuel ops sv sv1 \<Longrightarrow> table_call cr fuel ops' sv1 sv2 \<Longrightarrow> table_call cr fuel (ops @ ops') sv sv2"
  by (auto simp: table_call_def dhcp_table.run_append)

definition release_op :: "'x status_op \<Rightarrow> bool" where
  "release_op op \<longleftrightarrow> (case op of OpRelease _ _ \<Rightarrow> True | _ \<Rightarrow> False)"

lemma gen_offer_call:
  "gen_offer cr clk fuel sv frame = Returned (r, sv') \<Longrightarrow>
     \<exists>ops. list_all (\<lambda>op. \<not> release_op op) ops \<and> table_call cr fuel ops sv sv'"
proof (cases "client_chaddr frame")
  case None
  assume "gen_offer cr clk fuel sv frame = Returned (r, sv')"
  with None show ?thesis by (intro exI [of _ "[]"]) (simp add: gen_offer_def table_call_none)
next
  case (Some chaddr)
  assume "gen_offer cr clk fuel sv frame = Returned (r, sv')"
  with Some obtain a st where off: "offer_ip (cr_inet_add cr) clk fuel chaddr (get_hostname frame) (sv_status sv) = Returned (a, st)"
    and sv': "sv' = sv\<lparr>sv_status := st\<rparr>"
    by (auto simp: gen_offer_def and_then_Returned Let_def split_beta)
  then show ?thesis
    by (intro exI [of _ "[OpOffer clk chaddr (get_hostname frame)]"]) (simp add: table_call_def release_op_def)
qed

lemma gen_ack_call:
  "gen_ack_v4 cr now ifindex iface_mac sv frame = Returned (r, l, sv') \<Longrightarrow>
     \<exists>ops. list_all (\<lambda>op. \<not> release_op op) ops \<and> table_call cr fuel ops sv sv'"
proof -
  assume g: "gen_ack_v4 cr now ifindex iface_mac sv frame = Returned (r, l, sv')"
  show ?thesis
  proof (cases "sv' = sv")
    case True
    then show ?thesis by (intro exI [of _ "[]"]) (simp add: table_call_none)
  next
    case False
    then obtain mac ip where "sv' = sv\<lparr>sv_status := snd (ack_request now mac ip (get_hostname frame)
        (sv_address_lease_time sv) (sv_status sv))\<rparr>"
      using g by (auto simp: gen_ack_v4_def and_then_Returned Let_def split_beta split: option.splits if_splits)
    then show ?thesis
      by (intro exI [of _ "[OpAck now mac ip (get_hostname frame) (sv_address_lease_time sv)]"])
        (simp add: table_call_def release_op_def)
  qed
qed

definition message_of :: "'x crates \<Rightarrow> bytes \<Rightarrow> 'x DhcpV4Message option" where
  "message_of cr message =
     (if length message < 240 \<or>
         u32_from_be_bytes (message ! 236) (message ! 237) (message ! 238) (message ! 239) \<noteq> DHCP_MAGIC_COOKIE
      then None
      else case try_decode_dhcpv4 (cr_msg_decode cr) (cr_debug_assertions cr) message of
        None \<Rightarrow> None
      | Some dhcp \<Rightarrow>
          (if client_chaddr dhcp \<noteq> None \<and> dm_opcode dhcp = BootRequest then Some dhcp else None))"

lemma handle_message_cases:
  "handle_dhcp_message cr clk fuel ifindex iface_mac iface_name (message, port) sv =
     (case message_of cr message of
        None \<Rightarrow> Returned (False, [], sv)
      | Some dhcp \<Rightarrow>
          (case opts_msg_type (dm_opts dhcp) of
             Some Discover \<Rightarrow> on_discover cr clk fuel dhcp sv
           | Some Request \<Rightarrow>
               on_request cr clk ifindex iface_mac iface_name port (the (client_chaddr dhcp)) dhcp sv
           | Some Decline \<Rightarrow> on_decline iface_name (the (client_chaddr dhcp)) dhcp sv
           | Some Release \<Rightarrow> on_release iface_name (the (client_chaddr dhcp)) dhcp sv
           | _ \<Rightarrow> Returned (False, [], sv)))"
  by (simp add: handle_dhcp_message_def message_of_def split: option.split MessageType.split)

definition is_release_message :: "'x crates \<Rightarrow> bytes \<Rightarrow> bool" where
  "is_release_message cr message \<longleftrightarrow>
     (case message_of cr message of None \<Rightarrow> False | Some dhcp \<Rightarrow> opts_msg_type (dm_opts dhcp) = Some Release)"

lemma handle_message_call:
  assumes "handle_dhcp_message cr clk fuel ifindex iface_mac iface_name (message, port) sv = Returned (b, out, sv')"
  shows "\<exists>ops. (is_release_message cr message \<or> list_all (\<lambda>op. \<not> release_op op) ops) \<and> table_call cr fuel ops sv sv'"
proof (cases "message_of cr message")
  case None
  with assms show ?thesis by (intro exI [of _ "[]"]) (simp add: handle_message_cases table_call_none)
next
  case (Some dhcp)
  consider (discover) "opts_msg_type (dm_opts dhcp) = Some Discover" | (request) "opts_msg_type (dm_opts dhcp) = Some Request"
    | (decline) "opts_msg_type (dm_opts dhcp) = Some Decline" | (release) "opts_msg_type (dm_opts dhcp) = Some Release"
    | (other) "sv' = sv"
    using assms Some by (auto simp: handle_message_cases split: option.splits MessageType.splits)
  then show ?thesis
  proof cases
    case discover
    with assms Some obtain p where "gen_offer cr clk fuel sv dhcp = Returned (p, sv')"
      by (auto simp: handle_message_cases on_discover_def and_then_Returned split: option.splits)
    then show ?thesis using gen_offer_call by blast
  next
    case request
    with assms Some obtain p l where "gen_ack_v4 cr (clk 0) ifindex iface_mac sv dhcp = Returned (p, l, sv')"
      by (auto simp: handle_message_cases on_request_def and_then_Returned Let_def split_beta split: option.splits)
    then show ?thesis using gen_ack_call by blast
  next
    case decline
    with assms Some have "sv' = sv \<or> (\<exists>ip. sv' = sv\<lparr>sv_status := add_decline_ip ip (sv_status sv)\<rparr>)"
      by (auto simp: handle_message_cases on_decline_def split: option.splits DhcpV4Option.splits)
    moreover have "table_call cr fuel [OpDecline ip] sv (sv\<lparr>sv_status := add_decline_ip ip (sv_status sv)\<rparr>)" for ip
      by (simp add: table_call_def)
    moreover have "\<not> release_op (OpDecline ip)" for ip by (simp add: release_op_def)
    ultimately show ?thesis
      using table_call_none by (metis list.pred_inject(1) list.pred_inject(2))
  next
    case release
    with assms Some have "table_call cr fuel [OpRelease (the (client_chaddr dhcp)) (dm_ciaddr dhcp)] sv sv'"
      by (auto simp: handle_message_cases on_release_def Let_def split_beta table_call_def)
    then show ?thesis using release Some by (auto simp: is_release_message_def)
  next
    case other
    then show ?thesis by (intro exI [of _ "[]"]) (simp add: table_call_none)
  qed
qed

lemma expiry_call: "table_call cr fuel [OpClean now] sv (snd (on_expiry now iface_name sv))"
  by (simp add: on_expiry_def Let_def split_beta table_call_def)

definition is_release_event :: "'x crates \<Rightarrow> server_event \<Rightarrow> bool" where
  "is_release_event cr ev \<longleftrightarrow> (case ev of GotMessage _ message _ \<Rightarrow> is_release_message cr message | _ \<Rightarrow> False)"

lemma server_loop_call:
  assumes "server_loop cr fuel ifindex iface_mac iface_name evs sv = Returned (outs, sv')"
    and "list_all (\<lambda>ev. \<not> is_release_event cr ev) evs"
  shows "\<exists>ops. list_all (\<lambda>op. \<not> release_op op) ops \<and> table_call cr fuel ops sv sv'"
  using assms
proof (induction evs arbitrary: sv outs)
  case Nil
  then show ?case by (intro exI [of _ "[]"]) (simp add: table_call_none)
next
  case (Cons ev evs)
  have step: "\<exists>ops. list_all (\<lambda>op. \<not> release_op op) ops \<and> table_call cr fuel ops sv sv'"
    if "list_all (\<lambda>op. \<not> release_op op) ops1" "table_call cr fuel ops1 sv sv1"
      "server_loop cr fuel ifindex iface_mac iface_name evs sv1 = Returned (outs1, sv')" for ops1 sv1 outs1
  proof -
    from Cons.IH [OF that(3)] Cons.prems(2) obtain ops2 where
      "list_all (\<lambda>op. \<not> release_op op) ops2" "table_call cr fuel ops2 sv1 sv'" by auto
    with that(1,2) table_call_append show ?thesis by (intro exI [of _ "ops1 @ ops2"]) auto
  qed
  show ?case
  proof (cases ev)
    case (GotMessage clk message port)
    with Cons.prems(1) obtain b out sv1 outs1 where
      h: "handle_dhcp_message cr clk fuel ifindex iface_mac iface_name (message, port) sv = Returned (b, out, sv1)"
      and l: "server_loop cr fuel ifindex iface_mac iface_name evs sv1 = Returned (outs1, sv')"
      by (auto simp: and_then_Returned)
    have "\<not> is_release_message cr message" using Cons.prems(2) GotMessage by (simp add: is_release_event_def)
    with handle_message_call [OF h] step l show ?thesis by blast
  next
    case (ExpiryTimer now)
    with Cons.prems(1) obtain outs1 where
      "server_loop cr fuel ifindex iface_mac iface_name evs (snd (on_expiry now iface_name sv)) = Returned (outs1, sv')"
      by (auto simp: and_then_Returned split_beta Let_def)
    then show ?thesis using step [OF _ expiry_call] by (auto simp: release_op_def)
  next
    case ChannelClosed
    with Cons.prems show ?thesis by (intro exI [of _ "[]"]) (simp add: table_call_none)
  next
    case StopSignal
    with Cons.prems show ?thesis by (intro exI [of _ "[]"]) (simp add: table_call_none)
  qed
qed

lemma release_free_polite:
  "list_all (\<lambda>op. \<not> release_op op) ops \<Longrightarrow> polite_run inet_add fuel ops st"
proof (induction ops arbitrary: st)
  case (Cons op ops)
  then have "polite op s" for s by (cases op) (simp_all add: release_op_def)
  with Cons show ?case by (simp split: outcome.splits)
qed simp

section \<open>Replies\<close>

text \<open>A server as \<open>DHCPv4Server::new\<close> leaves it: no custom option has a code the server manages.\<close>

definition server_wf :: "'x DHCPv4Server \<Rightarrow> bool" where
  "server_wf sv \<longleftrightarrow> list_all (\<lambda>(code, _). \<not> is_server_managed code) (sv_global_custom_options sv)"

lemma to_raw_code: "to_raw enc opt = Returned (Inr (code, data)) \<Longrightarrow> code = custom_code opt"
  by (auto simp: to_raw_def and_then_Returned split: if_splits option.splits)

lemma encode_custom_code:
  assumes "encode_custom_option_with_defaults cr opt ip ctx = Returned (Inr (Some (code, data)))"
  shows "\<not> is_server_managed code"
proof (cases "is_dnr opt")
  case True
  then obtain config where "opt = Dnr config" by (auto simp: is_dnr_def split: CustomDhcpOption.splits)
  with assms have "code = DHCPV4_DNR_OPTION_CODE"
    by (auto simp: encode_custom_option_with_defaults_def Let_def split_beta split: option.splits if_splits)
  then show ?thesis
    by (simp add: DHCPV4_DNR_OPTION_CODE_def is_server_managed_def SERVER_MANAGED_OPTION_CODES_def)
next
  case False
  then have "encode_custom_option_with_defaults cr opt ip ctx = and_then (to_raw (cr_opt_encode cr) opt)
      (\<lambda>r. case r of Inl e \<Rightarrow> Returned (Inl e) | Inr raw \<Rightarrow> Returned (Inr (Some raw)))"
    by (cases opt) (simp_all add: encode_custom_option_with_defaults_def is_dnr_def)
  with assms obtain x where x: "to_raw (cr_opt_encode cr) opt = Returned x"
    "(case x of Inl e \<Rightarrow> Returned (Inl e) | Inr raw \<Rightarrow> Returned (Inr (Some raw))) = Returned (Inr (Some (code, data)))"
    by (auto simp: and_then_Returned)
  then have "to_raw (cr_opt_encode cr) opt = Returned (Inr (code, data))" by (cases x) simp_all
  then show ?thesis using to_raw_code custom_code_not_managed by metis
qed

definition unmanaged :: "(u8, bytes) hmap \<Rightarrow> bool" where
  "unmanaged m \<longleftrightarrow> (\<forall>k. is_server_managed k \<longrightarrow> hm_get m k = None)"

lemma unmanaged_insert: "unmanaged m \<Longrightarrow> \<not> is_server_managed k \<Longrightarrow> unmanaged (hm_insert k v m)"
  by (auto simp: unmanaged_def)

lemma merge_unmanaged:
  "merge_custom_options cr opts ip ctx m = Returned m' \<Longrightarrow> unmanaged m \<Longrightarrow> unmanaged m'"
proof (induction opts arbitrary: m)
  case (Cons opt opts)
  then obtain r where r: "encode_custom_option_with_defaults cr opt ip ctx = Returned r"
    and rest: "merge_custom_options cr opts ip ctx
      (case r of Inr (Some (code, data)) \<Rightarrow> hm_insert code data m | _ \<Rightarrow> m) = Returned m'"
    by (auto simp: and_then_Returned)
  have "unmanaged (case r of Inr (Some (code, data)) \<Rightarrow> hm_insert code data m | _ \<Rightarrow> m)"
    using r Cons.prems(2)
    by (auto split: sum.splits option.splits intro!: unmanaged_insert dest: encode_custom_code)
  with Cons.IH rest show ?case by blast
qed simp

lemma global_unmanaged:
  "list_all (\<lambda>(code, _). \<not> is_server_managed code) cs \<Longrightarrow> unmanaged m \<Longrightarrow>
     unmanaged (fold (\<lambda>(code, data) m. hm_insert code data m) cs m)"
  by (induction cs arbitrary: m) (auto simp: unmanaged_insert)

lemma resolve_unmanaged:
  assumes "resolve_options_for_mac cr mac sv = Returned (custom, fs)" and "server_wf sv"
  shows "unmanaged custom"
proof -
  have "unmanaged (fold (\<lambda>(code, data) m. hm_insert code data m) (sv_global_custom_options sv) [])"
    using assms(2) by (intro global_unmanaged) (simp_all add: server_wf_def unmanaged_def)
  then show ?thesis
    using assms(1) merge_unmanaged
    by (auto simp: resolve_options_for_mac_def Let_def and_then_Returned split: option.splits) blast+
qed

lemma managed_option_kept:
  assumes "hm_ok (dm_opts msg)" and "unmanaged custom" and "is_server_managed c"
  shows "hm_get (dm_opts (apply_custom_and_filter msg custom fs)) c = hm_get (dm_opts msg) c"
proof -
  have "map_of (rev custom) c = None"
    using assms(2,3) by (auto simp: unmanaged_def hm_get_def map_of_eq_None_iff)
  then show ?thesis using assms(1,3) by (simp add: apply_filter_get)
qed

lemma add_requested_ok: "hm_ok opts \<Longrightarrow> hm_ok (add_requested cr sv fs codes opts)"
  by (induction codes arbitrary: opts) (auto split: option.splits)

lemma requested_options_ok: "hm_ok opts \<Longrightarrow> hm_ok (requested_options cr sv frame fs opts)"
  by (auto simp: requested_options_def add_requested_ok split: DhcpV4Option.splits)

lemma split_options_unmanaged:
  "split_options cr config ctx opts = Returned (raws, dyns) \<Longrightarrow> list_all (\<lambda>(code, _). \<not> is_server_managed code) raws"
proof (induction opts arbitrary: raws dyns)
  case (Cons opt opts)
  show ?case
  proof (cases "is_dnr opt")
    case True
    with Cons show ?thesis by (auto simp: and_then_Returned)
  next
    case False
    with Cons.prems obtain r raws' dyns' where
      r: "encode_custom_option cr opt config ctx = Returned r"
      and s: "split_options cr config ctx opts = Returned (raws', dyns')"
      and eq: "(raws, dyns) = (case r of Inr (Some raw) \<Rightarrow> (raw # raws', dyns') | _ \<Rightarrow> (raws', dyns'))"
      by (auto simp: and_then_Returned)
    show ?thesis
    proof (cases "\<exists>raw. r = Inr (Some raw)")
      case True
      then obtain code data where "r = Inr (Some (code, data))" by auto
      then show ?thesis
        using eq Cons.IH [OF s] r encode_custom_code [of cr opt _ ctx code data]
        by (simp add: encode_custom_option_def)
    next
      case False
      then have "raws = raws'" using eq by (auto split: sum.splits option.splits)
      then show ?thesis using Cons.IH [OF s] by simp
    qed
  qed
qed simp

lemma new_server_wf:
  assumes "DHCPv4Server_new cr config ctx lan st iface = Returned sv"
  shows "server_wf sv" and "sv_status sv = st"
  using assms split_options_unmanaged
  by (auto simp: DHCPv4Server_new_def Let_def and_then_Returned server_wf_def split: if_splits)

lemma managed_codes: "is_server_managed 51" "is_server_managed 53" "is_server_managed 54" "is_server_managed 1"
  by (simp_all add: is_server_managed_def SERVER_MANAGED_OPTION_CODES_def)

definition default_ok :: "'x crates \<Rightarrow> bool" where
  "default_ok cr \<longleftrightarrow> hm_ok (dm_opts (cr_default_msg cr))"

lemma gen_ack_granted:
  assumes mac: "client_chaddr frame = Some mac" and ip: "requested_ip frame = Some ip"
    and res: "resolve_options_for_mac cr mac sv = Returned (custom, fs)"
    and ack: "ack_request now mac ip (get_hostname frame) (sv_address_lease_time sv) (sv_status sv) = (True, st)"
    and wf: "server_wf sv" "default_ok cr"
  shows "\<exists>reply. gen_ack_v4 cr now ifindex iface_mac sv frame =
      Returned (Some reply, map_option (\<lambda>dev. (ifindex, ip, mac, dev)) iface_mac, sv\<lparr>sv_status := st\<rparr>) \<and>
    dm_yiaddr reply = ip \<and> dm_xid reply = dm_xid frame \<and> dm_opcode reply = BootReply \<and>
    opts_msg_type (dm_opts reply) = Some Ack \<and>
    hm_get (dm_opts reply) 51 = Some (AddressLeaseTime (sv_address_lease_time sv)) \<and>
    hm_get (dm_opts reply) 54 = Some (ServerIdentifier (sv_server_ip sv)) \<and>
    hm_get (dm_opts reply) 1 = hm_get (requested_options cr sv frame fs (dm_opts (cr_default_msg cr))) 1"
proof -
  let ?hdr = "reply_header cr sv frame mac"
  let ?opts = "opts_insert (ServerIdentifier (sv_server_ip sv)) (opts_insert (AddressLeaseTime (sv_address_lease_time sv))
      (opts_insert (MessageType Ack) (requested_options cr sv frame fs (dm_opts ?hdr))))"
  let ?pre = "?hdr\<lparr>dm_ciaddr := dm_ciaddr frame, dm_yiaddr := ip, dm_opts := ?opts\<rparr>"
  let ?reply = "apply_custom_and_filter ?pre custom fs"
  have hdr: "dm_opts ?hdr = dm_opts (cr_default_msg cr)" "dm_xid ?hdr = dm_xid frame" "dm_opcode ?hdr = BootReply"
    by (simp_all add: reply_header_def set_chaddr_def)
  have ok: "hm_ok (dm_opts ?pre)"
    using wf(2) by (simp add: hdr requested_options_ok default_ok_def)
  have keep: "is_server_managed c \<Longrightarrow> hm_get (dm_opts ?reply) c = hm_get ?opts c" for c
    using managed_option_kept [OF ok resolve_unmanaged [OF res wf(1)]] by simp
  have fields: "dm_yiaddr ?reply = ip" "dm_xid ?reply = dm_xid frame" "dm_opcode ?reply = BootReply"
    by (simp_all add: apply_custom_and_filter_def Let_def hdr)
  have "gen_ack_v4 cr now ifindex iface_mac sv frame =
      Returned (Some ?reply, map_option (\<lambda>dev. (ifindex, ip, mac, dev)) iface_mac, sv\<lparr>sv_status := st\<rparr>)"
    by (simp add: gen_ack_v4_def mac res ip ack Let_def)
  then show ?thesis
    using fields keep [OF managed_codes(1)] keep [OF managed_codes(2)] keep [OF managed_codes(3)]
      keep [OF managed_codes(4)]
    by (intro exI [of _ ?reply]) (simp add: opts_msg_type_def hdr)
qed

lemma offer_frame:
  "offer_ip inet_add clk fuel mac hostname st = Returned (r, st') \<Longrightarrow>
     st_per_mac_options st' = st_per_mac_options st \<and> (r = None \<or> leases st' mac = r)"
proof -
  have loop: "offer_loop inet_add clk mac hostname fuel k seed s = Returned (r, st') \<Longrightarrow>
      st_per_mac_options st' = st_per_mac_options s \<and> (r = None \<or> leases st' mac = r)" for k seed s
    by (induction fuel arbitrary: k seed s)
      (auto simp: Let_def split_beta clean_frame leases_def split: if_splits)
  assume "offer_ip inet_add clk fuel mac hostname st = Returned (r, st')"
  then show ?thesis
    using loop by (auto simp: offer_ip_def Let_def leases_def split: option.splits if_splits)
qed

lemma gen_offer_fields:
  assumes "gen_offer cr clk fuel sv frame = Returned (Some offer, sv')" and "server_wf sv" and "default_ok cr"
  shows "dm_xid offer = dm_xid frame" and "dm_opcode offer = BootReply" and "opts_msg_type (dm_opts offer) = Some Offer"
proof -
  let ?pre = "\<lambda>mac fs. (reply_header cr sv frame mac)\<lparr>dm_opts :=
      opts_insert (ServerIdentifier (sv_server_ip sv)) (opts_insert (AddressLeaseTime (sv_address_lease_time sv))
        (opts_insert (MessageType Offer) (requested_options cr sv frame fs (dm_opts (reply_header cr sv frame mac)))))\<rparr>"
  obtain mac custom fs a where mac: "client_chaddr frame = Some mac"
    and res: "resolve_options_for_mac cr mac sv = Returned (custom, fs)"
    and o: "offer = (apply_custom_and_filter (?pre mac fs) custom fs)\<lparr>dm_yiaddr := a\<rparr>"
    using assms(1) by (auto simp: gen_offer_def and_then_Returned Let_def split_beta split: option.splits)
  have h: "dm_opts (reply_header cr sv frame mac) = dm_opts (cr_default_msg cr)" by (simp add: reply_header_def set_chaddr_def)
  show "dm_xid offer = dm_xid frame" "dm_opcode offer = BootReply"
    by (simp_all add: o apply_custom_and_filter_def Let_def reply_header_def set_chaddr_def)
  have "hm_ok (dm_opts (?pre mac fs))" using assms(3) by (simp add: h default_ok_def requested_options_ok)
  from managed_option_kept [OF this resolve_unmanaged [OF res assms(2)] managed_codes(2)]
  show "opts_msg_type (dm_opts offer) = Some Offer" by (simp add: o opts_msg_type_def)
qed

text \<open>The options a fresh server answers with, and how a requested one reaches the reply.\<close>

definition options_keyed :: "'x DHCPv4Server \<Rightarrow> bool" where
  "options_keyed sv \<longleftrightarrow> (\<forall>c opt. hm_get (sv_options_map sv) c = Some opt \<longrightarrow> option_code opt = c)"

lemma new_server_options:
  assumes "DHCPv4Server_new cr config ctx lan st iface = Returned sv"
  shows "options_keyed sv" and "hm_get (sv_options_map sv) 1 = Some (SubnetMask (cr_inet_mask cr (network_mask config)))"
  using assms by (auto simp: DHCPv4Server_new_def Let_def and_then_Returned options_keyed_def split: if_splits)

lemma dynamic_code: "dynamic_requested_option cr code sv = Some opt \<Longrightarrow> option_code opt = 15 \<or> option_code opt = 119"
  by (auto simp: dynamic_requested_option_def lan_domain_option_def split: option.splits if_splits)

lemma add_requested_get:
  assumes "options_keyed sv" and "hm_get (sv_options_map sv) 1 = Some opt" and "1 \<notin> set fs"
  shows "1 \<in> set codes \<or> hm_get opts 1 = Some opt \<Longrightarrow> hm_get (add_requested cr sv fs codes opts) 1 = Some opt"
proof (induction codes arbitrary: opts)
  case (Cons code codes)
  let ?opts = "if code \<in> set fs then opts else case hm_get (sv_options_map sv) code of Some opt \<Rightarrow> opts_insert opt opts
      | None \<Rightarrow> (case dynamic_requested_option cr code sv of Some opt \<Rightarrow> opts_insert opt opts | None \<Rightarrow> opts)"
  have k: "hm_get (sv_options_map sv) code = Some o1 \<Longrightarrow> option_code o1 = code" for o1
    using assms(1) by (simp add: options_keyed_def)
  have "1 \<in> set codes \<or> hm_get ?opts 1 = Some opt"
  proof (cases "code = 1")
    case True
    then show ?thesis using assms(2,3) k by simp
  next
    case False
    then show ?thesis using Cons.prems k dynamic_code [of cr code sv] by (auto split: option.split)
  qed
  then show ?case using Cons.IH by simp
qed simp

lemma validate_filter_loop_none:
  "validate_filter_loop fs seen = None \<Longrightarrow> c \<in> set fs \<Longrightarrow> \<not> is_server_managed c"
  by (induction fs arbitrary: seen) (auto split: if_splits)

lemma resolve_filters:
  assumes "resolve_options_for_mac cr mac sv = Returned (custom, fs)"
    and "\<forall>pm. hm_get (st_per_mac_options (sv_status sv)) mac = Some pm \<longrightarrow> validate_filter_options (pm_filter_options pm) = None"
    and "is_server_managed c"
  shows "c \<notin> set fs"
  using assms validate_filter_loop_none
  by (auto simp: resolve_options_for_mac_def Let_def and_then_Returned validate_filter_options_def split: option.splits)

lemma resolve_same:
  "st_per_mac_options st = st_per_mac_options (sv_status sv) \<Longrightarrow>
     resolve_options_for_mac cr mac (sv\<lparr>sv_status := st\<rparr>) = resolve_options_for_mac cr mac sv"
  by (cases "hm_get (st_per_mac_options (sv_status sv)) mac") (simp_all add: resolve_options_for_mac_def)

section \<open>Properties of the server\<close>

text \<open>
  A small server for the examples: the decoder reads the client from the first byte of a datagram and
  takes it for a \<open>DISCOVER\<close>.
\<close>

definition ex_message :: "u8 \<Rightarrow> unit DhcpV4Options \<Rightarrow> unit DhcpV4Message" where
  "ex_message n opts =
     \<lparr>dm_opcode = BootRequest, dm_hlen = 6, dm_xid = 7, dm_secs = 0, dm_flags = 0, dm_ciaddr = 0,
      dm_yiaddr = 0, dm_siaddr = 0, dm_chaddr = octets (ex_mac n) @ replicate 10 0, dm_opts = opts\<rparr>"

definition ex_crates :: "unit crates" where
  "ex_crates =
     \<lparr>cr_inet_add = plain_inet_add, cr_inet_mask = (\<lambda>len. NOT (mask (32 - unat len))),
      cr_opt_encode = (\<lambda>_. None),
      cr_msg_decode = (\<lambda>bs. Some (ex_message (bs ! 0) [(53, MessageType Discover)])),
      cr_msg_encode = (\<lambda>m. Some (u32_to_be_bytes (dm_yiaddr m))), cr_default_msg = ex_message 0 [],
      cr_name_from_utf8 = (\<lambda>_. None), cr_debug_assertions = False\<rparr>"

definition ex_datagram :: "u8 \<Rightarrow> bytes" where
  "ex_datagram n = replicate 236 n @ [0x63, 0x82, 0x53, 0x63]"

definition ex_server :: "unit EnrolledDevice list \<Rightarrow> unit DHCPv4Server" where
  "ex_server ds =
     (case DHCPv4Server_new ex_crates (ex_config4 0xc0a8050a 0xc0a8050c 0xc0a80501) None None (ex_status ds []) [] of
        Returned sv \<Rightarrow> sv
      | _ \<Rightarrow> \<lparr>sv_server_ip = 0, sv_options_map = [], sv_global_custom_options = [],
              sv_global_dynamic_options = [], sv_dnr_context = None, sv_lan_domain_state = None,
              sv_address_lease_time = 0, sv_iface_name = [], sv_status = ex_status ds []\<rparr>)"

lemma gen_offer_returns:
  "client_chaddr frame = Some mac \<Longrightarrow> resolve_options_for_mac cr mac sv = Returned (custom, fs) \<Longrightarrow>
   offer_ip (cr_inet_add cr) clk fuel mac (get_hostname frame) (sv_status sv) = Returned (Some a, st) \<Longrightarrow>
     \<exists>offer sv'. gen_offer cr clk fuel sv frame = Returned (Some offer, sv')"
  by (simp add: gen_offer_def Let_def)

lemma gen_ack_returns:
  "client_chaddr frame = Some mac \<Longrightarrow> resolve_options_for_mac cr mac sv = Returned (custom, fs) \<Longrightarrow>
   requested_ip frame = Some ip \<Longrightarrow>
     \<exists>reply learn sv'. gen_ack_v4 cr now ifindex iface_mac sv frame = Returned (Some reply, learn, sv')"
  by (simp add: gen_ack_v4_def Let_def split_beta)

lemma ex_server_facts: "server_wf (ex_server ds)" "sv_status (ex_server ds) = ex_status ds []"
proof -
  let ?c = "ex_config4 0xc0a8050a 0xc0a8050c 0xc0a80501"
  have "DHCPv4Server_new ex_crates ?c None None (ex_status ds []) [] = Returned (ex_server ds)"
    by (simp add: ex_server_def DHCPv4Server_new_def ex_config4_def Let_def)
  then show "server_wf (ex_server ds)" "sv_status (ex_server ds) = ex_status ds []"
    using new_server_wf by blast+
qed

lemma ex_start_ok: "status_ok (ex_status [] [])" "status_ok (ex_status [ex_device 1 0xc0a8050a] [])"
proof -
  have "from_config_and_devices plain_inet_last (ex_config4 0xc0a8050a 0xc0a8050c 0xc0a80501) [] = Returned (ex_status [] [])"
    "from_config_and_devices plain_inet_last (ex_config4 0xc0a8050a 0xc0a8050c 0xc0a80501)
      [ex_device 1 0xc0a8050a] = Returned (ex_status [ex_device 1 0xc0a8050a] [])" by code_simp+
  then show "status_ok (ex_status [] [])" "status_ok (ex_status [ex_device 1 0xc0a8050a] [])"
    using from_config_ok(1) by blast+
qed

text \<open>C7: Whatever datagrams arrive, malformed ones included, and however the expiry timer and the stop
  signal interleave with them, the server only changes its lease table as the abstract table allows,
  so no two clients come to hold one address, and nothing else of the server changes; \<open>RELEASE\<close>
  messages are excluded, as the table does not survive them.
\<close>

theorem server_loop_keeps_leases_exclusive:
  assumes "status_ok (sv_status sv)" and "list_all (\<lambda>ev. \<not> is_release_event cr ev) evs"
    and "server_loop cr fuel ifindex iface_mac iface_name evs sv = Returned (outs, sv')"
  shows "lease_steps (leases (sv_status sv)) (leases (sv_status sv')) \<and> exclusive (leases (sv_status sv')) \<and>
    status_ok (sv_status sv') \<and> sv' = sv\<lparr>sv_status := sv_status sv'\<rparr>"
proof -
  obtain ops st' where "list_all (\<lambda>op. \<not> release_op op) ops"
    and run: "status_run (cr_inet_add cr) fuel ops (sv_status sv) = Returned st'" and sv': "sv' = sv\<lparr>sv_status := st'\<rparr>"
    using server_loop_call [OF assms(3,2)] unfolding table_call_def by blast
  then have "ok_refines (sv_status sv) st'"
    using status_run_refines [OF assms(1) release_free_polite run] by blast
  then show ?thesis using status_ok_exclusive [of st'] by (simp add: ok_refines_def sv')
qed

theorem server_loop_keeps_leases_exclusive_witness:
  "exclusive (leases (sv_status (case server_loop ex_crates 16 3 None []
      [GotMessage (\<lambda>_. 0) (ex_datagram 1) 68, ExpiryTimer 60, GotMessage (\<lambda>_. 60) (ex_datagram 2) 68, StopSignal]
      (ex_server []) of Returned (outs, sv') \<Rightarrow> sv' | _ \<Rightarrow> ex_server [])))"
proof -
  let ?evs = "[GotMessage (\<lambda>_. 0) (ex_datagram 1) 68, ExpiryTimer 60, GotMessage (\<lambda>_. 60) (ex_datagram 2) 68, StopSignal]"
  have ok: "status_ok (sv_status (ex_server []))" using ex_start_ok ex_server_facts by metis
  have nr: "list_all (\<lambda>ev. \<not> is_release_event ex_crates ev) ?evs" by code_simp
  show ?thesis
  proof (cases "server_loop ex_crates 16 3 None [] ?evs (ex_server [])")
    case (Returned r)
    obtain outs sv' where "r = (outs, sv')" by (cases r)
    with Returned show ?thesis using server_loop_keeps_leases_exclusive [OF ok nr] by simp
  qed (use status_ok_exclusive [OF ok] in simp_all)
qed



text \<open>C17: What a reply to a \<open>REQUEST\<close> carries.  An \<open>ACK\<close> carries the requested address, the server's
  lease time and the server's identifier, whatever options the administrator set or blocked for the
  client, and only then does the dataplane learn the client; a \<open>NAK\<close> carries no address, no option
  beyond its type and the server's identifier, teaches the dataplane nothing and leaves the server as
  it was.
\<close>

theorem reply_to_request:
  assumes "server_wf sv" and "default_ok cr"
    and "gen_ack_v4 cr now ifindex iface_mac sv frame = Returned (Some reply, learn, sv')"
  shows "\<exists>mac ip. client_chaddr frame = Some mac \<and> requested_ip frame = Some ip \<and> dm_xid reply = dm_xid frame \<and>
    (if fst (ack_request now mac ip (get_hostname frame) (sv_address_lease_time sv) (sv_status sv))
     then opts_msg_type (dm_opts reply) = Some Ack \<and> dm_yiaddr reply = ip \<and>
       hm_get (dm_opts reply) 51 = Some (AddressLeaseTime (sv_address_lease_time sv)) \<and>
       hm_get (dm_opts reply) 54 = Some (ServerIdentifier (sv_server_ip sv)) \<and>
       learn = map_option (\<lambda>dev. (ifindex, ip, mac, dev)) iface_mac
     else dm_yiaddr reply = 0 \<and> dm_ciaddr reply = 0 \<and> learn = None \<and> sv' = sv \<and>
       hm_get (dm_opts reply) = [53 \<mapsto> MessageType Nak, 54 \<mapsto> ServerIdentifier (sv_server_ip sv)])"
proof -
  obtain mac custom fs ip where mac: "client_chaddr frame = Some mac"
    and res: "resolve_options_for_mac cr mac sv = Returned (custom, fs)" and ip: "requested_ip frame = Some ip"
    using assms(3) by (auto simp: gen_ack_v4_def and_then_Returned Let_def split_beta split: option.splits)
  obtain ackd st where ack: "ack_request now mac ip (get_hostname frame) (sv_address_lease_time sv) (sv_status sv) = (ackd, st)"
    by (cases "ack_request now mac ip (get_hostname frame) (sv_address_lease_time sv) (sv_status sv)")
  show ?thesis
  proof (cases ackd)
    case True
    with ack have "ack_request now mac ip (get_hostname frame) (sv_address_lease_time sv) (sv_status sv) = (True, st)" by simp
    from gen_ack_granted [OF mac ip res this assms(1,2), of ifindex iface_mac] assms(3)
    show ?thesis using mac ip ack True by (intro exI [of _ mac] exI [of _ ip]) auto
  next
    case False
    with ack have st: "st = sv_status sv" by (auto simp: ack_request_def split: if_splits option.splits)
    have "reply = (reply_header cr sv frame mac)\<lparr>dm_ciaddr := 0, dm_yiaddr := 0,
        dm_opts := opts_insert (ServerIdentifier (sv_server_ip sv)) (opts_insert (MessageType Nak) [])\<rparr>"
      "learn = None" "sv' = sv"
      using assms(3) False by (auto simp: gen_ack_v4_def mac res ip ack Let_def st)
    then show ?thesis using mac ip ack False
      by (intro exI [of _ mac] exI [of _ ip]) (auto simp: reply_header_def set_chaddr_def fun_eq_iff)
  qed
qed

theorem reply_to_request_witness:
  "\<exists>reply learn sv'. gen_ack_v4 ex_crates 0 3 None (ex_server [ex_device 1 0xc0a8050a])
       (ex_message 2 [(50, RequestedIpAddress 0xc0a8050a)]) = Returned (Some reply, learn, sv') \<and>
     dm_yiaddr reply = 0 \<and> learn = None"
proof -
  let ?sv = "ex_server [ex_device 1 0xc0a8050a]" and ?f = "ex_message 2 [(50, RequestedIpAddress 0xc0a8050a)]"
  have d: "default_ok ex_crates" by code_simp
  have f: "client_chaddr ?f = Some (ex_mac 2)" "requested_ip ?f = Some 0xc0a8050a"
    "\<not> fst (ack_request 0 (ex_mac 2) 0xc0a8050a (get_hostname ?f) (sv_address_lease_time ?sv) (sv_status ?sv))"
    by code_simp+
  have r: "resolve_options_for_mac ex_crates (ex_mac 2) ?sv = Returned ([], [])" by code_simp
  from gen_ack_returns [OF f(1) r f(2)] obtain reply learn sv' where
    g: "gen_ack_v4 ex_crates 0 3 None ?sv ?f = Returned (Some reply, learn, sv')" by blast
  from reply_to_request [OF ex_server_facts(1) d g] obtain mac ip where
    "client_chaddr ?f = Some mac" "requested_ip ?f = Some ip"
    and r: "if fst (ack_request 0 mac ip (get_hostname ?f) (sv_address_lease_time ?sv) (sv_status ?sv))
      then opts_msg_type (dm_opts reply) = Some Ack \<and> dm_yiaddr reply = ip \<and>
        hm_get (dm_opts reply) 51 = Some (AddressLeaseTime (sv_address_lease_time ?sv)) \<and>
        hm_get (dm_opts reply) 54 = Some (ServerIdentifier (sv_server_ip ?sv)) \<and>
        learn = map_option (\<lambda>dev. (3, ip, mac, dev)) None
      else dm_yiaddr reply = 0 \<and> dm_ciaddr reply = 0 \<and> learn = None \<and> sv' = ?sv \<and>
        hm_get (dm_opts reply) = [53 \<mapsto> MessageType Nak, 54 \<mapsto> ServerIdentifier (sv_server_ip ?sv)]"
    by blast
  then have "mac = ex_mac 2" "ip = 0xc0a8050a" using f(1,2) by simp_all
  with r f(3) have "dm_yiaddr reply = 0 \<and> learn = None" by meson
  with g show ?thesis by blast
qed

end
