(* ===== verification/Dhcp4_Client.thy ===== *)
theory Dhcp4_Client
  imports Dhcp_Message Wan_Link
begin

text \<open>
  The DHCPv4 client of a WAN link (\<open>landscape/src/wan_service/dhcpv4_client\<close>): the messages it sends
  (\<open>message.rs\<close>), its state machine (\<open>fsm.rs\<close>), what it does to the system (\<open>system.rs\<close>) and the
  driver that runs the machine (\<open>driver.rs\<close>).

  Instants and durations are integers, in nanoseconds.  One event carries the values the handler
  draws while it runs: \<open>dr_clk k\<close> is the \<open>k\<close>-th reading of the clock, \<open>dr_xid k\<close> the transaction
  number drawn by the \<open>k\<close>-th nested call and \<open>dr_jitter\<close> the random byte of \<open>retry_wait\<close>.  A value
  that the code draws and overwrites before anybody reads it is left out.  A fresh message of the
  crate \<open>dhcproto\<close> is the argument \<open>dflt\<close>.
\<close>

section \<open>Instants, durations and saturating arithmetic\<close>

type_synonym Instant = int
type_synonym Duration = int

definition NANOS_PER_SEC :: int where "NANOS_PER_SEC = 1000000000"

definition from_secs :: "u64 \<Rightarrow> Duration" where
  "from_secs s = uint s * NANOS_PER_SEC"

definition as_secs :: "Duration \<Rightarrow> u64" where
  "as_secs d = word_of_int (d div NANOS_PER_SEC)"

definition saturating_duration_since :: "Instant \<Rightarrow> Instant \<Rightarrow> Duration" where
  "saturating_duration_since a b = max 0 (a - b)"

text \<open>\<open>Instant::checked_sub\<close>: an instant has signed 64-bit seconds.\<close>

definition instant_checked_sub :: "Instant \<Rightarrow> Duration \<Rightarrow> Instant option" where
  "instant_checked_sub a d = (if a - d < - (2 ^ 63) * NANOS_PER_SEC then None else Some (a - d))"

definition saturating_sub :: "u32 \<Rightarrow> u32 \<Rightarrow> u32" where
  "saturating_sub a b = (if b \<le> a then a - b else 0)"

definition saturating_add :: "u32 \<Rightarrow> u32 \<Rightarrow> u32" where
  "saturating_add a b = (if a \<le> a + b then a + b else - 1)"

definition saturating_sub_u64 :: "u64 \<Rightarrow> u64 \<Rightarrow> u64" where
  "saturating_sub_u64 a b = (if b \<le> a then a - b else 0)"

definition saturating_mul :: "u64 \<Rightarrow> u64 \<Rightarrow> u64" where
  "saturating_mul a b = (if uint a * uint b < 2 ^ 64 then a * b else - 1)"

text \<open>\<open>Ord::clamp\<close>, which panics when \<open>lo > hi\<close>; \<open>get_renew_times_clamps\<close> below shows that it never does.\<close>

definition clamp :: "u64 \<Rightarrow> u64 \<Rightarrow> u64 \<Rightarrow> u64" where
  "clamp lo hi x = (if x < lo then lo else if x > hi then hi else x)"

section \<open>Messages\<close>

definition REQUEST_PARAMS :: "u8 list" where
  "REQUEST_PARAMS = [1, 3, 6, 15, 26, 28, 12, 42, 51, 119]"

definition BROADCAST_FLAG :: u16 where "BROADCAST_FLAG = 0x8000"

definition gen_discover ::
  "'x DhcpV4Message \<Rightarrow> u32 \<Rightarrow> MacAddr \<Rightarrow> u32 option \<Rightarrow> bytes \<Rightarrow> bool \<Rightarrow> 'x DhcpV4Message" where
  "gen_discover dflt xid mac_addr requested_ip hostname use_broadcast =
     (let msg = dflt\<lparr>dm_opcode := BootRequest, dm_xid := xid\<rparr>;
          flags = (if use_broadcast \<or> requested_ip = None then BROADCAST_FLAG else 0);
          msg = set_chaddr (octets mac_addr) (msg\<lparr>dm_flags := flags, dm_ciaddr := 0\<rparr>);
          opts = opts_insert (MessageType Discover) (dm_opts msg);
          opts = (case requested_ip of Some ip \<Rightarrow> opts_insert (RequestedIpAddress ip) opts | None \<Rightarrow> opts);
          opts = opts_insert (Hostname hostname) opts;
          opts = opts_insert (ParameterRequestList REQUEST_PARAMS) opts
      in msg\<lparr>dm_opts := opts\<rparr>)"

text \<open>The vendor class is the text \<open>MSFT 5.0\<close>.\<close>

definition gen_request ::
  "'x DhcpV4Message \<Rightarrow> u32 \<Rightarrow> MacAddr \<Rightarrow> u32 \<Rightarrow> u32 \<Rightarrow> 'x DhcpV4Options \<Rightarrow> bytes \<Rightarrow> 'x DhcpV4Message" where
  "gen_request dflt xid mac_addr ciaddr yiaddr options hostname =
     (let msg = set_chaddr (octets mac_addr) (dflt\<lparr>dm_opcode := BootRequest, dm_xid := xid\<rparr>);
          msg = msg\<lparr>dm_ciaddr := ciaddr\<rparr>;
          options = opts_insert (ClassIdentifier [0x4d, 0x53, 0x46, 0x54, 0x20, 0x35, 0x2e, 0x30]) options;
          options = opts_insert (ClientIdentifier (1 # octets mac_addr)) options;
          options = opts_insert (MessageType Request) options;
          options = opts_insert (Hostname hostname) options;
          options = opts_insert (ParameterRequestList REQUEST_PARAMS) options
      in if ciaddr = 0
         then msg\<lparr>dm_flags := BROADCAST_FLAG, dm_opts := opts_insert (RequestedIpAddress yiaddr) options\<rparr>
         else msg\<lparr>dm_flags := 0, dm_opts := options\<rparr>)"

section \<open>The state machine\<close>

definition DEFAULT_TIME_OUT :: u64 where "DEFAULT_TIME_OUT = 4"
definition MAX_CONNECT_RETRY_BACKOFF_SECS :: u64 where "MAX_CONNECT_RETRY_BACKOFF_SECS = 10 * 60"
definition DISCOVER_ATTEMPTS_PER_ROUND :: u64 where "DISCOVER_ATTEMPTS_PER_ROUND = 4"
definition REQUEST_ATTEMPTS :: u64 where "REQUEST_ATTEMPTS = 3"

definition calc_connect_retry_backoff_secs :: "u32 \<Rightarrow> u64" where
  "calc_connect_retry_backoff_secs failure_count =
     (let exp = min (saturating_sub failure_count 1) 31;
          secs = saturating_mul DEFAULT_TIME_OUT (push_bit (unat exp) 1)
      in min secs MAX_CONNECT_RETRY_BACKOFF_SECS)"

definition retry_wait :: "u8 \<Rightarrow> u64 \<Rightarrow> Duration" where
  "retry_wait random attempts =
     (let exp = min (saturating_sub_u64 attempts 1) 4;
          base = saturating_mul DEFAULT_TIME_OUT (push_bit (unat exp) 1);
          jitter = random mod 3
      in from_secs (base - 1 + ucast jitter))"

record 'x OfferContext =
  of_yiaddr :: u32
  of_siaddr :: u32
  of_options :: "'x DhcpV4Options"

record 'x LeaseContext =
  lc_xid :: u32
  lc_ciaddr :: u32
  lc_yiaddr :: u32
  lc_siaddr :: u32
  lc_options :: "'x DhcpV4Options"
  lc_renew_at :: Instant
  lc_rebind_at :: Instant
  lc_lease_at :: Instant

record 'x LeaseParams =
  lp_yiaddr :: u32
  lp_options :: "'x DhcpV4Options"
  lp_prefix :: u32
  lp_renew_time :: u64
  lp_lease_time :: u64

datatype 'x DhcpState =
    SDiscovering u32 "u32 option"
  | SRequesting u32 "'x OfferContext"
  | SBound "'x LeaseContext"
  | SRenewing "'x LeaseContext"
  | SWaitToRebind "'x LeaseContext"
  | SRebind "'x LeaseContext"

definition DhcpState_init :: "u32 \<Rightarrow> u32 option \<Rightarrow> 'x DhcpState" where
  "DhcpState_init xid requested = SDiscovering xid requested"

datatype 'x FsmEvent = TimerFired | Recv "'x DhcpV4Message"

datatype 'x FsmAction =
    SendMsg "'x DhcpV4Message" u32
  | ScheduleTimer Duration
  | BindLease "'x LeaseParams"
  | ReleaseLease

record 'x DhcpV4Fsm =
  fsm_state :: "'x DhcpState"
  fsm_attempts :: u64
  fsm_connect_failure_count :: u32
  fsm_mac_addr :: MacAddr
  fsm_hostname :: bytes

definition DhcpV4Fsm_new :: "u32 \<Rightarrow> MacAddr \<Rightarrow> bytes \<Rightarrow> 'x DhcpV4Fsm" where
  "DhcpV4Fsm_new xid mac_addr hostname =
     \<lparr>fsm_state = DhcpState_init xid None, fsm_attempts = 0, fsm_connect_failure_count = 0,
      fsm_mac_addr = mac_addr, fsm_hostname = hostname\<rparr>"

record draws =
  dr_clk :: "nat \<Rightarrow> Instant"
  dr_xid :: "nat \<Rightarrow> u32"
  dr_jitter :: u8

definition is_initial_phase :: "'x DhcpV4Fsm \<Rightarrow> bool" where
  "is_initial_phase f \<longleftrightarrow>
     (case fsm_state f of SDiscovering _ _ \<Rightarrow> True | SRequesting _ _ \<Rightarrow> True | SRebind _ \<Rightarrow> True | _ \<Rightarrow> False)"

definition lease_ip :: "'x LeaseContext \<Rightarrow> u32" where
  "lease_ip l = (if lc_yiaddr l = 0 then lc_ciaddr l else lc_yiaddr l)"

fun lease_of :: "'x DhcpState \<Rightarrow> 'x LeaseContext option" where
  "lease_of (SBound l) = Some l"
| "lease_of (SRenewing l) = Some l"
| "lease_of (SWaitToRebind l) = Some l"
| "lease_of (SRebind l) = Some l"
| "lease_of _ = None"

definition leased_ip :: "'x DhcpV4Fsm \<Rightarrow> u32 option" where
  "leased_ip f = map_option lease_ip (lease_of (fsm_state f))"

definition get_renew_times :: "'x DhcpV4Options \<Rightarrow> (u64 \<times> u64 \<times> u64) option" where
  "get_renew_times options =
     (case hm_get options 51 of
        Some (AddressLeaseTime lease_time) \<Rightarrow>
          (let lease = max (ucast lease_time) 2;
               default_renew = lease div 2;
               default_rebind = max (lease * 7 div 8) (default_renew + 1);
               explicit_renew = (case hm_get options 58 of
                   Some (Renewal t) \<Rightarrow> if t > 0 then Some (ucast t) else None | _ \<Rightarrow> None);
               explicit_rebind = (case hm_get options 59 of
                   Some (DhcpV4Option.Rebinding t) \<Rightarrow> if t > 0 then Some (ucast t) else None | _ \<Rightarrow> None);
               renew_time = clamp 1 (lease - 1) (case explicit_renew of Some t \<Rightarrow> t | None \<Rightarrow> default_renew);
               rebind_time = clamp (renew_time + 1) lease (case explicit_rebind of Some t \<Rightarrow> t | None \<Rightarrow> default_rebind)
           in Some (renew_time, rebind_time, lease))
      | _ \<Rightarrow> None)"

definition count_ones :: "u32 \<Rightarrow> nat" where
  "count_ones w = length (filter (bit w) [0..<32])"

definition lease_projection :: "'x LeaseContext \<Rightarrow> u32 \<times> u8 \<times> u64 \<times> u64" where
  "lease_projection lease =
     (let ip = lease_ip lease;
          prefix = (case hm_get (lc_options lease) 1 of
              Some (SubnetMask m) \<Rightarrow> word_of_nat (count_ones m) | _ \<Rightarrow> 0);
          (renew_secs, _, lease_secs) = (case get_renew_times (lc_options lease) of Some t \<Rightarrow> t | None \<Rightarrow> (0, 0, 0))
      in (ip, prefix, lease_secs, renew_secs))"

definition runtime_status :: "'x DhcpV4Fsm \<Rightarrow> DhcpV4Runtime" where
  "runtime_status f =
     (case fsm_state f of
        SDiscovering _ _ \<Rightarrow> Discovering (fsm_attempts f) (fsm_connect_failure_count f)
      | SRequesting _ offer \<Rightarrow> Requesting (of_yiaddr offer)
      | SBound lease \<Rightarrow> (let (ip, prefix, lease_secs, renew_secs) = lease_projection lease
                         in Bound ip prefix lease_secs renew_secs)
      | SRenewing lease \<Rightarrow> Renewing (lease_ip lease)
      | SWaitToRebind lease \<Rightarrow> Rebinding (lease_ip lease)
      | SRebind lease \<Rightarrow> Rebinding (lease_ip lease))"

text \<open>The options of a request that renews or rebinds a lease, and the options of the first request.\<close>

definition renew_options :: "bytes \<Rightarrow> 'x DhcpV4Options" where
  "renew_options hostname = opts_insert (Hostname hostname) (opts_insert (MessageType Request) [])"

definition select_options :: "'x OfferContext \<Rightarrow> 'x DhcpV4Options" where
  "select_options offer =
     (if hm_get (of_options offer) 54 = None \<and> of_siaddr offer \<noteq> 0
      then opts_insert (ServerIdentifier (of_siaddr offer)) (of_options offer) else of_options offer)"

definition renew_dest :: "'x LeaseContext \<Rightarrow> u32" where
  "renew_dest lease =
     (case hm_get (lc_options lease) 54 of
        Some (ServerIdentifier addr) \<Rightarrow> addr
      | _ \<Rightarrow> if lc_siaddr lease \<noteq> 0 then lc_siaddr lease else 0xffffffff)"

definition rebind_early_at :: "Instant \<Rightarrow> 'x LeaseContext \<Rightarrow> Instant" where
  "rebind_early_at now lease =
     (let renew_span = as_secs (saturating_duration_since (lc_rebind_at lease) (lc_renew_at lease)) div 6
      in case instant_checked_sub (lc_rebind_at lease) (from_secs renew_span) of Some t \<Rightarrow> t | None \<Rightarrow> now)"

function on_timer :: "'x DhcpV4Message \<Rightarrow> draws \<Rightarrow> nat \<Rightarrow> 'x DhcpV4Fsm \<Rightarrow> 'x FsmAction list \<times> 'x DhcpV4Fsm" where
  "on_timer dflt dr k f =
     (case fsm_state f of
        SDiscovering xid requested \<Rightarrow>
          (if fsm_attempts f \<ge> DISCOVER_ATTEMPTS_PER_ROUND then
             (let failures = saturating_add (fsm_connect_failure_count f) 1;
                  backoff = calc_connect_retry_backoff_secs failures
              in ([ScheduleTimer (from_secs backoff)],
                  f\<lparr>fsm_connect_failure_count := failures, fsm_state := DhcpState_init (dr_xid dr k) None,
                    fsm_attempts := 0\<rparr>))
           else
             (let attempts = fsm_attempts f + 1;
                  msg = gen_discover dflt xid (fsm_mac_addr f) requested (fsm_hostname f) (attempts \<le> 2)
              in ([SendMsg msg 0xffffffff, ScheduleTimer (retry_wait (dr_jitter dr) attempts)],
                  f\<lparr>fsm_attempts := attempts\<rparr>)))
      | SRequesting xid offer \<Rightarrow>
          (if fsm_attempts f \<ge> REQUEST_ATTEMPTS then
             on_timer dflt dr (Suc k) (f\<lparr>fsm_state := DhcpState_init (dr_xid dr k) None, fsm_attempts := 0\<rparr>)
           else
             (let attempts = fsm_attempts f + 1;
                  msg = gen_request dflt xid (fsm_mac_addr f) 0 (of_yiaddr offer) (select_options offer) (fsm_hostname f)
              in ([SendMsg msg 0xffffffff, ScheduleTimer (retry_wait (dr_jitter dr) attempts)],
                  f\<lparr>fsm_attempts := attempts\<rparr>)))
      | SBound lease \<Rightarrow>
          on_timer dflt dr (Suc k)
            (f\<lparr>fsm_state := SRenewing (lease\<lparr>lc_xid := dr_xid dr k, lc_ciaddr := lc_yiaddr lease, lc_yiaddr := 0\<rparr>),
               fsm_attempts := 0\<rparr>)
      | SRenewing lease \<Rightarrow>
          (let msg = gen_request dflt (lc_xid lease) (fsm_mac_addr f) (lc_ciaddr lease) (lc_yiaddr lease)
                       (renew_options (fsm_hostname f)) (fsm_hostname f);
               send = SendMsg msg (renew_dest lease)
           in if dr_clk dr 1 \<ge> rebind_early_at (dr_clk dr 0) lease
              then let wait = saturating_duration_since (lc_rebind_at lease) (dr_clk dr 2)
                   in ([send, ScheduleTimer wait], f\<lparr>fsm_state := SWaitToRebind lease\<rparr>)
              else let wait = max (saturating_duration_since (lc_rebind_at lease) (dr_clk dr 2) div 2) (from_secs 60)
                   in ([send, ScheduleTimer wait], f))
      | SWaitToRebind lease \<Rightarrow>
          on_timer dflt dr (Suc k)
            (f\<lparr>fsm_state := SRebind (lease\<lparr>lc_xid := dr_xid dr k, lc_yiaddr := 0\<rparr>), fsm_attempts := 0\<rparr>)
      | SRebind lease \<Rightarrow>
          (if dr_clk dr 1 > lc_lease_at lease then
             (let (actions, f') = on_timer dflt dr (Suc k)
                    (f\<lparr>fsm_state := DhcpState_init (dr_xid dr k) None, fsm_attempts := 0\<rparr>)
              in (ReleaseLease # actions, f'))
           else
             (let wait = max (saturating_duration_since (lc_lease_at lease) (dr_clk dr 2) div 2) (from_secs 60);
                  msg = gen_request dflt (lc_xid lease) (fsm_mac_addr f) (lc_ciaddr lease) (lc_yiaddr lease)
                          (renew_options (fsm_hostname f)) (fsm_hostname f)
              in ([SendMsg msg 0xffffffff, ScheduleTimer wait], f))))"
  by pat_completeness auto

text \<open>A state hands the timer on at most twice: from waiting to rebinding to a fresh discovery.\<close>

fun state_rank :: "'x DhcpState \<Rightarrow> nat" where
  "state_rank (SDiscovering _ _) = 0"
| "state_rank (SRequesting _ _) = 1"
| "state_rank (SBound _) = 1"
| "state_rank (SRenewing _) = 0"
| "state_rank (SWaitToRebind _) = 2"
| "state_rank (SRebind _) = 1"

termination on_timer
  by (relation "measure (\<lambda>(_, _, _, f). state_rank (fsm_state f))") (auto simp: DhcpState_init_def)

declare on_timer.simps [simp del]

definition current_xid :: "'x DhcpV4Fsm \<Rightarrow> u32" where
  "current_xid f =
     (case fsm_state f of SDiscovering xid _ \<Rightarrow> xid | SRequesting xid _ \<Rightarrow> xid | SBound l \<Rightarrow> lc_xid l
      | SRenewing l \<Rightarrow> lc_xid l | SWaitToRebind l \<Rightarrow> lc_xid l | SRebind l \<Rightarrow> lc_xid l)"

definition expected_yiaddr :: "'x DhcpV4Fsm \<Rightarrow> u32 option" where
  "expected_yiaddr f =
     (case fsm_state f of SDiscovering _ _ \<Rightarrow> None | SRequesting _ offer \<Rightarrow> Some (of_yiaddr offer)
      | SBound l \<Rightarrow> Some (lc_yiaddr l) | SRenewing l \<Rightarrow> Some (lc_yiaddr l)
      | SWaitToRebind l \<Rightarrow> Some (lc_yiaddr l) | SRebind l \<Rightarrow> Some (lc_yiaddr l))"

definition can_handle_message :: "MessageType \<Rightarrow> 'x DhcpV4Fsm \<Rightarrow> bool" where
  "can_handle_message message_type f =
     (case fsm_state f of SDiscovering _ _ \<Rightarrow> message_type = Offer | SBound _ \<Rightarrow> False
      | _ \<Rightarrow> message_type = Ack \<or> message_type = Nak)"

text \<open>
  \<open>handle_ack\<close>.  The \<open>expect\<close> of its first line never fires: it is called in states that expect an
  address (\<open>can_handle_message\<close>), so the missing case returns no action here.
\<close>

definition handle_ack :: "draws \<Rightarrow> 'x DhcpV4Message \<Rightarrow> 'x DhcpV4Fsm \<Rightarrow> 'x FsmAction list \<times> 'x DhcpV4Fsm" where
  "handle_ack dr dhcp f =
     (case expected_yiaddr f of
        None \<Rightarrow> ([], f)
      | Some expected \<Rightarrow>
          (if \<not> (expected = 0 \<or> dm_yiaddr dhcp = expected) then ([], f)
           else case get_renew_times (dm_opts dhcp) of
             None \<Rightarrow> ([], f)
           | Some (renew_time, rebinding_time, lease_time) \<Rightarrow>
               (case hm_get (dm_opts dhcp) 1 of
                  Some (SubnetMask m) \<Rightarrow>
                    (let now = dr_clk dr 0;
                         lease = \<lparr>lc_xid = dr_xid dr 0, lc_ciaddr = dm_ciaddr dhcp, lc_yiaddr = dm_yiaddr dhcp,
                                  lc_siaddr = dm_siaddr dhcp, lc_options = dm_opts dhcp,
                                  lc_renew_at = now + from_secs renew_time,
                                  lc_rebind_at = now + from_secs rebinding_time,
                                  lc_lease_at = now + from_secs lease_time\<rparr>
                     in ([BindLease \<lparr>lp_yiaddr = dm_yiaddr dhcp, lp_options = dm_opts dhcp,
                                     lp_prefix = word_of_nat (count_ones m),
                                     lp_renew_time = renew_time, lp_lease_time = lease_time\<rparr>,
                          ScheduleTimer (from_secs renew_time)],
                         f\<lparr>fsm_state := SBound lease, fsm_attempts := 0, fsm_connect_failure_count := 0\<rparr>))
                | _ \<Rightarrow> ([], f))))"

definition on_recv :: "draws \<Rightarrow> 'x DhcpV4Message \<Rightarrow> 'x DhcpV4Fsm \<Rightarrow> 'x FsmAction list \<times> 'x DhcpV4Fsm" where
  "on_recv dr dhcp f =
     (if dm_opcode dhcp \<noteq> BootReply then ([], f)
      else if dm_xid dhcp \<noteq> current_xid f then ([], f)
      else case hm_get (dm_opts dhcp) 53 of
        Some (MessageType msg_type) \<Rightarrow>
          (if \<not> can_handle_message msg_type f then ([], f)
           else case (msg_type, fsm_state f) of
             (Offer, SDiscovering _ _) \<Rightarrow>
               ([ScheduleTimer 0],
                f\<lparr>fsm_state := SRequesting (dm_xid dhcp)
                    \<lparr>of_yiaddr = dm_yiaddr dhcp, of_siaddr = dm_siaddr dhcp, of_options = dm_opts dhcp\<rparr>,
                  fsm_attempts := 0\<rparr>)
           | (Ack, SDiscovering _ _) \<Rightarrow> ([], f)
           | (Ack, SBound _) \<Rightarrow> ([], f)
           | (Ack, _) \<Rightarrow> handle_ack dr dhcp f
           | (Nak, SDiscovering _ _) \<Rightarrow> ([], f)
           | (Nak, SBound _) \<Rightarrow> ([], f)
           | (Nak, state) \<Rightarrow>
               (let had_lease = (case state of SRenewing _ \<Rightarrow> True | SWaitToRebind _ \<Rightarrow> True | SRebind _ \<Rightarrow> True | _ \<Rightarrow> False)
                in ((if had_lease then [ReleaseLease] else []) @ [ScheduleTimer 0],
                    f\<lparr>fsm_state := DhcpState_init (dr_xid dr 0) None, fsm_attempts := 0\<rparr>))
           | _ \<Rightarrow> ([], f))
      | _ \<Rightarrow> ([], f))"

fun on_event :: "'x DhcpV4Message \<Rightarrow> draws \<Rightarrow> 'x FsmEvent \<Rightarrow> 'x DhcpV4Fsm \<Rightarrow> 'x FsmAction list \<times> 'x DhcpV4Fsm" where
  "on_event dflt dr TimerFired f = on_timer dflt dr 0 f"
| "on_event dflt dr (Recv msg) f = on_recv dr msg f"

section \<open>What a lease does to the system\<close>

text \<open>Decimal output, as \<open>format!\<close> prints integers and addresses.\<close>

function display_nat :: "nat \<Rightarrow> bytes" where
  "display_nat n = (if n < 10 then [word_of_nat (48 + n)] else display_nat (n div 10) @ [word_of_nat (48 + n mod 10)])"
  by pat_completeness auto
termination
  by (relation "measure id") auto

declare display_nat.simps [simp del]

definition display_ipv4 :: "u32 \<Rightarrow> bytes" where
  "display_ipv4 ip = join_with 0x2e (map (\<lambda>b. display_nat (unat b)) (u32_to_be_bytes ip))"

definition display_cidr :: "u32 \<Rightarrow> nat \<Rightarrow> bytes" where
  "display_cidr ip plen = display_ipv4 ip @ [0x2f] @ display_nat plen"

text \<open>The words \<open>addr\<close>, \<open>del\<close>, \<open>replace\<close>, \<open>dev\<close>, \<open>brd\<close>, \<open>valid_lft\<close> and \<open>preferred_lft\<close>.\<close>

definition w_addr :: bytes where "w_addr = [0x61, 0x64, 0x64, 0x72]"
definition w_del :: bytes where "w_del = [0x64, 0x65, 0x6c]"
definition w_replace :: bytes where "w_replace = [0x72, 0x65, 0x70, 0x6c, 0x61, 0x63, 0x65]"
definition w_dev :: bytes where "w_dev = [0x64, 0x65, 0x76]"
definition w_brd :: bytes where "w_brd = [0x62, 0x72, 0x64]"
definition w_valid_lft :: bytes where
  "w_valid_lft = [0x76, 0x61, 0x6c, 0x69, 0x64, 0x5f, 0x6c, 0x66, 0x74]"
definition w_preferred_lft :: bytes where
  "w_preferred_lft = [0x70, 0x72, 0x65, 0x66, 0x65, 0x72, 0x72, 0x65, 0x64, 0x5f, 0x6c, 0x66, 0x74]"

definition build_del_args :: "u32 \<Rightarrow> u8 \<Rightarrow> bytes \<Rightarrow> bytes list" where
  "build_del_args ip plen iface_name = [w_addr, w_del, display_cidr ip (unat plen), w_dev, iface_name]"

definition build_replace_args ::
  "u32 \<Rightarrow> u32 \<Rightarrow> 'x DhcpV4Options \<Rightarrow> bytes \<Rightarrow> u64 \<Rightarrow> u64 \<Rightarrow> bytes list" where
  "build_replace_args yiaddr plen options iface_name renew_time lease_time =
     [w_addr, w_replace, display_cidr yiaddr (unat plen)]
     @ (case hm_get options 28 of Some (BroadcastAddr b) \<Rightarrow> [w_brd, display_ipv4 b] | _ \<Rightarrow> [])
     @ [w_dev, iface_name, w_valid_lft, display_nat (unat lease_time), w_preferred_lft, display_nat (unat renew_time)]"

record DhcpV4ClientServiceRuntimeConfig =
  cc_link_id :: u128
  cc_ifindex :: u32
  cc_iface_name :: bytes
  cc_mac_addr :: MacAddr
  cc_client_port :: u16
  cc_hostname :: bytes
  cc_default_router :: bool

record AppliedAddr =
  aa_ip :: u32
  aa_prefix :: u8

text \<open>
  The routes, with the addresses of the IPv4 case (\<open>IpAddr::V4\<close>) and the mode \<open>WanReachable\<close>, the only
  one used here.
\<close>

record LanRouteInfo =
  lan_ifindex :: u32
  lan_iface_name :: bytes
  lan_iface_ip :: u32
  lan_mac :: "MacAddr option"
  lan_prefix :: u8

record RouteTargetInfo =
  rti_ifindex :: u32
  rti_weight :: u32
  rti_mac :: "MacAddr option"
  rti_is_docker :: bool
  rti_default_route :: bool
  rti_iface_name :: bytes
  rti_iface_ip :: u32
  rti_gateway_ip :: u32
  rti_dev_only_nexthop :: bool

text \<open>Everything the client does to the outside.\<close>

datatype 'x client_effect =
    DisableRpFilter bytes
  | UpdateMode bool
  | SentDhcp "'x DhcpV4Message" u32
  | IpCommand "bytes list"
  | InsertLanRoute bytes LanRouteInfo
  | InsertLinkRoute u128 RouteTargetInfo
  | RemoveLanRoute bytes
  | RemoveLinkRoute u128
  | BindIpv4 u32 u32 "u32 option" u8 "MacAddr option"
  | UnbindIpv4 u32

definition gateway_of :: "'x DhcpV4Options \<Rightarrow> u32 option" where
  "gateway_of options = (case hm_get options 3 of Some (Router (r # _)) \<Rightarrow> Some r | _ \<Rightarrow> None)"

definition apply_lease ::
  "DhcpV4ClientServiceRuntimeConfig \<Rightarrow> 'x LeaseParams \<Rightarrow> AppliedAddr option \<Rightarrow> 'x client_effect list \<times> AppliedAddr option" where
  "apply_lease config params applied =
     (let prefix = ucast (lp_prefix params) :: u8;
          del = (case applied of
              Some prev \<Rightarrow> if aa_ip prev \<noteq> lp_yiaddr params \<or> aa_prefix prev \<noteq> prefix
                           then [IpCommand (build_del_args (aa_ip prev) (aa_prefix prev) (cc_iface_name config))] else []
            | None \<Rightarrow> []);
          args = build_replace_args (lp_yiaddr params) (lp_prefix params) (lp_options params) (cc_iface_name config)
                   (lp_renew_time params) (lp_lease_time params);
          lan_info = \<lparr>lan_ifindex = cc_ifindex config, lan_iface_name = cc_iface_name config,
                      lan_iface_ip = lp_yiaddr params, lan_mac = Some (cc_mac_addr config), lan_prefix = prefix\<rparr>;
          gateway_ip = gateway_of (lp_options params);
          link = (case gateway_ip of
              Some router_ip \<Rightarrow>
                [InsertLinkRoute (cc_link_id config)
                   \<lparr>rti_ifindex = cc_ifindex config, rti_weight = 1, rti_mac = Some (cc_mac_addr config),
                    rti_is_docker = False, rti_default_route = cc_default_router config,
                    rti_iface_name = cc_iface_name config, rti_iface_ip = lp_yiaddr params,
                    rti_gateway_ip = router_ip, rti_dev_only_nexthop = False\<rparr>]
            | None \<Rightarrow> [])
      in (del @ [IpCommand args, InsertLanRoute (cc_iface_name config) lan_info,
                 BindIpv4 (cc_ifindex config) (lp_yiaddr params) gateway_ip prefix (Some (cc_mac_addr config))] @ link,
          Some \<lparr>aa_ip = lp_yiaddr params, aa_prefix = prefix\<rparr>))"

text \<open>\<open>RealSystemOps::release\<close>, which also forgets the address; the session goes down with it.\<close>

definition release :: "DhcpV4ClientServiceRuntimeConfig \<Rightarrow> AppliedAddr option \<Rightarrow> 'x client_effect list" where
  "release config applied =
     (case applied of
        Some prev \<Rightarrow> [IpCommand (build_del_args (aa_ip prev) (aa_prefix prev) (cc_iface_name config))]
      | None \<Rightarrow> [])
     @ [RemoveLinkRoute (cc_link_id config), RemoveLanRoute (cc_iface_name config), UnbindIpv4 (cc_ifindex config)]"

section \<open>The driver\<close>

record ('x, 'c) dv =
  dv_fsm :: "'x DhcpV4Fsm"
  dv_applied :: "AppliedAddr option"
  dv_link :: "'c LinkState option"
  dv_v4 :: V4Runtime
  dv_cell :: ServiceStatusCell
  dv_timer :: Instant
  dv_effects :: "'x client_effect list"

datatype 'x dv_event =
    DvTimer draws
  | DvRecv draws "'x DhcpV4Message"
  | DvRecvError
  | DvStop

definition dv_emit :: "'x client_effect list \<Rightarrow> ('x, 'c) dv \<Rightarrow> ('x, 'c) dv" where
  "dv_emit es s = s\<lparr>dv_effects := dv_effects s @ es\<rparr>"

definition dv_session_down :: "('x, 'c) dv \<Rightarrow> ('x, 'c) dv" where
  "dv_session_down s = s\<lparr>dv_link := map_option (\<lambda>l. snd (session_down l)) (dv_link s)\<rparr>"

definition dv_release :: "DhcpV4ClientServiceRuntimeConfig \<Rightarrow> ('x, 'c) dv \<Rightarrow> ('x, 'c) dv" where
  "dv_release config s = dv_session_down (dv_emit (release config (dv_applied s)) s)\<lparr>dv_applied := None\<rparr>"

text \<open>The action loop; the timer is set at the third reading of the clock.\<close>

fun dv_action :: "DhcpV4ClientServiceRuntimeConfig \<Rightarrow> draws \<Rightarrow> 'x FsmAction \<Rightarrow> ('x, 'c) dv \<Rightarrow> ('x, 'c) dv" where
  "dv_action config dr (SendMsg msg dest) s = dv_emit [SentDhcp msg dest] s"
| "dv_action config dr (ScheduleTimer wait) s = s\<lparr>dv_timer := dr_clk dr 3 + wait\<rparr>"
| "dv_action config dr (BindLease params) s =
     (let (es, applied) = apply_lease config params (dv_applied s) in dv_emit es s\<lparr>dv_applied := applied\<rparr>)"
| "dv_action config dr ReleaseLease s = dv_session_down (dv_release config s)"

definition dv_set_v4 :: "V4Runtime \<Rightarrow> ('x, 'c) dv \<Rightarrow> ('x, 'c) dv" where
  "dv_set_v4 v s = s\<lparr>dv_v4 := snd (swap_if_changed (dv_v4 s) v)\<rparr>"

definition dv_update_session :: "DhcpV4ClientServiceRuntimeConfig \<Rightarrow> ('x, 'c) dv \<Rightarrow> ('x, 'c) dv" where
  "dv_update_session config s =
     s\<lparr>dv_link := map_option (\<lambda>l.
         case leased_ip (dv_fsm s) of
           Some ip \<Rightarrow> snd (session_up (SessionIface_new (cc_ifindex config) (cc_iface_name config) (Some (cc_mac_addr config)))
                        (Some (WanV4Lease_new (cc_ifindex config) ip)) l)
         | None \<Rightarrow> snd (session_down l)) (dv_link s)\<rparr>"

definition dv_handle ::
  "DhcpV4ClientServiceRuntimeConfig \<Rightarrow> 'x DhcpV4Message \<Rightarrow> draws \<Rightarrow> 'x FsmEvent \<Rightarrow> ('x, 'c) dv \<Rightarrow> ('x, 'c) dv" where
  "dv_handle config dflt dr event s =
     (let (actions, f) = on_event dflt dr event (dv_fsm s);
          s1 = fold (dv_action config dr) actions (s\<lparr>dv_fsm := f\<rparr>)
      in dv_set_v4 (Dhcp (runtime_status f)) s1)"

definition dv_exit :: "DhcpV4ClientServiceRuntimeConfig \<Rightarrow> ('x, 'c) dv \<Rightarrow> ('x, 'c) dv" where
  "dv_exit config s =
     (let s1 = dv_set_v4 Stopped (dv_release config s)
      in if \<not> is_stop (dv_cell s1)
         then s1\<lparr>dv_cell := just_change_status (if is_exit (dv_cell s1) then Stop else Failed) (dv_cell s1)\<rparr>
         else s1)"

text \<open>
  One round of the loop, on the event \<open>select!\<close> picks; the flag tells whether the client leaves the
  loop.  A stop cancels the token from outside.
\<close>

definition dv_step ::
  "DhcpV4ClientServiceRuntimeConfig \<Rightarrow> 'x DhcpV4Message \<Rightarrow> 'x dv_event \<Rightarrow> ('x, 'c) dv \<Rightarrow> bool \<times> ('x, 'c) dv" where
  "dv_step config dflt ev s =
     (let s = dv_emit [UpdateMode (is_initial_phase (dv_fsm s))] s
      in case ev of
           DvTimer dr \<Rightarrow> (False, dv_handle config dflt dr TimerFired s)
         | DvRecv dr msg \<Rightarrow> (False, dv_update_session config (dv_handle config dflt dr (Recv msg) s))
         | DvRecvError \<Rightarrow> (False, s)
         | DvStop \<Rightarrow> (True, dv_exit config (s\<lparr>dv_cell := request_stop (dv_cell s)\<rparr>)))"

fun dv_loop ::
  "DhcpV4ClientServiceRuntimeConfig \<Rightarrow> 'x DhcpV4Message \<Rightarrow> 'x dv_event list \<Rightarrow> ('x, 'c) dv \<Rightarrow> bool \<times> ('x, 'c) dv" where
  "dv_loop config dflt [] s = (False, s)"
| "dv_loop config dflt (ev # evs) s =
     (let (stop, s') = dv_step config dflt ev s in if stop then (True, s') else dv_loop config dflt evs s')"

definition dv_start :: "DhcpV4ClientServiceRuntimeConfig \<Rightarrow> u32 \<Rightarrow> Instant \<Rightarrow> 'c LinkState option \<Rightarrow> V4Runtime \<Rightarrow> ('x, 'c) dv" where
  "dv_start config xid now link v4 =
     (let f = DhcpV4Fsm_new xid (cc_mac_addr config) (cc_hostname config);
          cell = just_change_status Running (just_change_status Staring ServiceStatusCell_new)
      in dv_set_v4 (Dhcp (runtime_status f))
           \<lparr>dv_fsm = f, dv_applied = None, dv_link = link, dv_v4 = v4, dv_cell = cell, dv_timer = now,
            dv_effects = [DisableRpFilter (cc_iface_name config)]\<rparr>)"

definition run_with ::
  "DhcpV4ClientServiceRuntimeConfig \<Rightarrow> 'x DhcpV4Message \<Rightarrow> u32 \<Rightarrow> Instant \<Rightarrow> 'c LinkState option \<Rightarrow> V4Runtime \<Rightarrow>
     'x dv_event list \<Rightarrow> bool \<times> ('x, 'c) dv" where
  "run_with config dflt xid now link v4 evs = dv_loop config dflt evs (dv_start config xid now link v4)"

section \<open>Renewal times\<close>

lemma clamp_range: "lo \<le> hi \<Longrightarrow> lo \<le> clamp lo hi x \<and> clamp lo hi x \<le> hi"
  by (auto simp: clamp_def not_less)

lemma word_pred_less: "2 \<le> (l :: u64) \<Longrightarrow> 1 \<le> l - 1 \<and> (r \<le> l - 1 \<longrightarrow> r < r + 1 \<and> r + 1 \<le> l)"
  by unat_arith

text \<open>Both clamps get their bounds in order, and so the three times are in order.\<close>

lemma get_renew_times_clamps:
  assumes "2 \<le> (l :: u64)"
  shows "1 \<le> l - 1" and "clamp 1 (l - 1) x + 1 \<le> l"
  using word_pred_less [OF assms] clamp_range [of 1 "l - 1" x] by blast+

lemma renew_chain:
  assumes "2 \<le> (l :: u64)"
  shows "1 \<le> clamp 1 (l - 1) x \<and> clamp 1 (l - 1) x < clamp (clamp 1 (l - 1) x + 1) l y \<and>
    clamp (clamp 1 (l - 1) x + 1) l y \<le> l"
proof -
  let ?r = "clamp 1 (l - 1) x"
  have r: "1 \<le> ?r" "?r \<le> l - 1" using clamp_range [OF get_renew_times_clamps(1) [OF assms]] by blast+
  have "?r < ?r + 1" using word_pred_less [OF assms, of ?r] r(2) by blast
  moreover have "?r + 1 \<le> clamp (?r + 1) l y" "clamp (?r + 1) l y \<le> l"
    using clamp_range [OF get_renew_times_clamps(2) [OF assms]] by blast+
  ultimately show ?thesis using r by (meson less_le_trans)
qed

lemma lease_secs_bounds: "2 \<le> max (ucast (t :: u32) :: u64) 2 \<and> max (ucast t :: u64) 2 \<le> 0xffffffff"
proof -
  have t: "unat t < 2 ^ 64" by (rule less_trans [OF unat_u32_less]) simp
  have t': "unat t < 4294967296" by (rule unat_u32_less)
  have "unat (ucast t :: u64) = take_bit 64 (unat t)" by (simp add: unsigned_ucast_eq)
  also have "\<dots> = unat t" by (rule take_bit_nat_eq_self) (rule t)
  finally have u: "unat (ucast t :: u64) = unat t" .
  have "(ucast t :: u64) \<le> 0xffffffff" unfolding word_le_nat_alt u using t' by (simp del: unat_u32_less)
  then show ?thesis by (auto simp: max_def not_le less_imp_le)
qed

lemma get_renew_times_bounds:
  assumes "get_renew_times options = Some (renew, rebind, lease)"
  shows "1 \<le> renew" and "renew < rebind" and "rebind \<le> lease" and "lease \<le> 0xffffffff"
proof -
  obtain t where t: "hm_get options 51 = Some (AddressLeaseTime t)"
  proof (cases "hm_get options 51")
    case (Some opt)
    with assms that show ?thesis by (cases opt) (simp_all add: get_renew_times_def)
  qed (use assms in \<open>simp add: get_renew_times_def\<close>)
  then obtain x y where "lease = max (ucast t) 2" "renew = clamp 1 (lease - 1) x" "rebind = clamp (renew + 1) lease y"
    using assms by (auto simp: get_renew_times_def Let_def)
  with renew_chain lease_secs_bounds show "1 \<le> renew" and "renew < rebind" and "rebind \<le> lease" and "lease \<le> 0xffffffff"
    by blast+
qed

lemma from_secs_mono: "a \<le> b \<Longrightarrow> from_secs a \<le> from_secs b"
  by (simp add: from_secs_def NANOS_PER_SEC_def word_le_def)

lemma from_secs_nonneg [simp]: "0 \<le> from_secs a"
  by (simp add: from_secs_def NANOS_PER_SEC_def)

lemma from_secs_less: "a < b \<Longrightarrow> from_secs a + NANOS_PER_SEC \<le> from_secs b"
proof -
  assume "a < b"
  then have "uint a + 1 \<le> uint b" by (simp add: word_less_def)
  then have "(uint a + 1) * NANOS_PER_SEC \<le> uint b * NANOS_PER_SEC"
    by (rule mult_right_mono) (simp add: NANOS_PER_SEC_def)
  then show ?thesis by (simp add: from_secs_def algebra_simps)
qed

lemma from_secs_number: "from_secs 60 = 60000000000"
  by (simp add: from_secs_def NANOS_PER_SEC_def)

lemma backoff_min:
  assumes "1 \<le> uint p" and "uint p \<le> 2 ^ 31"
  shows "4 \<le> min (saturating_mul DEFAULT_TIME_OUT p) MAX_CONNECT_RETRY_BACKOFF_SECS \<and>
    min (saturating_mul DEFAULT_TIME_OUT p) MAX_CONNECT_RETRY_BACKOFF_SECS \<le> 600"
proof -
  have "saturating_mul DEFAULT_TIME_OUT p = 4 * p"
    using assms(2) by (simp add: saturating_mul_def DEFAULT_TIME_OUT_def)
  moreover have "uint (4 * p) = 4 * uint p" using assms uint_mult_lem [of 4 p] by simp
  then have "4 \<le> 4 * p" using assms(1) by (simp add: word_le_def)
  ultimately show ?thesis by (simp add: MAX_CONNECT_RETRY_BACKOFF_SECS_def)
qed

lemma backoff_bounds:
  "4 \<le> calc_connect_retry_backoff_secs n \<and> calc_connect_retry_backoff_secs n \<le> 600"
proof -
  let ?e = "unat (min (saturating_sub n 1) 31)"
  have e: "?e \<le> 31" by (simp add: min_def word_le_nat_alt)
  have l: "(2 :: int) ^ ?e < 2 ^ 64" using e by (intro power_strict_increasing) auto
  have "uint (push_bit ?e 1 :: u64) = take_bit 64 (push_bit ?e 1)" unfolding unsigned_push_bit_eq by simp
  also have "\<dots> = 2 ^ ?e" unfolding push_bit_of_1 using l by (intro take_bit_int_eq_self) simp_all
  finally have p: "uint (push_bit ?e 1 :: u64) = 2 ^ ?e" .
  have "(2 :: int) ^ ?e \<le> 2 ^ 31" using e by (intro power_increasing) auto
  then show ?thesis
    unfolding calc_connect_retry_backoff_secs_def Let_def by (intro backoff_min) (simp_all only: p one_le_power)
qed

lemma retry_wait_bounds: "3 * NANOS_PER_SEC \<le> retry_wait j n \<and> retry_wait j n \<le> 65 * NANOS_PER_SEC"
proof -
  define e m where "e = unat (min (saturating_sub_u64 n 1) 4)" and "m = j mod 3"
  have w: "retry_wait j n = from_secs (saturating_mul 4 (push_bit e 1) - 1 + ucast m)"
    by (simp add: retry_wait_def Let_def e_def m_def DEFAULT_TIME_OUT_def)
  have "e \<le> 4" by (simp add: e_def min_def word_le_nat_alt)
  then have "e \<in> {0, 1, 2, 3, 4}" by auto
  moreover have "unat m < 3" by (simp add: m_def unat_mod_distrib)
  then have "unat m \<in> {0, 1, 2}" by auto
  then have "m = 0 \<or> m = 1 \<or> m = 2" by (auto simp: word_unat_eq_iff)
  ultimately show ?thesis
    unfolding w by (auto simp: saturating_mul_def from_secs_def NANOS_PER_SEC_def)
qed

section \<open>What a timer event does\<close>

text \<open>The machine before the timer is handed on: the state that answers it.\<close>

lemma on_timer_discovering:
  "fsm_state f = SDiscovering xid requested \<Longrightarrow> on_timer dflt dr k f =
     (if fsm_attempts f \<ge> DISCOVER_ATTEMPTS_PER_ROUND then
        ([ScheduleTimer (from_secs (calc_connect_retry_backoff_secs (saturating_add (fsm_connect_failure_count f) 1)))],
         f\<lparr>fsm_connect_failure_count := saturating_add (fsm_connect_failure_count f) 1,
           fsm_state := SDiscovering (dr_xid dr k) None, fsm_attempts := 0\<rparr>)
      else
        ([SendMsg (gen_discover dflt xid (fsm_mac_addr f) requested (fsm_hostname f) (fsm_attempts f + 1 \<le> 2)) 0xffffffff,
          ScheduleTimer (retry_wait (dr_jitter dr) (fsm_attempts f + 1))], f\<lparr>fsm_attempts := fsm_attempts f + 1\<rparr>))"
  by (subst on_timer.simps) (simp add: Let_def DhcpState_init_def)

lemma on_timer_fresh:
  "fsm_attempts f = 0 \<Longrightarrow> fsm_state f = SDiscovering xid requested \<Longrightarrow> on_timer dflt dr k f =
     ([SendMsg (gen_discover dflt xid (fsm_mac_addr f) requested (fsm_hostname f) True) 0xffffffff,
       ScheduleTimer (retry_wait (dr_jitter dr) 1)], f\<lparr>fsm_attempts := 1\<rparr>)"
  by (simp add: on_timer_discovering DISCOVER_ATTEMPTS_PER_ROUND_def)

lemma on_timer_requesting:
  "fsm_state f = SRequesting xid offer \<Longrightarrow> on_timer dflt dr k f =
     (if fsm_attempts f \<ge> REQUEST_ATTEMPTS then
        ([SendMsg (gen_discover dflt (dr_xid dr k) (fsm_mac_addr f) None (fsm_hostname f) True) 0xffffffff,
          ScheduleTimer (retry_wait (dr_jitter dr) 1)],
         f\<lparr>fsm_state := SDiscovering (dr_xid dr k) None, fsm_attempts := 1\<rparr>)
      else
        ([SendMsg (gen_request dflt xid (fsm_mac_addr f) 0 (of_yiaddr offer) (select_options offer) (fsm_hostname f)) 0xffffffff,
          ScheduleTimer (retry_wait (dr_jitter dr) (fsm_attempts f + 1))], f\<lparr>fsm_attempts := fsm_attempts f + 1\<rparr>))"
  by (subst on_timer.simps) (simp add: Let_def DhcpState_init_def on_timer_fresh)

definition renew_msg :: "'x DhcpV4Message \<Rightarrow> 'x DhcpV4Fsm \<Rightarrow> 'x LeaseContext \<Rightarrow> 'x DhcpV4Message" where
  "renew_msg dflt f lease = gen_request dflt (lc_xid lease) (fsm_mac_addr f) (lc_ciaddr lease) (lc_yiaddr lease)
     (renew_options (fsm_hostname f)) (fsm_hostname f)"

definition renew_wait :: "draws \<Rightarrow> Instant \<Rightarrow> Duration" where
  "renew_wait dr t = max (saturating_duration_since t (dr_clk dr 2) div 2) (from_secs 60)"

lemma on_timer_renewing:
  "fsm_state f = SRenewing lease \<Longrightarrow> on_timer dflt dr k f =
     (if dr_clk dr 1 \<ge> rebind_early_at (dr_clk dr 0) lease
      then ([SendMsg (renew_msg dflt f lease) (renew_dest lease),
             ScheduleTimer (saturating_duration_since (lc_rebind_at lease) (dr_clk dr 2))], f\<lparr>fsm_state := SWaitToRebind lease\<rparr>)
      else ([SendMsg (renew_msg dflt f lease) (renew_dest lease), ScheduleTimer (renew_wait dr (lc_rebind_at lease))], f))"
  by (subst on_timer.simps) (simp add: Let_def renew_msg_def renew_wait_def)

definition to_renewing :: "draws \<Rightarrow> nat \<Rightarrow> 'x LeaseContext \<Rightarrow> 'x LeaseContext" where
  "to_renewing dr k lease = lease\<lparr>lc_xid := dr_xid dr k, lc_ciaddr := lc_yiaddr lease, lc_yiaddr := 0\<rparr>"

definition to_rebind :: "draws \<Rightarrow> nat \<Rightarrow> 'x LeaseContext \<Rightarrow> 'x LeaseContext" where
  "to_rebind dr k lease = lease\<lparr>lc_xid := dr_xid dr k, lc_yiaddr := 0\<rparr>"

lemma on_timer_bound:
  "fsm_state f = SBound lease \<Longrightarrow> on_timer dflt dr k f =
     on_timer dflt dr (Suc k) (f\<lparr>fsm_state := SRenewing (to_renewing dr k lease), fsm_attempts := 0\<rparr>)"
  by (subst on_timer.simps) (simp add: to_renewing_def)

lemma on_timer_rebind:
  "fsm_state f = SRebind lease \<Longrightarrow> on_timer dflt dr k f =
     (if dr_clk dr 1 > lc_lease_at lease
      then ([ReleaseLease,
             SendMsg (gen_discover dflt (dr_xid dr k) (fsm_mac_addr f) None (fsm_hostname f) True) 0xffffffff,
             ScheduleTimer (retry_wait (dr_jitter dr) 1)],
            f\<lparr>fsm_state := SDiscovering (dr_xid dr k) None, fsm_attempts := 1\<rparr>)
      else ([SendMsg (renew_msg dflt f lease) 0xffffffff, ScheduleTimer (renew_wait dr (lc_lease_at lease))], f))"
  by (subst on_timer.simps)
    (simp add: Let_def DhcpState_init_def on_timer_fresh split_beta renew_msg_def renew_wait_def)

lemma on_timer_wait_to_rebind:
  "fsm_state f = SWaitToRebind lease \<Longrightarrow> on_timer dflt dr k f =
     on_timer dflt dr (Suc k) (f\<lparr>fsm_state := SRebind (to_rebind dr k lease), fsm_attempts := 0\<rparr>)"
  by (subst on_timer.simps) (simp add: to_rebind_def)

text \<open>The answering state: where the timer is handed to.\<close>

definition timer_state :: "draws \<Rightarrow> 'x DhcpV4Fsm \<Rightarrow> nat \<times> 'x DhcpV4Fsm" where
  "timer_state dr f =
     (case fsm_state f of
        SBound l \<Rightarrow> (1, f\<lparr>fsm_state := SRenewing (to_renewing dr 0 l), fsm_attempts := 0\<rparr>)
      | SWaitToRebind l \<Rightarrow> (1, f\<lparr>fsm_state := SRebind (to_rebind dr 0 l), fsm_attempts := 0\<rparr>)
      | _ \<Rightarrow> (0, f))"

lemma on_timer_handed: "on_timer dflt dr 0 f = (case timer_state dr f of (k, f') \<Rightarrow> on_timer dflt dr k f')"
  by (simp add: timer_state_def on_timer_bound on_timer_wait_to_rebind split: DhcpState.split)

lemma timer_state_kinds:
  "(\<exists>xid r. fsm_state (snd (timer_state dr f)) = SDiscovering xid r) \<or>
   (\<exists>xid offer. fsm_state (snd (timer_state dr f)) = SRequesting xid offer) \<or>
   (\<exists>l. fsm_state (snd (timer_state dr f)) = SRenewing l) \<or> (\<exists>l. fsm_state (snd (timer_state dr f)) = SRebind l)"
  by (simp add: timer_state_def split: DhcpState.split)

section \<open>Well-formed machines\<close>

definition lease_wf :: "'x LeaseContext \<Rightarrow> bool" where
  "lease_wf l \<longleftrightarrow> lc_renew_at l + NANOS_PER_SEC \<le> lc_rebind_at l \<and> lc_rebind_at l \<le> lc_lease_at l"

text \<open>
  A machine with a lease holds an address: in \<open>Bound\<close> it is the address of the last \<open>ACK\<close>, later it
  has moved to \<open>ciaddr\<close> and \<open>yiaddr\<close> is free for the answer.
\<close>

definition fsm_wf :: "'x DhcpV4Fsm \<Rightarrow> bool" where
  "fsm_wf f \<longleftrightarrow>
     (case fsm_state f of
        SDiscovering _ _ \<Rightarrow> fsm_attempts f \<le> 4
      | SRequesting _ _ \<Rightarrow> fsm_attempts f \<le> 3
      | SBound l \<Rightarrow> lease_wf l \<and> lc_yiaddr l \<noteq> 0 \<and> fsm_attempts f = 0
      | SRenewing l \<Rightarrow> lease_wf l \<and> lc_yiaddr l = 0 \<and> lc_ciaddr l \<noteq> 0 \<and> fsm_attempts f = 0
      | SWaitToRebind l \<Rightarrow> lease_wf l \<and> lc_yiaddr l = 0 \<and> lc_ciaddr l \<noteq> 0 \<and> fsm_attempts f = 0
      | SRebind l \<Rightarrow> lease_wf l \<and> lc_yiaddr l = 0 \<and> lc_ciaddr l \<noteq> 0 \<and> fsm_attempts f = 0)"

lemma timer_state_wf: "fsm_wf f \<Longrightarrow> fsm_wf (snd (timer_state dr f))"
  by (auto simp: timer_state_def fsm_wf_def to_renewing_def to_rebind_def lease_wf_def split: DhcpState.splits)

lemma timer_state_lease:
  "fsm_wf f \<Longrightarrow> map_option lease_ip (lease_of (fsm_state (snd (timer_state dr f)))) = map_option lease_ip (lease_of (fsm_state f))"
  by (auto simp: timer_state_def fsm_wf_def to_renewing_def to_rebind_def lease_ip_def split: DhcpState.splits)

lemma attempts_succ: "fsm_attempts f \<le> n \<Longrightarrow> \<not> m \<le> fsm_attempts f \<Longrightarrow> m \<le> 4 \<Longrightarrow> fsm_attempts f + 1 \<le> m" for m :: u64
  by unat_arith

definition quiet :: "'x FsmAction \<Rightarrow> bool" where
  "quiet a \<longleftrightarrow> (case a of SendMsg _ _ \<Rightarrow> True | ScheduleTimer _ \<Rightarrow> True | _ \<Rightarrow> False)"

text \<open>
  A timer event keeps the machine well-formed; it keeps its address, silently, or gives it up with a
  \<open>ReleaseLease\<close>; and it always ends in arming the timer again.
\<close>

lemma on_timer_effect:
  assumes "fsm_wf f" and "on_timer dflt dr 0 f = (actions, f')"
  shows "fsm_wf f' \<and>
    (list_all quiet actions \<and> leased_ip f' = leased_ip f \<or>
     leased_ip f \<noteq> None \<and> leased_ip f' = None \<and> hd actions = ReleaseLease \<and> list_all quiet (tl actions)) \<and>
    (\<exists>pre wait. actions = pre @ [ScheduleTimer wait] \<and> 0 \<le> wait)"
proof -
  obtain k g where g: "timer_state dr f = (k, g)" by (cases "timer_state dr f")
  have wf: "fsm_wf g" and ip: "leased_ip g = leased_ip f"
    using timer_state_wf [OF assms(1), of dr] timer_state_lease [OF assms(1), of dr] by (simp_all add: g leased_ip_def)
  have t: "on_timer dflt dr k g = (actions, f')" using assms(2) by (simp add: on_timer_handed g)
  have rw: "0 \<le> retry_wait j n" for j n
    using retry_wait_bounds [of j n] by (simp add: NANOS_PER_SEC_def)
  have sd: "0 \<le> saturating_duration_since a b" for a b by (simp add: saturating_duration_since_def)
  have w: "0 \<le> renew_wait dr a" for a by (simp add: renew_wait_def le_max_iff_disj)
  consider (d) xid r where "fsm_state g = SDiscovering xid r" | (q) xid offer where "fsm_state g = SRequesting xid offer"
    | (n) l where "fsm_state g = SRenewing l" | (b) l where "fsm_state g = SRebind l"
    using timer_state_kinds [of dr f] by (auto simp: g)
  then show ?thesis
  proof cases
    case d
    with t wf ip rw show ?thesis
      by (auto simp: on_timer_discovering fsm_wf_def quiet_def leased_ip_def DISCOVER_ATTEMPTS_PER_ROUND_def
          attempts_succ split: if_splits)
  next
    case q
    with t wf ip rw show ?thesis
      by (auto simp: on_timer_requesting fsm_wf_def quiet_def leased_ip_def REQUEST_ATTEMPTS_def
          attempts_succ split: if_splits)
  next
    case n
    with t wf ip sd w show ?thesis
      by (auto simp: on_timer_renewing fsm_wf_def quiet_def leased_ip_def split: if_splits)
  next
    case b
    with t wf ip rw w show ?thesis
      by (auto simp: on_timer_rebind fsm_wf_def quiet_def leased_ip_def split: if_splits)
  qed
qed

section \<open>What a message does\<close>

text \<open>
  The four things a message can do: nothing, start a request, bind a lease, or send the machine back
  to discovery, which gives up the lease if there is one.
\<close>

inductive recv_effect :: "draws \<Rightarrow> 'x DhcpV4Message \<Rightarrow> 'x DhcpV4Fsm \<Rightarrow> 'x FsmAction list \<Rightarrow> 'x DhcpV4Fsm \<Rightarrow> bool"
  for dr dhcp f where
  ignored: "recv_effect dr dhcp f [] f"
| offered: "opts_msg_type (dm_opts dhcp) = Some Offer \<Longrightarrow> fsm_state f = SDiscovering (dm_xid dhcp) requested \<Longrightarrow>
     recv_effect dr dhcp f [ScheduleTimer 0]
       (f\<lparr>fsm_state := SRequesting (dm_xid dhcp)
            \<lparr>of_yiaddr = dm_yiaddr dhcp, of_siaddr = dm_siaddr dhcp, of_options = dm_opts dhcp\<rparr>, fsm_attempts := 0\<rparr>)"
| acked: "opts_msg_type (dm_opts dhcp) = Some Ack \<Longrightarrow> handle_ack dr dhcp f = ([BindLease params, ScheduleTimer wait], f') \<Longrightarrow>
     recv_effect dr dhcp f [BindLease params, ScheduleTimer wait] f'"
| naked: "opts_msg_type (dm_opts dhcp) = Some Nak \<Longrightarrow>
     recv_effect dr dhcp f ((if lease_of (fsm_state f) = None then [] else [ReleaseLease]) @ [ScheduleTimer 0])
       (f\<lparr>fsm_state := SDiscovering (dr_xid dr 0) None, fsm_attempts := 0\<rparr>)"

lemma handle_ack_cases:
  "handle_ack dr dhcp f = ([], f) \<or>
   (\<exists>m renew rebind lease expected.
      hm_get (dm_opts dhcp) 1 = Some (SubnetMask m) \<and> get_renew_times (dm_opts dhcp) = Some (renew, rebind, lease) \<and>
      expected_yiaddr f = Some expected \<and> (expected = 0 \<or> dm_yiaddr dhcp = expected) \<and>
      handle_ack dr dhcp f =
        ([BindLease \<lparr>lp_yiaddr = dm_yiaddr dhcp, lp_options = dm_opts dhcp, lp_prefix = word_of_nat (count_ones m),
                     lp_renew_time = renew, lp_lease_time = lease\<rparr>, ScheduleTimer (from_secs renew)],
         f\<lparr>fsm_state := SBound \<lparr>lc_xid = dr_xid dr 0, lc_ciaddr = dm_ciaddr dhcp, lc_yiaddr = dm_yiaddr dhcp,
             lc_siaddr = dm_siaddr dhcp, lc_options = dm_opts dhcp, lc_renew_at = dr_clk dr 0 + from_secs renew,
             lc_rebind_at = dr_clk dr 0 + from_secs rebind, lc_lease_at = dr_clk dr 0 + from_secs lease\<rparr>,
           fsm_attempts := 0, fsm_connect_failure_count := 0\<rparr>))"
proof (cases "expected_yiaddr f")
  case (Some e)
  note e = Some
  show ?thesis
  proof (cases "(e = 0 \<or> dm_yiaddr dhcp = e) \<and> get_renew_times (dm_opts dhcp) \<noteq> None")
    case True
    then obtain r b l where r: "get_renew_times (dm_opts dhcp) = Some (r, b, l)" by auto
    show ?thesis
    proof (cases "hm_get (dm_opts dhcp) 1")
      case (Some opt)
      with e True r show ?thesis by (cases opt) (simp_all add: handle_ack_def Let_def)
    qed (use e True r in \<open>simp add: handle_ack_def\<close>)
  next
    case False
    with e show ?thesis by (cases "get_renew_times (dm_opts dhcp)") (auto simp: handle_ack_def)
  qed
qed (simp add: handle_ack_def)

lemma on_recv_effect:
  assumes "on_recv dr dhcp f = (actions, f')"
  shows "recv_effect dr dhcp f actions f'"
proof (cases "opts_msg_type (dm_opts dhcp)")
  case None
  then have "on_recv dr dhcp f = ([], f)"
    by (auto simp: on_recv_def opts_msg_type_def split: option.splits DhcpV4Option.splits)
  with assms show ?thesis by (simp add: recv_effect.ignored)
next
  case (Some t)
  then have m: "hm_get (dm_opts dhcp) 53 = Some (MessageType t)"
    by (auto simp: opts_msg_type_def split: option.splits DhcpV4Option.splits)
  show ?thesis
  proof (cases "dm_opcode dhcp = BootReply \<and> dm_xid dhcp = current_xid f \<and> can_handle_message t f")
    case False
    then have "on_recv dr dhcp f = ([], f)"
      using m by (cases "dm_opcode dhcp = BootReply"; cases "dm_xid dhcp = current_xid f") (simp_all add: on_recv_def)
    with assms show ?thesis by (simp add: recv_effect.ignored)
  next
    case True
    consider (o) xid r where "t = Offer" "fsm_state f = SDiscovering xid r"
      | (a) "t = Ack" "lease_of (fsm_state f) \<noteq> None \<or> (\<exists>xid q. fsm_state f = SRequesting xid q)" "\<forall>l. fsm_state f \<noteq> SBound l"
      | (n) "t = Nak" "lease_of (fsm_state f) \<noteq> None \<or> (\<exists>xid q. fsm_state f = SRequesting xid q)" "\<forall>l. fsm_state f \<noteq> SBound l"
      using True by (cases "fsm_state f") (auto simp: can_handle_message_def)
    then show ?thesis
    proof cases
      case o
      then have "on_recv dr dhcp f = ([ScheduleTimer 0], f\<lparr>fsm_state := SRequesting (dm_xid dhcp)
            \<lparr>of_yiaddr = dm_yiaddr dhcp, of_siaddr = dm_siaddr dhcp, of_options = dm_opts dhcp\<rparr>, fsm_attempts := 0\<rparr>)"
        using True m by (simp add: on_recv_def)
      moreover have "xid = dm_xid dhcp" using True o by (simp add: current_xid_def)
      ultimately show ?thesis using assms o Some recv_effect.offered [of dhcp f r dr] by simp
    next
      case a
      then have "on_recv dr dhcp f = handle_ack dr dhcp f"
        using True m by (cases "fsm_state f") (simp_all add: on_recv_def)
      with assms Some a show ?thesis
        using handle_ack_cases [of dr dhcp f] recv_effect.acked [of dhcp dr f] by (auto intro: recv_effect.ignored)
    next
      case n
      then have "on_recv dr dhcp f = ((if lease_of (fsm_state f) = None then [] else [ReleaseLease]) @ [ScheduleTimer 0],
          f\<lparr>fsm_state := SDiscovering (dr_xid dr 0) None, fsm_attempts := 0\<rparr>)"
        using True m by (cases "fsm_state f") (simp_all add: on_recv_def Let_def DhcpState_init_def)
      with assms Some n show ?thesis using recv_effect.naked [of dhcp dr f] by simp
    qed
  qed
qed

lemma acked_wf:
  assumes "handle_ack dr dhcp f = ([BindLease params, ScheduleTimer wait], f')" and "dm_yiaddr dhcp \<noteq> 0"
  shows "\<exists>l. fsm_state f' = SBound l \<and> fsm_wf f' \<and> lc_yiaddr l = lp_yiaddr params \<and> lp_yiaddr params = dm_yiaddr dhcp \<and>
    unat (lp_prefix params) \<le> 32 \<and> lc_renew_at l = dr_clk dr 0 + wait \<and> 0 \<le> wait"
proof -
  obtain m renew rebind lease where t: "get_renew_times (dm_opts dhcp) = Some (renew, rebind, lease)"
    and h: "params = \<lparr>lp_yiaddr = dm_yiaddr dhcp, lp_options = dm_opts dhcp, lp_prefix = word_of_nat (count_ones m),
                     lp_renew_time = renew, lp_lease_time = lease\<rparr>" "wait = from_secs renew"
      "f' = f\<lparr>fsm_state := SBound \<lparr>lc_xid = dr_xid dr 0, lc_ciaddr = dm_ciaddr dhcp, lc_yiaddr = dm_yiaddr dhcp,
             lc_siaddr = dm_siaddr dhcp, lc_options = dm_opts dhcp, lc_renew_at = dr_clk dr 0 + from_secs renew,
             lc_rebind_at = dr_clk dr 0 + from_secs rebind, lc_lease_at = dr_clk dr 0 + from_secs lease\<rparr>,
           fsm_attempts := 0, fsm_connect_failure_count := 0\<rparr>"
    using handle_ack_cases [of dr dhcp f] assms(1) by auto
  have c: "count_ones m \<le> 32"
    using length_filter_le [of "bit m" "[0..<32]"] by (simp add: count_ones_def)
  have "unat (word_of_nat (count_ones m) :: u32) \<le> 32"
    by (rule order_trans [OF _ c]) (simp add: unsigned_of_nat take_bit_nat_less_eq_self)
  moreover have "from_secs renew + NANOS_PER_SEC \<le> from_secs rebind" "from_secs rebind \<le> from_secs lease"
    using get_renew_times_bounds [OF t] by (simp_all add: from_secs_less from_secs_mono)
  ultimately show ?thesis using assms(2) by (simp add: h fsm_wf_def lease_wf_def)
qed

lemma on_recv_wf:
  assumes "fsm_wf f" and "on_recv dr dhcp f = (actions, f')" and "opts_msg_type (dm_opts dhcp) = Some Ack \<longrightarrow> dm_yiaddr dhcp \<noteq> 0"
  shows "fsm_wf f'"
  using on_recv_effect [OF assms(2)]
proof cases
  case (acked params wait)
  then show ?thesis using acked_wf assms(3) by blast
qed (use assms(1) in \<open>auto simp: fsm_wf_def\<close>)

section \<open>The system the client leaves behind\<close>

text \<open>
  What the effects amount to: the addresses \<open>ip addr\<close> leaves on the interface, the two routes and the
  address bound in the data path.
\<close>

record kernel =
  kn_addrs :: "bytes set"
  kn_lan_route :: "LanRouteInfo option"
  kn_link_route :: "RouteTargetInfo option"
  kn_bound :: "u32 option"

definition empty_kernel :: kernel where
  "empty_kernel = \<lparr>kn_addrs = {}, kn_lan_route = None, kn_link_route = None, kn_bound = None\<rparr>"

fun ip_command :: "bytes list \<Rightarrow> bytes set \<Rightarrow> bytes set" where
  "ip_command (_ # cmd # addr # _) A = (if cmd = w_replace then insert addr A else if cmd = w_del then A - {addr} else A)"
| "ip_command _ A = A"

fun kernel_step :: "'x client_effect \<Rightarrow> kernel \<Rightarrow> kernel" where
  "kernel_step (IpCommand args) k = k\<lparr>kn_addrs := ip_command args (kn_addrs k)\<rparr>"
| "kernel_step (InsertLanRoute _ i) k = k\<lparr>kn_lan_route := Some i\<rparr>"
| "kernel_step (InsertLinkRoute _ i) k = k\<lparr>kn_link_route := Some i\<rparr>"
| "kernel_step (RemoveLanRoute _) k = k\<lparr>kn_lan_route := None\<rparr>"
| "kernel_step (RemoveLinkRoute _) k = k\<lparr>kn_link_route := None\<rparr>"
| "kernel_step (BindIpv4 _ ip _ _ _) k = k\<lparr>kn_bound := Some ip\<rparr>"
| "kernel_step (UnbindIpv4 _) k = k\<lparr>kn_bound := None\<rparr>"
| "kernel_step _ k = k"

definition kernel_of :: "'x client_effect list \<Rightarrow> kernel" where
  "kernel_of es = fold kernel_step es empty_kernel"

lemma kernel_of_append: "kernel_of (es @ fs) = fold kernel_step fs (kernel_of es)"
  by (simp add: kernel_of_def)

lemma words_differ [simp]: "w_del \<noteq> w_replace" "w_replace \<noteq> w_del"
  by (simp_all add: w_del_def w_replace_def)

lemma ip_command_args [simp]:
  "ip_command (build_del_args ip p iface) A = A - {display_cidr ip (unat p)}"
  "ip_command (build_replace_args ip q options iface renew lease) A = insert (display_cidr ip (unat q)) A"
  by (simp_all add: build_del_args_def build_replace_args_def)

text \<open>The addresses match what the client remembers to have applied.\<close>

definition addrs_of :: "AppliedAddr option \<Rightarrow> bytes set" where
  "addrs_of applied = (case applied of None \<Rightarrow> {} | Some a \<Rightarrow> {display_cidr (aa_ip a) (unat (aa_prefix a))})"

lemma release_kernel:
  "kn_addrs k = addrs_of applied \<Longrightarrow> fold kernel_step (release config applied) k = empty_kernel"
  by (cases applied) (simp_all add: release_def addrs_of_def empty_kernel_def)

lemma apply_lease_kernel:
  assumes "apply_lease config params applied = (es, applied')" and "kn_addrs k = addrs_of applied" and "unat (lp_prefix params) \<le> 32"
  shows "applied' = Some \<lparr>aa_ip = lp_yiaddr params, aa_prefix = ucast (lp_prefix params)\<rparr> \<and>
    kn_addrs (fold kernel_step es k) = addrs_of applied' \<and>
    map_option lan_iface_ip (kn_lan_route (fold kernel_step es k)) = Some (lp_yiaddr params) \<and>
    kn_bound (fold kernel_step es k) = Some (lp_yiaddr params) \<and>
    (gateway_of (lp_options params) \<noteq> None \<longrightarrow>
       map_option rti_iface_ip (kn_link_route (fold kernel_step es k)) = Some (lp_yiaddr params))"
proof -
  have "unat (ucast (lp_prefix params) :: u8) = take_bit 8 (unat (lp_prefix params))" by (simp add: unsigned_ucast_eq)
  also have "\<dots> = unat (lp_prefix params)" using assms(3) by (intro take_bit_nat_eq_self) simp
  finally have p: "unat (ucast (lp_prefix params) :: u8) = unat (lp_prefix params)" .
  let ?c = "display_cidr (lp_yiaddr params) (unat (lp_prefix params))"
  let ?same = "\<lambda>prev. aa_ip prev = lp_yiaddr params \<and> aa_prefix prev = ucast (lp_prefix params)"
  let ?del = "case applied of None \<Rightarrow> []
    | Some prev \<Rightarrow> if aa_ip prev \<noteq> lp_yiaddr params \<or> aa_prefix prev \<noteq> ucast (lp_prefix params)
        then [IpCommand (build_del_args (aa_ip prev) (aa_prefix prev) (cc_iface_name config)) :: 'a client_effect] else []"
  have del: "insert ?c (kn_addrs (fold kernel_step ?del k)) = {?c}"
  proof (cases applied)
    case (Some prev)
    then show ?thesis using assms(2) p by (cases "?same prev") (simp_all add: addrs_of_def)
  qed (use assms(2) in \<open>simp add: addrs_of_def\<close>)
  define d where "d = ?del"
  have d': "insert ?c (kn_addrs (fold kernel_step d k)) = {?c}" using del by (simp only: d_def)
  have "applied' = Some \<lparr>aa_ip = lp_yiaddr params, aa_prefix = ucast (lp_prefix params)\<rparr>"
    using assms(1) by (simp add: apply_lease_def Let_def)
  moreover have "\<exists>lan args link. es = d @ [IpCommand args, InsertLanRoute (cc_iface_name config) lan,
        BindIpv4 (cc_ifindex config) (lp_yiaddr params) (gateway_of (lp_options params)) (ucast (lp_prefix params)) (Some (cc_mac_addr config))] @
        (case gateway_of (lp_options params) of Some _ \<Rightarrow> [InsertLinkRoute (cc_link_id config) link] | None \<Rightarrow> []) \<and>
      lan_iface_ip lan = lp_yiaddr params \<and>
      (gateway_of (lp_options params) \<noteq> None \<longrightarrow> rti_iface_ip link = lp_yiaddr params) \<and> (\<forall>A. ip_command args A = insert ?c A)"
    using assms(1) unfolding apply_lease_def Let_def d_def [symmetric] prod.inject
    by (cases "gateway_of (lp_options params)") (auto intro!: exI)
  ultimately show ?thesis
    using d' by (auto simp: addrs_of_def p split: option.splits)
qed

section \<open>The invariant of the driver\<close>

definition session_iface :: "DhcpV4ClientServiceRuntimeConfig \<Rightarrow> SessionIface" where
  "session_iface config = SessionIface_new (cc_ifindex config) (cc_iface_name config) (Some (cc_mac_addr config))"

definition session_phase :: "DhcpV4ClientServiceRuntimeConfig \<Rightarrow> u32 option \<Rightarrow> SessionPhase" where
  "session_phase config ip =
     (case ip of None \<Rightarrow> Down | Some a \<Rightarrow> Up (session_iface config) (Some (WanV4Lease_new (cc_ifindex config) a)))"

definition link_phase :: "'c LinkState option \<Rightarrow> SessionPhase \<Rightarrow> bool" where
  "link_phase link p \<longleftrightarrow> (\<forall>l. link = Some l \<longrightarrow> ss_phase (ls_session l) = p)"

definition system_matches :: "('x, 'c) dv \<Rightarrow> bool" where
  "system_matches s \<longleftrightarrow>
     (let k = kernel_of (dv_effects s)
      in kn_addrs k = addrs_of (dv_applied s) \<and> map_option aa_ip (dv_applied s) = leased_ip (dv_fsm s) \<and>
         map_option lan_iface_ip (kn_lan_route k) = leased_ip (dv_fsm s) \<and> kn_bound k = leased_ip (dv_fsm s) \<and>
         (leased_ip (dv_fsm s) = None \<longrightarrow> kn_link_route k = None))"

definition dv_inv :: "DhcpV4ClientServiceRuntimeConfig \<Rightarrow> ('x, 'c) dv \<Rightarrow> bool" where
  "dv_inv config s \<longleftrightarrow>
     fsm_wf (dv_fsm s) \<and> system_matches s \<and> link_phase (dv_link s) (session_phase config (leased_ip (dv_fsm s))) \<and>
     dv_v4 s = Dhcp (runtime_status (dv_fsm s)) \<and> sc_status (dv_cell s) = Running"

lemma session_down_phase [simp]: "ss_phase (ls_session (snd (session_down l))) = Down"
  by (cases "ss_phase (ls_session l)") (simp_all add: session_down_def)

lemma session_up_phase [simp]: "ss_phase (ls_session (snd (session_up i w l))) = Up i w"
  by (simp add: session_up_def Let_def)

lemma link_phase_down: "link_phase (map_option (\<lambda>l. snd (session_down l)) link) Down"
  by (auto simp: link_phase_def)

lemma quiet_action:
  assumes "quiet a"
  shows "kernel_of (dv_effects (dv_action config dr a s)) = kernel_of (dv_effects s)"
    and "dv_applied (dv_action config dr a s) = dv_applied s" and "dv_link (dv_action config dr a s) = dv_link s"
    and "dv_fsm (dv_action config dr a s) = dv_fsm s" and "dv_cell (dv_action config dr a s) = dv_cell s"
  using assms by (cases a; simp add: quiet_def dv_emit_def kernel_of_append)+

lemma quiet_actions:
  assumes "list_all quiet as"
  shows "kernel_of (dv_effects (fold (dv_action config dr) as s)) = kernel_of (dv_effects s) \<and>
    dv_applied (fold (dv_action config dr) as s) = dv_applied s \<and> dv_link (fold (dv_action config dr) as s) = dv_link s \<and>
    dv_fsm (fold (dv_action config dr) as s) = dv_fsm s \<and> dv_cell (fold (dv_action config dr) as s) = dv_cell s"
  using assms by (induction as arbitrary: s) (simp_all add: quiet_action)

lemma release_action:
  assumes "kn_addrs (kernel_of (dv_effects s)) = addrs_of (dv_applied s)"
  shows "kernel_of (dv_effects (dv_action config dr ReleaseLease s)) = empty_kernel"
    and "dv_applied (dv_action config dr ReleaseLease s) = None"
    and "link_phase (dv_link (dv_action config dr ReleaseLease s)) Down"
    and "dv_fsm (dv_action config dr ReleaseLease s) = dv_fsm s" and "dv_cell (dv_action config dr ReleaseLease s) = dv_cell s"
  using release_kernel [OF assms, of config]
  by (auto simp: dv_release_def dv_session_down_def dv_emit_def kernel_of_append link_phase_def)

lemma matches_empty:
  "kernel_of (dv_effects s) = empty_kernel \<Longrightarrow> dv_applied s = None \<Longrightarrow> leased_ip (dv_fsm s) = None \<Longrightarrow> system_matches s"
  by (simp add: system_matches_def empty_kernel_def addrs_of_def)

text \<open>An event, up to the session: the system follows the lease.\<close>

lemma quiet_matches:
  assumes "system_matches s" and "list_all quiet as" and "leased_ip f = leased_ip (dv_fsm s)"
  shows "system_matches (fold (dv_action config dr) as (s\<lparr>dv_fsm := f\<rparr>))"
  using quiet_actions [OF assms(2), of config dr "s\<lparr>dv_fsm := f\<rparr>"] assms(1,3) by (simp add: system_matches_def)

lemma release_matches:
  assumes "system_matches s" and "list_all quiet as" and "leased_ip f = None"
  shows "system_matches (fold (dv_action config dr) (ReleaseLease # as) (s\<lparr>dv_fsm := f\<rparr>)) \<and>
    link_phase (dv_link (fold (dv_action config dr) (ReleaseLease # as) (s\<lparr>dv_fsm := f\<rparr>))) Down"
proof -
  let ?s = "dv_action config dr ReleaseLease (s\<lparr>dv_fsm := f\<rparr>)"
  have k: "kn_addrs (kernel_of (dv_effects (s\<lparr>dv_fsm := f\<rparr>))) = addrs_of (dv_applied (s\<lparr>dv_fsm := f\<rparr>))"
    using assms(1) by (simp add: system_matches_def Let_def)
  note r = release_action [OF k, of config dr]
  show ?thesis
    using quiet_actions [OF assms(2), of config dr ?s] r assms(3)
    by (simp del: dv_action.simps add: matches_empty)
qed

lemma bind_matches:
  assumes "system_matches s" and "handle_ack dr dhcp f = ([BindLease params, ScheduleTimer wait], f')" and "dm_yiaddr dhcp \<noteq> 0"
  shows "system_matches (fold (dv_action config dr) [BindLease params, ScheduleTimer wait] (s\<lparr>dv_fsm := f'\<rparr>))"
proof -
  obtain l where l: "fsm_state f' = SBound l" "lc_yiaddr l = lp_yiaddr params" "lp_yiaddr params \<noteq> 0" "unat (lp_prefix params) \<le> 32"
    using acked_wf [OF assms(2,3)] assms(3) by auto
  then have ip: "leased_ip f' = Some (lp_yiaddr params)" by (simp add: leased_ip_def lease_ip_def)
  obtain es applied' where a: "apply_lease config params (dv_applied s) = (es, applied')" by (cases "apply_lease config params (dv_applied s)")
  have "kn_addrs (kernel_of (dv_effects s)) = addrs_of (dv_applied s)" using assms(1) by (simp add: system_matches_def Let_def)
  from apply_lease_kernel [OF a this l(4)] show ?thesis
    by (simp add: a system_matches_def Let_def dv_emit_def kernel_of_append ip)
qed

section \<open>The driver keeps its invariant\<close>

lemma dv_mode_inv: "dv_inv config s \<Longrightarrow> dv_inv config (dv_emit [UpdateMode b] s)"
  by (simp add: dv_inv_def dv_emit_def system_matches_def kernel_of_append)

lemma set_v4_frame [simp]:
  "dv_fsm (dv_set_v4 v s) = dv_fsm s" "dv_link (dv_set_v4 v s) = dv_link s" "dv_cell (dv_set_v4 v s) = dv_cell s"
  "dv_applied (dv_set_v4 v s) = dv_applied s" "dv_effects (dv_set_v4 v s) = dv_effects s" "dv_v4 (dv_set_v4 v s) = v"
  "dv_timer (dv_set_v4 v s) = dv_timer s"
  by (simp_all add: dv_set_v4_def)

lemma update_session_frame [simp]:
  "dv_fsm (dv_update_session config s) = dv_fsm s" "dv_cell (dv_update_session config s) = dv_cell s"
  "dv_applied (dv_update_session config s) = dv_applied s" "dv_effects (dv_update_session config s) = dv_effects s"
  "dv_v4 (dv_update_session config s) = dv_v4 s" "dv_timer (dv_update_session config s) = dv_timer s"
  by (simp_all add: dv_update_session_def)

lemma matches_frame:
  "system_matches (dv_set_v4 v s) = system_matches s" "system_matches (dv_update_session config s) = system_matches s"
  by (simp_all add: system_matches_def)

lemma dv_timer_inv:
  assumes "dv_inv config s"
  shows "dv_inv config (dv_handle config dflt dr TimerFired s)"
proof -
  obtain actions f where t: "on_timer dflt dr 0 (dv_fsm s) = (actions, f)" by (cases "on_timer dflt dr 0 (dv_fsm s)")
  have wf: "fsm_wf (dv_fsm s)" and m: "system_matches s"
    and l: "link_phase (dv_link s) (session_phase config (leased_ip (dv_fsm s)))" and c: "sc_status (dv_cell s) = Running"
    using assms by (simp_all add: dv_inv_def)
  let ?s = "fold (dv_action config dr) actions (s\<lparr>dv_fsm := f\<rparr>)"
  have h: "dv_handle config dflt dr TimerFired s = dv_set_v4 (Dhcp (runtime_status f)) ?s"
    by (simp add: dv_handle_def t)
  have set: "system_matches ?s \<and> link_phase (dv_link ?s) (session_phase config (leased_ip f)) \<and> dv_fsm ?s = f \<and>
      sc_status (dv_cell ?s) = Running \<and> fsm_wf f"
  proof (cases "list_all quiet actions \<and> leased_ip f = leased_ip (dv_fsm s)")
    case True
    then show ?thesis
      using quiet_actions [of actions config dr "s\<lparr>dv_fsm := f\<rparr>"] quiet_matches [OF m, of actions f config dr]
        on_timer_effect [OF wf t] l c by simp
  next
    case False
    then have r: "leased_ip f = None" "actions = ReleaseLease # tl actions" "list_all quiet (tl actions)" "fsm_wf f"
      using on_timer_effect [OF wf t] by (cases actions; auto)+
    let ?s1 = "dv_action config dr ReleaseLease (s\<lparr>dv_fsm := f\<rparr>)"
    have s: "?s = fold (dv_action config dr) (tl actions) ?s1" by (subst r(2)) simp
    have "kn_addrs (kernel_of (dv_effects (s\<lparr>dv_fsm := f\<rparr>))) = addrs_of (dv_applied (s\<lparr>dv_fsm := f\<rparr>))"
      using m by (simp add: system_matches_def Let_def)
    note rel = release_action [OF this, of config dr]
    have "dv_fsm ?s = f \<and> dv_cell ?s = dv_cell s"
      using quiet_actions [OF r(3), of config dr ?s1] rel(4,5) unfolding s by simp
    moreover have "system_matches ?s \<and> link_phase (dv_link ?s) Down"
      using release_matches [OF m r(3,1), of config dr] by (simp only: r(2) [symmetric])
    ultimately show ?thesis using r(1,4) c by (simp add: session_phase_def)
  qed
  then show ?thesis by (simp add: h dv_inv_def matches_frame)
qed

lemma update_session_phase:
  "link_phase (dv_link (dv_update_session config s)) (session_phase config (leased_ip (dv_fsm s)))"
  by (auto simp: dv_update_session_def link_phase_def session_phase_def session_iface_def split: option.split)

lemma dv_recv_inv:
  assumes "dv_inv config s" and "opts_msg_type (dm_opts msg) = Some Ack \<longrightarrow> dm_yiaddr msg \<noteq> 0"
  shows "dv_inv config (dv_update_session config (dv_handle config dflt dr (Recv msg) s))"
proof -
  obtain actions f where t: "on_recv dr msg (dv_fsm s) = (actions, f)" by (cases "on_recv dr msg (dv_fsm s)")
  have wf: "fsm_wf (dv_fsm s)" and m: "system_matches s" and c: "sc_status (dv_cell s) = Running"
    using assms by (simp_all add: dv_inv_def)
  let ?s = "fold (dv_action config dr) actions (s\<lparr>dv_fsm := f\<rparr>)"
  have "system_matches ?s \<and> dv_fsm ?s = f \<and> dv_cell ?s = dv_cell s"
    using on_recv_effect [OF t]
  proof cases
    case ignored
    then show ?thesis using m by (simp add: system_matches_def)
  next
    case (offered requested)
    then have q: "list_all quiet actions" "leased_ip f = leased_ip (dv_fsm s)" by (simp_all add: quiet_def leased_ip_def)
    show ?thesis using quiet_matches [OF m q] quiet_actions [OF q(1), of config dr "s\<lparr>dv_fsm := f\<rparr>"] by simp
  next
    case (acked params wait)
    then show ?thesis
      using bind_matches [OF m acked(3), of config] assms(2) by (simp add: dv_emit_def split_beta)
  next
    case naked
    have q: "list_all quiet [ScheduleTimer 0]" "leased_ip f = None" using naked by (simp_all add: quiet_def leased_ip_def)
    show ?thesis
    proof (cases "lease_of (fsm_state (dv_fsm s))")
      case None
      then have "leased_ip f = leased_ip (dv_fsm s)" using q(2) by (simp add: leased_ip_def)
      then show ?thesis using quiet_matches [OF m q(1), of f config dr] naked None by simp
    next
      case (Some l)
      then show ?thesis
        using release_matches [OF m q, of config dr] naked
        by (simp add: dv_release_def dv_session_down_def dv_emit_def)
    qed
  qed
  moreover have "fsm_wf f" using on_recv_wf [OF wf t] assms(2) by blast
  moreover have "dv_handle config dflt dr (Recv msg) s = dv_set_v4 (Dhcp (runtime_status f)) ?s"
    by (simp add: dv_handle_def t)
  ultimately show ?thesis
    using update_session_phase [of config "dv_set_v4 (Dhcp (runtime_status f)) ?s"] c
    by (simp add: dv_inv_def matches_frame)
qed

text \<open>An \<open>ACK\<close> names the address it grants.\<close>

definition ack_addressed :: "'x dv_event \<Rightarrow> bool" where
  "ack_addressed ev \<longleftrightarrow>
     (case ev of DvRecv _ msg \<Rightarrow> opts_msg_type (dm_opts msg) = Some Ack \<longrightarrow> dm_yiaddr msg \<noteq> 0 | _ \<Rightarrow> True)"

lemma dv_step_inv:
  assumes "dv_inv config s" and "ack_addressed ev" and "dv_step config dflt ev s = (False, s')"
  shows "dv_inv config s'"
proof -
  let ?s = "dv_emit [UpdateMode (is_initial_phase (dv_fsm s))] s"
  have "dv_inv config ?s" by (rule dv_mode_inv [OF assms(1)])
  then show ?thesis
    using assms(2,3) by (cases ev) (auto simp: dv_step_def ack_addressed_def Let_def intro!: dv_timer_inv dv_recv_inv)
qed

text \<open>After the loop nothing of the lease is left.\<close>

definition dv_stopped :: "('x, 'c) dv \<Rightarrow> bool" where
  "dv_stopped s \<longleftrightarrow>
     kernel_of (dv_effects s) = empty_kernel \<and> dv_applied s = None \<and> link_phase (dv_link s) Down \<and> dv_v4 s = Stopped \<and>
     sc_status (dv_cell s) = Stop \<and> sc_cancelled (dv_cell s)"

lemma dv_exit_stopped:
  assumes "dv_inv config s" and "dv_step config dflt ev s = (True, s')"
  shows "dv_stopped s'"
proof -
  let ?s = "dv_emit [UpdateMode (is_initial_phase (dv_fsm s))] s\<lparr>dv_cell := request_stop (dv_cell s)\<rparr>"
  have s': "s' = dv_exit config ?s"
    using assms(2) by (cases ev) (simp_all add: dv_step_def Let_def dv_emit_def)
  have k: "kn_addrs (kernel_of (dv_effects s)) = addrs_of (dv_applied s)" and c: "sc_status (dv_cell s) = Running"
    using assms(1) by (simp_all add: dv_inv_def system_matches_def Let_def)
  have "kernel_of (dv_effects s @ UpdateMode b # release config (dv_applied s)) = empty_kernel" for b
    using release_kernel [OF k, of config] by (simp add: kernel_of_append)
  then show ?thesis
    using c by (auto simp: s' dv_exit_def dv_stopped_def dv_release_def dv_session_down_def dv_emit_def dv_set_v4_def Let_def
        link_phase_def request_stop_def is_stop_def is_exit_def is_exit_state_def just_change_status_def can_transition_to_def)
qed

lemma dv_loop_inv:
  assumes "dv_inv config s" and "list_all ack_addressed evs" and "dv_loop config dflt evs s = (stopped, s')"
  shows "if stopped then dv_stopped s' else dv_inv config s'"
  using assms
proof (induction evs arbitrary: s)
  case (Cons ev evs)
  obtain stop s1 where st: "dv_step config dflt ev s = (stop, s1)" by (cases "dv_step config dflt ev s")
  show ?case
  proof (cases stop)
    case True
    then show ?thesis using dv_exit_stopped [OF Cons.prems(1)] Cons.prems(3) st by auto
  next
    case False
    with st have st': "dv_step config dflt ev s = (False, s1)" by simp
    have "dv_inv config s1" using dv_step_inv [OF Cons.prems(1) _ st'] Cons.prems(2) by simp
    then show ?thesis using Cons.IH [of s1] Cons.prems(2,3) by (simp add: st')
  qed
qed simp

lemma dv_start_inv: "link_phase link Down \<Longrightarrow> dv_inv config (dv_start config xid now link v4)"
  by (simp add: dv_inv_def dv_start_def dv_set_v4_def DhcpV4Fsm_new_def DhcpState_init_def fsm_wf_def system_matches_def
      kernel_of_def empty_kernel_def addrs_of_def leased_ip_def session_phase_def ServiceStatusCell_new_def
      just_change_status_def can_transition_to_def is_exit_state_def Let_def)

section \<open>When the timer is due\<close>

text \<open>
  A handler reads the clock in order and takes at most \<open>d\<close>.  \<open>due d f t\<close> bounds the instant \<open>t\<close> for
  which the timer of a machine with a lease is set.
\<close>

definition clock_ok :: "Duration \<Rightarrow> draws \<Rightarrow> bool" where
  "clock_ok d dr \<longleftrightarrow> dr_clk dr 0 \<le> dr_clk dr 1 \<and> dr_clk dr 1 \<le> dr_clk dr 2 \<and> dr_clk dr 2 \<le> dr_clk dr 3 \<and>
     dr_clk dr 3 \<le> dr_clk dr 0 + d"

definition due :: "Duration \<Rightarrow> 'x DhcpV4Fsm \<Rightarrow> Instant \<Rightarrow> bool" where
  "due d f t \<longleftrightarrow>
     (case fsm_state f of
        SBound l \<Rightarrow> t \<le> lc_renew_at l + d
      | SRenewing l \<Rightarrow> t \<le> lc_rebind_at l + from_secs 60 + d
      | SWaitToRebind l \<Rightarrow> t \<le> lc_rebind_at l + from_secs 60 + 3 * d
      | SRebind l \<Rightarrow> t \<le> lc_lease_at l + from_secs 60 + d
      | _ \<Rightarrow> True)"

lemma renew_wait_le:
  assumes "clock_ok d dr" and "dr_clk dr 1 \<le> a"
  shows "dr_clk dr 3 + renew_wait dr a \<le> a + from_secs 60 + d"
proof -
  let ?x = "max 0 (a - dr_clk dr 2)"
  have "?x div 2 \<le> ?x" by simp
  moreover have "dr_clk dr 3 + ?x \<le> a + d" using assms by (auto simp: clock_ok_def max_def)
  moreover have "dr_clk dr 3 \<le> a + d" using assms by (simp add: clock_ok_def)
  ultimately show ?thesis
    unfolding renew_wait_def saturating_duration_since_def by (auto simp: max_def from_secs_number)
qed

lemma early_before_rebind:
  assumes "clock_ok d dr" and "\<not> rebind_early_at (dr_clk dr 0) l \<le> dr_clk dr 1"
  shows "dr_clk dr 1 < lc_rebind_at l"
  using assms from_secs_nonneg [of "as_secs (saturating_duration_since (lc_rebind_at l) (lc_renew_at l)) div 6"]
  by (simp del: from_secs_nonneg add: rebind_early_at_def Let_def instant_checked_sub_def clock_ok_def split: if_splits)

lemma due_renewing:
  assumes "fsm_wf f" and "due d f t" and "timer_state dr f = (k, g)" and "fsm_state g = SRenewing l"
  shows "t \<le> lc_rebind_at l + from_secs 60 + d"
  using assms
  by (cases "fsm_state f")
    (auto simp: timer_state_def due_def fsm_wf_def lease_wf_def to_renewing_def from_secs_number NANOS_PER_SEC_def)

lemma on_timer_due:
  assumes "fsm_wf f" and "due d f t" and "clock_ok d dr" and "dr_clk dr 0 \<le> t + d" and "on_timer dflt dr 0 f = (actions, f')"
  shows "\<exists>pre wait. actions = pre @ [ScheduleTimer wait] \<and> due d f' (dr_clk dr 3 + wait)"
proof -
  obtain k g where g: "timer_state dr f = (k, g)" by (cases "timer_state dr f")
  have t: "on_timer dflt dr k g = (actions, f')" using assms(5) by (simp add: on_timer_handed g)
  have wf: "fsm_wf g" using timer_state_wf [OF assms(1), of dr] by (simp add: g)
  consider (d) xid r where "fsm_state g = SDiscovering xid r" | (q) xid offer where "fsm_state g = SRequesting xid offer"
    | (n) l where "fsm_state g = SRenewing l" | (b) l where "fsm_state g = SRebind l"
    using timer_state_kinds [of dr f] by (auto simp: g)
  then show ?thesis
  proof cases
    case d
    with t show ?thesis by (auto simp: on_timer_discovering due_def split: if_splits)
  next
    case q
    with t show ?thesis by (auto simp: on_timer_requesting due_def split: if_splits)
  next
    case n
    have r: "t \<le> lc_rebind_at l + from_secs 60 + d" using due_renewing [OF assms(1,2) g n] .
    show ?thesis
    proof (cases "rebind_early_at (dr_clk dr 0) l \<le> dr_clk dr 1")
      case True
      have "dr_clk dr 3 + saturating_duration_since (lc_rebind_at l) (dr_clk dr 2) \<le> lc_rebind_at l + from_secs 60 + 3 * d"
        using assms(3,4) r by (auto simp: saturating_duration_since_def clock_ok_def max_def from_secs_number)
      with True n t show ?thesis by (auto simp: on_timer_renewing due_def)
    next
      case False
      have "dr_clk dr 3 + renew_wait dr (lc_rebind_at l) \<le> lc_rebind_at l + from_secs 60 + d"
        using renew_wait_le [OF assms(3)] early_before_rebind [OF assms(3) False] by simp
      with False n t show ?thesis by (auto simp: on_timer_renewing due_def)
    qed
  next
    case b
    with t renew_wait_le [OF assms(3), of "lc_lease_at l"] show ?thesis
      by (auto simp: on_timer_rebind due_def split: if_splits)
  qed
qed

lemma on_recv_due:
  assumes "due d f t" and "clock_ok d dr" and "on_recv dr dhcp f = (actions, f')" and "dm_yiaddr dhcp \<noteq> 0 \<or> opts_msg_type (dm_opts dhcp) \<noteq> Some Ack"
  shows "actions = [] \<and> f' = f \<or> (\<exists>pre wait. actions = pre @ [ScheduleTimer wait] \<and> due d f' (dr_clk dr 3 + wait))"
  using on_recv_effect [OF assms(3)]
proof cases
  case (acked params wait)
  then obtain l where "fsm_state f' = SBound l" "lc_renew_at l = dr_clk dr 0 + wait"
    using acked_wf [OF acked(3)] assms(4) by auto
  then show ?thesis using assms(2) acked by (auto simp: due_def clock_ok_def)
qed (auto simp: due_def)

fun punctual :: "Duration \<Rightarrow> 'x dv_event \<Rightarrow> ('x, 'c) dv \<Rightarrow> bool" where
  "punctual d (DvTimer dr) s \<longleftrightarrow> clock_ok d dr \<and> dr_clk dr 0 \<le> dv_timer s + d"
| "punctual d (DvRecv dr _) s \<longleftrightarrow> clock_ok d dr \<and> dr_clk dr 0 \<le> dv_timer s + d"
| "punctual d _ s \<longleftrightarrow> True"

fun punctual_run ::
  "Duration \<Rightarrow> DhcpV4ClientServiceRuntimeConfig \<Rightarrow> 'x DhcpV4Message \<Rightarrow> 'x dv_event list \<Rightarrow> ('x, 'c) dv \<Rightarrow> bool" where
  "punctual_run d config dflt [] s \<longleftrightarrow> True"
| "punctual_run d config dflt (ev # evs) s \<longleftrightarrow>
     punctual d ev s \<and> punctual_run d config dflt evs (snd (dv_step config dflt ev s))"

lemma actions_timer: "dv_timer (fold (dv_action config dr) (pre @ [ScheduleTimer wait]) s) = dr_clk dr 3 + wait"
  by simp

lemma actions_fsm: "dv_fsm (fold (dv_action config dr) actions s) = dv_fsm s"
proof -
  have "dv_fsm (dv_action config dr a s) = dv_fsm s" for a :: "'a FsmAction" and s :: "('a, 'b) dv"
    by (cases a) (simp_all add: dv_emit_def dv_release_def dv_session_down_def split_beta)
  then show ?thesis by (induction actions arbitrary: s) simp_all
qed

lemma dv_step_due:
  assumes "dv_inv config s" and "due d (dv_fsm s) (dv_timer s)" and "punctual d ev s" and "ack_addressed ev"
    and "dv_step config dflt ev s = (False, s')"
  shows "due d (dv_fsm s') (dv_timer s')"
proof (cases ev)
  case (DvTimer dr)
  obtain actions f where t: "on_timer dflt dr 0 (dv_fsm s) = (actions, f)" by (cases "on_timer dflt dr 0 (dv_fsm s)")
  obtain pre wait where p: "actions = pre @ [ScheduleTimer wait]" "due d f (dr_clk dr 3 + wait)"
    using on_timer_due [OF _ assms(2) _ _ t] assms(1,3) DvTimer by (auto simp: dv_inv_def)
  have "dv_fsm s' = f" "dv_timer s' = dr_clk dr 3 + wait"
    using assms(5) DvTimer p(1) t by (auto simp: dv_step_def Let_def dv_handle_def dv_emit_def actions_fsm)
  then show ?thesis using p(2) by simp
next
  case (DvRecv dr msg)
  obtain actions f where t: "on_recv dr msg (dv_fsm s) = (actions, f)" by (cases "on_recv dr msg (dv_fsm s)")
  have s': "dv_fsm s' = f" "dv_timer s' = dv_timer (fold (dv_action config dr) actions
      (dv_emit [UpdateMode (is_initial_phase (dv_fsm s))] s\<lparr>dv_fsm := f\<rparr>))"
    using assms(5) DvRecv t by (auto simp: dv_step_def Let_def dv_handle_def dv_emit_def actions_fsm)
  have "actions = [] \<and> f = dv_fsm s \<or> (\<exists>pre wait. actions = pre @ [ScheduleTimer wait] \<and> due d f (dr_clk dr 3 + wait))"
    using on_recv_due [OF assms(2) _ t] assms(3,4) DvRecv by (auto simp: ack_addressed_def)
  then show ?thesis using assms(2) by (auto simp: s' dv_emit_def)
next
  case DvRecvError
  then show ?thesis using assms(2,5) by (auto simp: dv_step_def Let_def dv_emit_def)
next
  case DvStop
  then show ?thesis using assms(5) by (simp add: dv_step_def Let_def)
qed

lemma dv_loop_due:
  assumes "dv_inv config s" and "due d (dv_fsm s) (dv_timer s)" and "punctual_run d config dflt evs s" and "list_all ack_addressed evs"
    and "dv_loop config dflt evs s = (False, s')"
  shows "due d (dv_fsm s') (dv_timer s')"
  using assms
proof (induction evs arbitrary: s)
  case (Cons ev evs)
  obtain stop s1 where st: "dv_step config dflt ev s = (stop, s1)" by (cases "dv_step config dflt ev s")
  with Cons.prems(5) have st': "dv_step config dflt ev s = (False, s1)" by (cases stop) simp_all
  have "dv_inv config s1" "due d (dv_fsm s1) (dv_timer s1)"
    using dv_step_inv [OF Cons.prems(1) _ st'] dv_step_due [OF Cons.prems(1,2) _ _ st'] Cons.prems(3,4) by simp_all
  then show ?case using Cons.IH [of s1] Cons.prems(3-5) by (simp add: st')
qed simp

lemma due_lease:
  assumes "fsm_wf f" and "due d f t" and "0 \<le> d" and "lease_of (fsm_state f) = Some l"
  shows "t \<le> lc_lease_at l + from_secs 60 + 3 * d"
  using assms
  by (cases "fsm_state f") (auto simp: due_def fsm_wf_def lease_wf_def from_secs_number NANOS_PER_SEC_def)

text \<open>Two timer events after the end of the lease give it up.\<close>

lemma early_le:
  assumes "lc_rebind_at l < now"
  shows "rebind_early_at now l \<le> now"
  using assms from_secs_nonneg [of "as_secs (saturating_duration_since (lc_rebind_at l) (lc_renew_at l)) div 6"]
  by (simp del: from_secs_nonneg add: rebind_early_at_def Let_def instant_checked_sub_def split: if_splits)

lemma expired_rebind:
  "fsm_state f = SRebind l \<Longrightarrow> dr_clk dr 1 > lc_lease_at l \<Longrightarrow> lease_of (fsm_state (snd (on_timer dflt dr k f))) = None"
  by (simp add: on_timer_rebind)

lemma expired_wait:
  "fsm_state f = SWaitToRebind l \<Longrightarrow> dr_clk dr 1 > lc_lease_at l \<Longrightarrow> lease_of (fsm_state (snd (on_timer dflt dr k f))) = None"
  by (simp add: on_timer_wait_to_rebind expired_rebind to_rebind_def)

lemma no_lease_timer:
  "fsm_wf f \<Longrightarrow> lease_of (fsm_state f) = None \<Longrightarrow> lease_of (fsm_state (snd (on_timer dflt dr 0 f))) = None"
  using on_timer_effect [of f dflt dr "fst (on_timer dflt dr 0 f)" "snd (on_timer dflt dr 0 f)"] by (auto simp: leased_ip_def)

lemma expired_renewing:
  assumes "fsm_state f = SRenewing l" and "lease_wf l" and "\<forall>i. dr_clk dr i = now" and "lc_lease_at l < now"
  shows "fsm_state (snd (on_timer dflt dr k f)) = SWaitToRebind l"
  using assms early_le [of l now] by (simp add: on_timer_renewing lease_wf_def)

lemma expired_twice:
  assumes "fsm_wf f" and "lease_of (fsm_state f) = Some l" and "\<forall>i. dr_clk dr i = now" and "lc_lease_at l < now"
    and "lc_lease_at l < dr_clk dr' 1"
  shows "lease_of (fsm_state (snd (on_timer dflt dr' 0 (snd (on_timer dflt dr 0 f))))) = None"
proof -
  have wf: "fsm_wf (snd (on_timer dflt dr 0 f))"
    using on_timer_effect [OF assms(1), of dflt dr "fst (on_timer dflt dr 0 f)" "snd (on_timer dflt dr 0 f)"] by simp
  have w: "fsm_state (snd (on_timer dflt dr 0 f)) = SWaitToRebind m \<Longrightarrow> lc_lease_at m = lc_lease_at l \<Longrightarrow> ?thesis" for m
    using expired_wait [of "snd (on_timer dflt dr 0 f)" m dr' dflt 0] assms(5) by simp
  have n: "lease_of (fsm_state (snd (on_timer dflt dr 0 f))) = None \<Longrightarrow> ?thesis"
    by (rule no_lease_timer [OF wf])
  show ?thesis
  proof (cases "fsm_state f")
    case (SBound m)
    then have m: "m = l" "lease_wf (to_renewing dr 0 l)"
      using assms(1,2) by (simp_all add: fsm_wf_def to_renewing_def lease_wf_def)
    let ?g = "f\<lparr>fsm_state := SRenewing (to_renewing dr 0 l), fsm_attempts := 0\<rparr>"
    have "fsm_state (snd (on_timer dflt dr (Suc 0) ?g)) = SWaitToRebind (to_renewing dr 0 l)"
      by (rule expired_renewing [OF _ m(2) assms(3)]) (use assms(4) in \<open>simp_all add: to_renewing_def\<close>)
    then show ?thesis using w [of "to_renewing dr 0 l"] SBound m(1) by (simp add: on_timer_bound to_renewing_def)
  next
    case (SRenewing m)
    then have m: "m = l" "lease_wf l" using assms(1,2) by (simp_all add: fsm_wf_def)
    then show ?thesis using w [of l] expired_renewing [OF SRenewing _ assms(3)] assms(4) by simp
  next
    case (SWaitToRebind m)
    then show ?thesis using n expired_wait [OF SWaitToRebind, of dr] assms(2-4) by simp
  next
    case (SRebind m)
    then show ?thesis using n expired_rebind [OF SRebind, of dr] assms(2-4) by simp
  qed (use assms(2) in simp_all)
qed

section \<open>The messages\<close>

lemma chaddr_fields:
  "take (unat (dm_hlen (set_chaddr (octets m) x))) (dm_chaddr (set_chaddr (octets m) x)) = octets m"
  by (cases m) (simp add: set_chaddr_def)

lemma gen_discover_fields:
  "dm_opcode (gen_discover dflt xid mac r h b) = BootRequest" "dm_xid (gen_discover dflt xid mac r h b) = xid"
  "dm_ciaddr (gen_discover dflt xid mac r h b) = 0"
  "take (unat (dm_hlen (gen_discover dflt xid mac r h b))) (dm_chaddr (gen_discover dflt xid mac r h b)) = octets mac"
  "opts_msg_type (dm_opts (gen_discover dflt xid mac r h b)) = Some Discover"
  "dm_opts dflt = [] \<Longrightarrow> hm_get (dm_opts (gen_discover dflt xid mac r h b)) 50 = map_option RequestedIpAddress r"
  using chaddr_fields [of mac]
  by (simp_all add: gen_discover_def Let_def set_chaddr_def split: option.split)

lemma gen_request_fields:
  "dm_opcode (gen_request dflt xid mac c y opts h) = BootRequest" "dm_xid (gen_request dflt xid mac c y opts h) = xid"
  "dm_ciaddr (gen_request dflt xid mac c y opts h) = c"
  "take (unat (dm_hlen (gen_request dflt xid mac c y opts h))) (dm_chaddr (gen_request dflt xid mac c y opts h)) = octets mac"
  "opts_msg_type (dm_opts (gen_request dflt xid mac c y opts h)) = Some Request"
  "hm_get (dm_opts (gen_request dflt xid mac c y opts h)) 50 =
     (if c = 0 then Some (RequestedIpAddress y) else hm_get opts 50)"
  "hm_get (dm_opts (gen_request dflt xid mac c y opts h)) 54 = hm_get opts 54"
  using chaddr_fields [of mac] by (simp_all add: gen_request_def Let_def set_chaddr_def)

lemma renew_msg_fields:
  assumes "lc_yiaddr l = 0" and "lc_ciaddr l \<noteq> 0"
  shows "dm_opcode (renew_msg dflt f l) = BootRequest" "dm_xid (renew_msg dflt f l) = lc_xid l"
    "dm_ciaddr (renew_msg dflt f l) = lease_ip l"
    "take (unat (dm_hlen (renew_msg dflt f l))) (dm_chaddr (renew_msg dflt f l)) = octets (fsm_mac_addr f)"
    "opts_msg_type (dm_opts (renew_msg dflt f l)) = Some Request"
    "hm_get (dm_opts (renew_msg dflt f l)) 50 = None" "hm_get (dm_opts (renew_msg dflt f l)) 54 = None"
  using assms by (simp_all add: renew_msg_def gen_request_fields renew_options_def lease_ip_def)

lemma select_options_server:
  "hm_get (select_options offer) 54 =
     (if hm_get (of_options offer) 54 = None \<and> of_siaddr offer \<noteq> 0 then Some (ServerIdentifier (of_siaddr offer))
      else hm_get (of_options offer) 54)"
  by (simp add: select_options_def)

lemma recv_sends_nothing: "recv_effect dr dhcp f actions f' \<Longrightarrow> SendMsg msg dest \<notin> set actions"
  by (induction rule: recv_effect.induct) auto


section \<open>Examples\<close>

definition ex_default :: "unit DhcpV4Message" where
  "ex_default = \<lparr>dm_opcode = BootRequest, dm_hlen = 0, dm_xid = 0, dm_secs = 0, dm_flags = 0, dm_ciaddr = 0, dm_yiaddr = 0,
     dm_siaddr = 0, dm_chaddr = [], dm_opts = []\<rparr>"

definition ex_client :: DhcpV4ClientServiceRuntimeConfig where
  "ex_client = \<lparr>cc_link_id = 1, cc_ifindex = 2, cc_iface_name = [0x65], cc_mac_addr = MacAddr 2 0 0 0 0 1,
     cc_client_port = 68, cc_hostname = [0x68], cc_default_router = True\<rparr>"

text \<open>The handler runs in no time, at the given second; transaction numbers are the second.\<close>

definition ex_draws :: "u64 \<Rightarrow> draws" where
  "ex_draws t = \<lparr>dr_clk = (\<lambda>_. from_secs t), dr_xid = (\<lambda>_. ucast t), dr_jitter = 1\<rparr>"

definition ex_reply :: "u32 \<Rightarrow> MessageType \<Rightarrow> u32 \<Rightarrow> u32 \<Rightarrow> unit DhcpV4Message" where
  "ex_reply xid t ip secs = ex_default\<lparr>dm_opcode := BootReply, dm_xid := xid, dm_yiaddr := ip,
     dm_opts := [(53, MessageType t), (51, AddressLeaseTime secs), (1, SubnetMask 0xffffff00), (54, ServerIdentifier 9)]\<rparr>"

text \<open>A client that is offered and granted an address for \<open>secs\<close> seconds in the first second.\<close>

definition ex_binding :: "u32 \<Rightarrow> unit dv_event list" where
  "ex_binding secs = [DvTimer (ex_draws 0), DvRecv (ex_draws 0) (ex_reply 7 Offer 0xa000002 secs), DvTimer (ex_draws 0),
     DvRecv (ex_draws 0) (ex_reply 7 Ack 0xa000002 secs)]"

definition ex_wan_link :: "unit LinkState" where
  "ex_wan_link = LinkStateHandle_new None"


section \<open>The machine and its timer alone\<close>

definition sched :: "draws \<Rightarrow> 'x FsmAction list \<Rightarrow> Instant \<Rightarrow> Instant" where
  "sched dr = fold (\<lambda>a t. case a of ScheduleTimer wait \<Rightarrow> dr_clk dr 3 + wait | _ \<Rightarrow> t)"

fun view_step :: "'x DhcpV4Message \<Rightarrow> 'x dv_event \<Rightarrow> 'x DhcpV4Fsm \<times> Instant \<Rightarrow> 'x DhcpV4Fsm \<times> Instant" where
  "view_step dflt (DvTimer dr) (f, t) = (case on_timer dflt dr 0 f of (actions, f') \<Rightarrow> (f', sched dr actions t))"
| "view_step dflt (DvRecv dr msg) (f, t) = (case on_recv dr msg f of (actions, f') \<Rightarrow> (f', sched dr actions t))"
| "view_step dflt _ v = v"

definition dv_view :: "('x, 'c) dv \<Rightarrow> 'x DhcpV4Fsm \<times> Instant" where
  "dv_view s = (dv_fsm s, dv_timer s)"

lemma actions_sched: "dv_timer (fold (dv_action config dr) actions s) = sched dr actions (dv_timer s)"
proof -
  have "dv_timer (dv_action config dr a s) = (case a of ScheduleTimer wait \<Rightarrow> dr_clk dr 3 + wait | _ \<Rightarrow> dv_timer s)"
    for a :: "'a FsmAction" and s :: "('a, 'b) dv"
    by (cases a) (simp_all add: dv_emit_def dv_release_def dv_session_down_def split_beta)
  then show ?thesis by (induction actions arbitrary: s) (simp_all add: sched_def)
qed

definition not_stop :: "'x dv_event \<Rightarrow> bool" where
  "not_stop ev \<longleftrightarrow> (case ev of DvStop \<Rightarrow> False | _ \<Rightarrow> True)"

lemma step_view:
  "not_stop ev \<Longrightarrow> \<not> fst (dv_step config dflt ev s) \<and> dv_view (snd (dv_step config dflt ev s)) = view_step dflt ev (dv_view s)"
  by (cases ev) (simp_all add: not_stop_def dv_step_def Let_def dv_view_def dv_handle_def dv_emit_def split_beta actions_fsm actions_sched)

lemma loop_view:
  "list_all not_stop evs \<Longrightarrow>
     \<not> fst (dv_loop config dflt evs s) \<and> dv_view (snd (dv_loop config dflt evs s)) = fold (view_step dflt) evs (dv_view s)"
  using step_view [of _ config dflt] by (induction evs arbitrary: s) (auto simp: split_beta)

lemma start_view: "dv_view (dv_start config xid now link v4) = (DhcpV4Fsm_new xid (cc_mac_addr config) (cc_hostname config), now)"
  by (simp add: dv_view_def dv_start_def Let_def)

fun view_punctual :: "Duration \<Rightarrow> 'x DhcpV4Message \<Rightarrow> 'x dv_event list \<Rightarrow> 'x DhcpV4Fsm \<times> Instant \<Rightarrow> bool" where
  "view_punctual d dflt [] v \<longleftrightarrow> True"
| "view_punctual d dflt (ev # evs) v \<longleftrightarrow>
     (case ev of DvTimer dr \<Rightarrow> clock_ok d dr \<and> dr_clk dr 0 \<le> snd v + d
      | DvRecv dr _ \<Rightarrow> clock_ok d dr \<and> dr_clk dr 0 \<le> snd v + d | _ \<Rightarrow> True) \<and>
     view_punctual d dflt evs (view_step dflt ev v)"

lemma punctual_view:
  "list_all not_stop evs \<Longrightarrow> view_punctual d dflt evs (dv_view s) \<Longrightarrow> punctual_run d config dflt evs s"
proof (induction evs arbitrary: s)
  case (Cons ev evs)
  then have "punctual d ev s" by (cases ev) (simp_all add: dv_view_def)
  then show ?case using Cons step_view [of ev config dflt s] by simp
qed simp

text \<open>The example client, bound for two seconds and then left alone.\<close>

definition ex_view :: "unit dv_event list \<Rightarrow> unit DhcpV4Fsm \<times> Instant" where
  "ex_view evs = fold (view_step ex_default) evs (DhcpV4Fsm_new 7 (MacAddr 2 0 0 0 0 1) [0x68], 0)"

lemma ex_client_run:
  assumes "list_all not_stop evs"
  shows "run_with ex_client ex_default 7 0 (Some ex_wan_link) Idle evs = (False, snd (run_with ex_client ex_default 7 0 (Some ex_wan_link) Idle evs))"
    and "dv_view (snd (run_with ex_client ex_default 7 0 (Some ex_wan_link) Idle evs)) = ex_view evs"
  using loop_view [OF assms, of ex_client ex_default "dv_start ex_client 7 0 (Some ex_wan_link) Idle"]
  by (simp_all add: run_with_def prod_eq_iff start_view ex_view_def ex_client_def)

lemma ex_binding_facts: "list_all not_stop (ex_binding 2)" "list_all ack_addressed (ex_binding 2)"
  by code_simp+

lemma ex_view_bound:
  "leased_ip (fst (ex_view (ex_binding 2))) = Some 0xa000002"
  by code_simp

lemma ex_view_renewing:
  "map_option lc_lease_at (lease_of (fsm_state (fst (ex_view (ex_binding 2 @ [DvTimer (ex_draws 1)]))))) = Some (from_secs 2)"
  "snd (ex_view (ex_binding 2 @ [DvTimer (ex_draws 1)])) = from_secs 61"
  by code_simp+

lemma ex_view_punctual:
  "view_punctual 0 ex_default (ex_binding 2 @ [DvTimer (ex_draws 1)]) (DhcpV4Fsm_new 7 (MacAddr 2 0 0 0 0 1) [0x68], 0)"
  by code_simp

section \<open>Properties of the client\<close>


lemma ex_wan_link_down: "link_phase (Some ex_wan_link) Down"
  by (simp add: link_phase_def ex_wan_link_def LinkStateHandle_new_def)






end
