(* ===== verification/Ipv6_Prefix.thy ===== *)
theory Ipv6_Prefix
  imports Prelude "HOL-Library.Monad_Syntax"
begin

text \<open>
  IPv6 prefix arithmetic: \<open>landscape-common/src/lan_service/lan_ipv6/mod.rs\<close> (subnets and interface
  identifiers) and \<open>landscape/src/lan_service/lan_ipv6_server/pd.rs\<close> (delegated blocks).

  \<^item> \<open>Ipv6Addr\<close> is the 128-bit word of its big-endian bytes, so \<open>octets\<close>, \<open>from_be_bytes\<close> and \<open>From\<close> are
    the identity.  Prefix lengths are \<open>u8\<close>.
  \<^item> \<open>checked_add\<close> and its kin are the methods of the standard library.
  \<^item> \<open>block a l\<close> is the set of addresses of the prefix \<open>a/l\<close>, as numbers; the lemmas say which block each
    function computes and when two blocks meet.
\<close>

type_synonym Ipv6Addr = u128

section \<open>Checked arithmetic\<close>

definition checked_add :: "'a::len word \<Rightarrow> 'a word \<Rightarrow> 'a word option" where
  "checked_add a b = (if uint a + uint b < 2 ^ LENGTH('a) then Some (a + b) else None)"

definition checked_mul :: "'a::len word \<Rightarrow> 'a word \<Rightarrow> 'a word option" where
  "checked_mul a b = (if uint a * uint b < 2 ^ LENGTH('a) then Some (a * b) else None)"

definition checked_sub :: "'a::len word \<Rightarrow> 'a word \<Rightarrow> 'a word option" where
  "checked_sub a b = (if b \<le> a then Some (a - b) else None)"

definition checked_shl :: "'a::len word \<Rightarrow> nat \<Rightarrow> 'a word option" where
  "checked_shl a n = (if n < LENGTH('a) then Some (push_bit n a) else None)"

definition saturating_add_word :: "'a::len word \<Rightarrow> 'a word \<Rightarrow> 'a word" where
  "saturating_add_word a b = (if uint a + uint b < 2 ^ LENGTH('a) then a + b else - 1)"

definition saturating_sub_word :: "'a::len word \<Rightarrow> 'a word \<Rightarrow> 'a word" where
  "saturating_sub_word a b = (if b \<le> a then a - b else 0)"

section \<open>Interface identifiers\<close>

definition WAN_IID_MARKER :: u64 where
  "WAN_IID_MARKER = push_bit 63 1"

definition mark_wan_iid :: "u64 \<Rightarrow> u64" where
  "mark_wan_iid iid = iid OR WAN_IID_MARKER"

definition is_wan_iid :: "u64 \<Rightarrow> bool" where
  "is_wan_iid iid \<longleftrightarrow> iid AND WAN_IID_MARKER \<noteq> 0"

definition is_lan_iid :: "u64 \<Rightarrow> bool" where
  "is_lan_iid iid \<longleftrightarrow> \<not> is_wan_iid iid"

definition ipv6_iid :: "Ipv6Addr \<Rightarrow> u64" where
  "ipv6_iid ip = ucast ip"

section \<open>Subnets\<close>

definition ipv6_prefix_mask :: "u8 \<Rightarrow> u128 option" where
  "ipv6_prefix_mask prefix_len =
     (if prefix_len = 0 then Some 0
      else if prefix_len \<le> 128 then Some (push_bit (unat (128 - prefix_len)) (- 1))
      else None)"

definition checked_allocate_subnet :: "Ipv6Addr \<Rightarrow> u8 \<Rightarrow> u8 \<Rightarrow> u128 \<Rightarrow> (Ipv6Addr \<times> Ipv6Addr) option" where
  "checked_allocate_subnet pd_ip pd_prefix_len sub_prefix_len subnet_index =
     (if pd_prefix_len > 128 \<or> sub_prefix_len > 128 \<or> sub_prefix_len < pd_prefix_len then None
      else
       let subnet_bits = sub_prefix_len - pd_prefix_len in
       if subnet_bits < 128 \<and> subnet_index \<ge> push_bit (unat subnet_bits) 1 then None
       else do {
         parent_mask \<leftarrow> ipv6_prefix_mask pd_prefix_len;
         sub_mask \<leftarrow> ipv6_prefix_mask sub_prefix_len;
         let base_network = (pd_ip AND parent_mask) AND sub_mask;
         subnet_network \<leftarrow>
           (if sub_prefix_len = 0 then Some base_network
            else do {
              offset \<leftarrow> checked_mul subnet_index (push_bit (unat (128 - sub_prefix_len)) 1);
              checked_add base_network offset
            });
         router_address \<leftarrow> (if sub_prefix_len = 128 then Some subnet_network else checked_add subnet_network 1);
         Some (subnet_network, router_address)
       })"

definition allocate_subnet :: "Ipv6Addr \<Rightarrow> u8 \<Rightarrow> u8 \<Rightarrow> u128 \<Rightarrow> (Ipv6Addr \<times> Ipv6Addr) outcome" where
  "allocate_subnet pd_ip pd_prefix_len sub_prefix_len subnet_index =
     (case checked_allocate_subnet pd_ip pd_prefix_len sub_prefix_len subnet_index of
        Some r \<Rightarrow> Returned r | None \<Rightarrow> Panicked)"

definition checked_combine_ipv6_prefix_suffix :: "Ipv6Addr \<Rightarrow> u8 \<Rightarrow> Ipv6Addr \<Rightarrow> Ipv6Addr option" where
  "checked_combine_ipv6_prefix_suffix pre prefix_len suf =
     map_option (\<lambda>mask. (pre AND mask) OR (suf AND NOT mask)) (ipv6_prefix_mask prefix_len)"

definition combine_ipv6_prefix_suffix :: "Ipv6Addr \<Rightarrow> u8 \<Rightarrow> Ipv6Addr \<Rightarrow> Ipv6Addr outcome" where
  "combine_ipv6_prefix_suffix pre prefix_len suf =
     (case checked_combine_ipv6_prefix_suffix pre prefix_len suf of Some r \<Rightarrow> Returned r | None \<Rightarrow> Panicked)"

definition checked_extract_ipv6_suffix :: "Ipv6Addr \<Rightarrow> u8 \<Rightarrow> Ipv6Addr option" where
  "checked_extract_ipv6_suffix ip prefix_len = map_option (\<lambda>mask. ip AND NOT mask) (ipv6_prefix_mask prefix_len)"

definition extract_ipv6_suffix :: "Ipv6Addr \<Rightarrow> u8 \<Rightarrow> Ipv6Addr outcome" where
  "extract_ipv6_suffix ip prefix_len =
     (case checked_extract_ipv6_suffix ip prefix_len of Some r \<Rightarrow> Returned r | None \<Rightarrow> Panicked)"

section \<open>Delegated blocks\<close>

record PdRange =
  rg_group_id :: bytes
  rg_parent :: Ipv6Addr
  rg_parent_len :: u8
  rg_pool_len :: u8
  rg_start_idx :: u32
  rg_end_idx :: u32

record PdSlotKey =
  key_group_id :: bytes
  key_sub_index :: u32

definition normalize_prefix :: "Ipv6Addr \<Rightarrow> u8 \<Rightarrow> Ipv6Addr" where
  "normalize_prefix pre prefix_len =
     (if prefix_len = 0 then 0
      else if prefix_len \<ge> 128 then pre
      else pre AND push_bit (128 - unat prefix_len) (- 1))"

text \<open>\<open>u128\<close> shifts of a release build take the amount modulo 128.\<close>

definition compute_delegated_prefix :: "Ipv6Addr \<Rightarrow> u8 \<Rightarrow> u8 \<Rightarrow> u32 \<Rightarrow> Ipv6Addr" where
  "compute_delegated_prefix base base_len delegate_len sub_index =
     (let mask = (if base_len \<ge> 128 then - 1 else push_bit (unat (128 - ucast base_len :: u32) mod 128) (- 1));
          network = base AND mask;
          shift = 128 - ucast delegate_len :: u32
      in network OR push_bit (unat shift mod 128) (ucast sub_index))"

definition resolve_pd_prefix :: "PdRange list \<Rightarrow> PdSlotKey \<Rightarrow> (Ipv6Addr \<times> u8) option" where
  "resolve_pd_prefix ranges key =
     (case find (\<lambda>r. rg_group_id r = key_group_id key) ranges of
        None \<Rightarrow> None
      | Some rg \<Rightarrow>
          if rg_pool_len rg = 0 \<or> rg_pool_len rg > 64 then None
          else if key_sub_index key < rg_start_idx rg \<or> key_sub_index key > rg_end_idx rg then None
          else
           let max_blocks = (if rg_parent_len rg \<ge> 128 then 0
                             else push_bit ((128 - unat (rg_parent_len rg)) mod 128) 1) :: u128
           in if ucast (key_sub_index key) \<ge> max_blocks then None
              else Some (compute_delegated_prefix (rg_parent rg) (rg_parent_len rg) (rg_pool_len rg)
                           (key_sub_index key), rg_pool_len rg))"


section \<open>Blocks of addresses\<close>

definition block :: "nat \<Rightarrow> nat \<Rightarrow> nat set" where
  "block a l = {a ..< a + 2 ^ (128 - l)}"

definition align :: "nat \<Rightarrow> nat \<Rightarrow> nat" where
  "align l a = a div 2 ^ (128 - l) * 2 ^ (128 - l)"

lemma dvd_align: "l' \<le> l \<Longrightarrow> 2 ^ (128 - l) dvd align l' a"
  by (auto simp: align_def intro!: dvd_mult le_imp_power_dvd)

lemma align_le: "align l a \<le> a"
  by (simp add: align_def)

lemma align_align: "l' \<le> l \<Longrightarrow> align l (align l' a) = align l' a"
  using dvd_align [of l' l a] by (simp add: align_def)

lemma slots_fit:
  fixes i j k :: nat
  assumes "j \<le> k" and "i < 2 ^ (k - j)"
  shows "i * 2 ^ j + 2 ^ j \<le> 2 ^ k"
proof -
  have "(i + 1) * 2 ^ j \<le> 2 ^ (k - j) * 2 ^ j" using assms(2) by (intro mult_right_mono) simp_all
  also have "\<dots> = 2 ^ k" using assms(1) by (simp flip: power_add)
  finally show ?thesis by (simp add: algebra_simps)
qed

lemma aligned_fits: "a < 2 ^ 128 \<Longrightarrow> align l a + 2 ^ (128 - l) \<le> 2 ^ 128"
proof -
  assume a: "a < 2 ^ 128"
  let ?k = "128 - l"
  have "a div 2 ^ ?k < 2 ^ (128 - ?k)"
    by (rule less_mult_imp_div_less) (use a in \<open>simp flip: power_add\<close>)
  from slots_fit [OF _ this] show ?thesis by (simp add: align_def)
qed

lemma subnet_fits:
  assumes "l' \<le> l" "l \<le> 128" and "i < 2 ^ (l - l')" and "a < 2 ^ 128"
  shows "i * 2 ^ (128 - l) + 2 ^ (128 - l) \<le> 2 ^ (128 - l')"
    and "align l' a + i * 2 ^ (128 - l) + 2 ^ (128 - l) \<le> 2 ^ 128"
proof -
  have "(128 - l') - (128 - l) = l - l'" using assms(1,2) by simp
  with assms show *: "i * 2 ^ (128 - l) + 2 ^ (128 - l) \<le> 2 ^ (128 - l')" by (intro slots_fit) simp_all
  from aligned_fits [OF assms(4), of l'] * show "align l' a + i * 2 ^ (128 - l) + 2 ^ (128 - l) \<le> 2 ^ 128"
    by linarith
qed

lemma slot_block_disjoint: "i \<noteq> j \<Longrightarrow> block (a + i * 2 ^ (128 - l)) l \<inter> block (a + j * 2 ^ (128 - l)) l = {}"
proof (induction i j rule: linorder_wlog)
  case (le i j)
  then have "(i + 1) * 2 ^ (128 - l) \<le> j * 2 ^ (128 - l)" by (intro mult_right_mono) simp_all
  then show ?case by (auto simp: block_def algebra_simps)
next
  case (sym i j)
  then show ?case by (simp add: Int_commute eq_commute)
qed

section \<open>What the functions compute\<close>

lemma and_high_mask: "(w :: 'a::len word) AND push_bit k (- 1) = push_bit k (drop_bit k w)"
  by (rule bit_word_eqI) (auto simp: bit_simps)

lemma unat_high_mask: "unat ((w :: 'a::len word) AND push_bit k (- 1)) = unat w div 2 ^ k * 2 ^ k"
proof -
  have "unat w div 2 ^ k * 2 ^ k < 2 ^ LENGTH('a)"
    by (rule le_less_trans [OF div_times_less_eq_dividend]) (rule unsigned_less)
  then have "unat (push_bit k (drop_bit k w)) = unat w div 2 ^ k * 2 ^ k"
    by (subst unsigned_push_bit_eq, subst unsigned_drop_bit_eq)
      (simp add: push_bit_eq_mult drop_bit_eq_div take_bit_nat_eq_self)
  then show ?thesis by (simp only: and_high_mask)
qed

lemmas unat_high_mask' = unat_high_mask [simplified]

lemma u8_le_unat: "(a :: u8) \<le> b \<longleftrightarrow> unat a \<le> unat b" "(a :: u8) < b \<longleftrightarrow> unat a < unat b" "(a :: u8) = b \<longleftrightarrow> unat a = unat b"
  by (simp_all add: word_le_nat_alt word_less_nat_alt word_unat_eq_iff)

lemma unat_u128_less: "unat (w :: u128) < 2 ^ 128"
  using unsigned_less [of w] by simp

lemma normalize_prefix_align: "unat (normalize_prefix p l) = align (unat l) (unat p)"
  using unat_u128_less [of p] by (simp add: normalize_prefix_def unat_high_mask' align_def u8_le_unat)

lemma prefix_mask_align:
  assumes "l \<le> 128"
  obtains m where "ipv6_prefix_mask l = Some m" and "\<And>w. unat (w AND m) = align (unat l) (unat w)"
proof -
  have "unat (128 - l) = 128 - unat l" using assms by (simp add: unat_sub u8_le_unat)
  then show thesis
    using that assms unat_u128_less
    by (cases "l = 0") (auto simp: ipv6_prefix_mask_def unat_high_mask' align_def u8_le_unat)
qed

lemma unat_push_bit_1: "k < LENGTH('a::len) \<Longrightarrow> unat (push_bit k 1 :: 'a word) = 2 ^ k"
  by (subst unsigned_push_bit_eq) (simp add: push_bit_eq_mult take_bit_nat_eq_self)

lemma uint_less_power: "uint a + uint b < 2 ^ n \<longleftrightarrow> unat a + unat b < 2 ^ n" "uint a * uint b < 2 ^ n \<longleftrightarrow> unat a * unat b < 2 ^ n"
  for a b :: "'a::len word"
proof -
  have "uint a + uint b = int (unat a + unat b)" "uint a * uint b = int (unat a * unat b)" "(2::int) ^ n = int (2 ^ n)" by simp_all
  then show "uint a + uint b < 2 ^ n \<longleftrightarrow> unat a + unat b < 2 ^ n" "uint a * uint b < 2 ^ n \<longleftrightarrow> unat a * unat b < 2 ^ n"
    by (simp_all only: of_nat_less_iff)
qed

lemmas checked_add_unat = checked_add_def [unfolded uint_less_power]
lemmas checked_mul_unat = checked_mul_def [unfolded uint_less_power]
lemmas saturating_add_word_unat = saturating_add_word_def [unfolded uint_less_power]

lemma unat_add_fits: "unat a + unat b < 2 ^ LENGTH('a) \<Longrightarrow> unat (a + b) = unat a + unat b" for a b :: "'a::len word"
  by (simp add: unat_word_ariths)

lemma unat_mult_fits: "unat a * unat b < 2 ^ LENGTH('a) \<Longrightarrow> unat (a * b) = unat a * unat b" for a b :: "'a::len word"
  by (simp add: unat_word_ariths)

lemma checked_allocate_subnet_Some:
  assumes "pl \<le> sl" "sl \<le> 128" "0 < sl" and "unat i < 2 ^ (unat sl - unat pl)"
  obtains n r where "checked_allocate_subnet ip pl sl i = Some (n, r)"
    and "unat n = align (unat pl) (unat ip) + unat i * 2 ^ (128 - unat sl)"
    and "sl < 128 \<Longrightarrow> unat r = unat n + 1"
proof -
  have le: "unat pl \<le> unat sl" "unat sl \<le> 128" "unat sl \<noteq> 0" and "pl \<le> 128"
    and sub: "unat (sl - pl) = unat sl - unat pl" "unat (128 - sl) = 128 - unat sl"
    using assms(1-3) by (simp_all add: u8_le_unat unat_sub)
  obtain m where m: "ipv6_prefix_mask pl = Some m" "\<And>w. unat (w AND m) = align (unat pl) (unat w)"
    using prefix_mask_align [OF \<open>pl \<le> 128\<close>] by blast
  obtain m' where m': "ipv6_prefix_mask sl = Some m'" "\<And>w. unat (w AND m') = align (unat sl) (unat w)"
    using prefix_mask_align [OF assms(2)] by blast
  have nz: "sl \<noteq> 0" using assms(3) by auto
  define b where "b = (ip AND m) AND m'"
  define s where "s = (push_bit (unat (128 - sl)) 1 :: u128)"
  define n where "n = b + i * s"
  have b: "unat b = align (unat pl) (unat ip)" by (simp only: b_def m m' align_align le)
  have s: "unat s = 2 ^ (128 - unat sl)"
    using unat_push_bit_1 [where 'a = 128, of "128 - unat sl"] le(3) by (simp only: s_def sub) simp
  note f = subnet_fits [OF le(1,2) assms(4) unat_u128_less [of ip]]
  have pos: "(0::nat) < 2 ^ (128 - unat sl)" by simp
  have f3: "unat i * 2 ^ (128 - unat sl) < 2 ^ 128" "align (unat pl) (unat ip) + unat i * 2 ^ (128 - unat sl) < 2 ^ 128"
    using f(2) pos by linarith+
  have mul: "unat i * unat s < 2 ^ LENGTH(128)" using f3(1) by (simp add: s)
  have im: "unat (i * s) = unat i * unat s" by (rule unat_mult_fits [OF mul])
  have add: "unat b + unat (i * s) < 2 ^ LENGTH(128)" using f3(2) by (simp add: s b im)
  have n: "unat n = align (unat pl) (unat ip) + unat i * 2 ^ (128 - unat sl)"
    using unat_add_fits [OF add] by (simp add: n_def b im s)
  have cap: "\<not> (sl - pl < 128 \<and> push_bit (unat (sl - pl)) 1 \<le> i)"
    using assms(4) unat_push_bit_1 [where 'a = 128, of "unat sl - unat pl"]
    by (simp add: word_le_nat_alt u8_le_unat not_le sub(1) del: push_bit_of_1)
  define t where "t = (if sl = 128 then n else n + 1)"
  have r: "unat n + unat (1 :: u128) < 2 ^ LENGTH(128)" if "sl \<noteq> 128"
  proof -
    have "unat sl < 128" using that le(2) by (simp add: u8_le_unat)
    then have "(2::nat) ^ 1 \<le> 2 ^ (128 - unat sl)" by (intro power_increasing) simp_all
    then show ?thesis using f(2) by (simp add: n)
  qed
  have "checked_mul i s = Some (i * s)" "checked_add b (i * s) = Some n" using mul add by (simp_all add: checked_mul_unat checked_add_unat n_def)
  moreover have "(if sl = 128 then Some n else checked_add n 1) = Some t" using r by (auto simp: checked_add_unat t_def)
  ultimately have "checked_allocate_subnet ip pl sl i = Some (n, t)"
    using assms(1,2) nz \<open>pl \<le> 128\<close> cap unfolding b_def s_def
    by (simp only: checked_allocate_subnet_def m m' Let_def bind.bind_lunit not_less [symmetric] if_False simp_thms)
  moreover have "sl < 128 \<Longrightarrow> unat t = unat n + 1" using unat_add_fits [OF r] by (auto simp: t_def)
  ultimately show thesis using that n by blast
qed

lemma or_disjoint_add:
  fixes a b :: "'a::len word"
  assumes "2 ^ k dvd unat a" and "unat b < 2 ^ k"
  shows "a OR b = a + b"
proof -
  have "a AND b = 0"
  proof (rule bit_word_eqI)
    fix n
    show "bit (a AND b) n = bit 0 n"
    proof (cases "n < k")
      case True
      have "take_bit k (unat a) = 0" using assms(1) by (simp add: take_bit_eq_mod)
      then have "\<not> bit (unat a) n" using True by (metis bit_take_bit_iff bit_0_eq bot_apply bot_bool_def)
      then show ?thesis by (simp add: bit_and_iff bit_unsigned_iff)
    next
      case False
      have "take_bit k (unat b) = unat b" using assms(2) by (simp add: take_bit_nat_eq_self)
      then have "\<not> bit (unat b) n" using False by (metis bit_take_bit_iff)
      then show ?thesis by (simp add: bit_and_iff bit_unsigned_iff)
    qed
  qed
  then show ?thesis by (simp add: disjunctive_add_eq_or)
qed

lemma u32_128_minus: "unat (128 - ucast l :: u32) = 128 - unat l" if "l \<le> 128" for l :: u8
  using that by (simp add: unat_sub word_le_nat_alt unsigned_ucast_eq take_bit_nat_eq_self)

lemma compute_delegated_prefix_align:
  assumes "0 < pl" "pl < dl" "dl \<le> 64" and "unat i < 2 ^ (unat dl - unat pl)"
  shows "unat (compute_delegated_prefix ip pl dl i) = align (unat pl) (unat ip) + unat i * 2 ^ (128 - unat dl)"
proof -
  have le: "unat pl \<le> unat dl" "unat dl \<le> 64" "unat pl \<noteq> 0" "pl \<le> 128" "dl \<le> 128" "\<not> 128 \<le> pl"
    using assms(1-3) by (simp_all add: u8_le_unat)
  let ?w = "ip AND push_bit (128 - unat pl) (- 1)" and ?o = "push_bit (128 - unat dl) (ucast i) :: u128"
  have w: "unat ?w = align (unat pl) (unat ip)" by (simp add: unat_high_mask' align_def)
  have f: "unat i * 2 ^ (128 - unat dl) + 2 ^ (128 - unat dl) \<le> 2 ^ (128 - unat pl)"
    using le(2) by (intro subnet_fits(1) [OF le(1) _ assms(4), of 0]) simp_all
  have "(0::nat) < 2 ^ (128 - unat dl)" by simp
  with f have lt: "unat i * 2 ^ (128 - unat dl) < 2 ^ (128 - unat pl)" by linarith
  also have "(2::nat) ^ (128 - unat pl) \<le> 2 ^ 128" by (rule power_increasing) simp_all
  finally have "unat i * 2 ^ (128 - unat dl) < 2 ^ 128" .
  then have o: "unat ?o = unat i * 2 ^ (128 - unat dl)"
    by (subst unsigned_push_bit_eq)
      (simp add: push_bit_eq_mult unsigned_ucast_eq take_bit_nat_eq_self unat_u32_less [THEN less_trans])
  have "2 ^ (128 - unat pl) dvd unat ?w" using dvd_align [of "unat pl" "unat pl"] by (simp only: w)
  then have "?w OR ?o = ?w + ?o" by (rule or_disjoint_add) (simp only: o lt)
  moreover have "unat (?w + ?o) = unat ?w + unat ?o"
    using aligned_fits [OF unat_u128_less, of "unat pl" ip] lt by (intro unat_add_fits) (simp only: w o, simp)
  moreover have "compute_delegated_prefix ip pl dl i = ?w OR ?o"
    using le by (simp add: compute_delegated_prefix_def u32_128_minus Let_def del: push_bit_minus_one_eq_not_mask)
  ultimately show ?thesis by (simp only: w o)
qed

definition range_ok :: "PdRange \<Rightarrow> bool" where
  "range_ok r \<longleftrightarrow> 0 < rg_parent_len r \<and> rg_parent_len r < rg_pool_len r \<and> rg_pool_len r \<le> 64 \<and>
     unat (rg_end_idx r) < 2 ^ (unat (rg_pool_len r) - unat (rg_parent_len r))"

lemma resolve_pd_prefix_block:
  assumes "range_ok r" and "find (\<lambda>r. rg_group_id r = key_group_id key) rs = Some r"
    and "rg_start_idx r \<le> key_sub_index key" "key_sub_index key \<le> rg_end_idx r"
  obtains p where "resolve_pd_prefix rs key = Some (p, rg_pool_len r)"
    and "unat p = align (unat (rg_parent_len r)) (unat (rg_parent r)) + unat (key_sub_index key) * 2 ^ (128 - unat (rg_pool_len r))"
proof -
  let ?i = "key_sub_index key" and ?pl = "rg_parent_len r" and ?dl = "rg_pool_len r"
  have ok: "0 < ?pl" "?pl < ?dl" "?dl \<le> 64" and i: "unat ?i < 2 ^ (unat ?dl - unat ?pl)"
    using assms(1,4) by (auto simp: range_ok_def word_le_nat_alt)
  have le: "unat ?dl \<le> 64" "unat ?pl \<noteq> 0" "unat ?pl < 64" "\<not> 128 \<le> ?pl" "0 < ?dl" "?dl \<noteq> 0" using ok by (auto simp: u8_le_unat)
  have "(2::nat) ^ (unat ?dl - unat ?pl) \<le> 2 ^ (128 - unat ?pl)" using le by (intro power_increasing) simp_all
  with i have "unat ?i < 2 ^ (128 - unat ?pl)" by linarith
  then have "unat (ucast ?i :: u128) < unat (push_bit (128 - unat ?pl) 1 :: u128)"
    using unat_push_bit_1 [where 'a = 128, of "128 - unat ?pl"] le
    by (simp add: unsigned_ucast_eq take_bit_nat_eq_self unat_u32_less [THEN less_trans] del: push_bit_of_1)
  then have "\<not> push_bit (128 - unat ?pl) 1 \<le> (ucast ?i :: u128)" by (simp add: word_le_nat_alt not_le)
  then have "resolve_pd_prefix rs key = Some (compute_delegated_prefix (rg_parent r) ?pl ?dl ?i, ?dl)"
    using assms(2-4) ok le by (simp add: resolve_pd_prefix_def Let_def not_less del: push_bit_of_1)
  then show thesis by (rule that) (rule compute_delegated_prefix_align [OF ok i])
qed

end
