(* ===== verification/Lan6_Config.thy ===== *)
theory Lan6_Config
  imports Rust_Str Ipv6_Prefix
begin

text \<open>
  Configuration of the LAN IPv6 services
  (\<open>landscape-common/src/lan_service/lan_ipv6\<close>: \<open>config.rs\<close>, \<open>dhcpv6_config.rs\<close>, \<open>runtime.rs\<close>, \<open>error.rs\<close>,
  \<open>prefix_group.rs\<close>; \<open>landscape-common/src/wan_service/ipv6_pd/prefix.rs\<close>).

  \<^item> A prefix group carves subnets out of a parent prefix, which is static or delegated to a WAN link.
  \<^item> A check that returns \<open>Result<(), ServiceConfigError>\<close> is an \<open>option\<close>: \<open>None\<close> is \<open>Ok\<close>, \<open>Some\<close> the error,
    a constructor for each reason with the values it prints.
  \<^item> \<open>last_update_time\<close> and \<open>update_at\<close>, which nothing here reads, are left out of their records.
  \<^item> The nested index loops \<open>for i\<close>, \<open>for j in (i + 1)..\<close> are \<open>check_pairs\<close>.
\<close>

section \<open>Results of checks\<close>

definition check_then :: "'e option \<Rightarrow> 'e option \<Rightarrow> 'e option" where
  "check_then a b = (case a of Some e \<Rightarrow> Some e | None \<Rightarrow> b)"

fun check_all :: "('a \<Rightarrow> 'e option) \<Rightarrow> 'a list \<Rightarrow> 'e option" where
  "check_all f [] = None"
| "check_all f (x # xs) = check_then (f x) (check_all f xs)"

fun check_pairs :: "('a \<Rightarrow> 'a \<Rightarrow> 'e option) \<Rightarrow> 'a list \<Rightarrow> 'e option" where
  "check_pairs f [] = None"
| "check_pairs f (x # xs) = check_then (check_all (f x) xs) (check_pairs f xs)"

text \<open>\<open>ToString\<close> of an unsigned integer.\<close>

fun to_string :: "nat \<Rightarrow> bytes" where
  "to_string n = (if n < 10 then [0x30 + of_nat n] else to_string (n div 10) @ [0x30 + of_nat (n mod 10)])"

declare to_string.simps [simp del]

section \<open>Configuration types\<close>

datatype IPv6ServiceMode = Slaac | Stateful | SlaacDhcpv6

datatype PrefixGroupServiceKind = Ra | Na | IaPd

record RouterFlags =
  rf_managed_address_config :: bool
  rf_other_config :: bool
  rf_home_agent :: bool
  rf_prf :: u8
  rf_nd_proxy :: bool
  rf_reserved :: u8

definition router_flags_from_u8 :: "u8 \<Rightarrow> RouterFlags" where
  "router_flags_from_u8 byte =
     \<lparr>rf_managed_address_config = (byte AND 0x80 \<noteq> 0), rf_other_config = (byte AND 0x40 \<noteq> 0),
      rf_home_agent = (byte AND 0x20 \<noteq> 0), rf_prf = drop_bit 3 (byte AND 0x18),
      rf_nd_proxy = (byte AND 0x04 \<noteq> 0), rf_reserved = byte AND 0x03\<rparr>"

definition router_flags_to_u8 :: "RouterFlags \<Rightarrow> u8" where
  "router_flags_to_u8 val =
     push_bit 7 (of_bool (rf_managed_address_config val)) OR push_bit 6 (of_bool (rf_other_config val))
     OR push_bit 5 (of_bool (rf_home_agent val)) OR push_bit 3 (rf_prf val)
     OR push_bit 2 (of_bool (rf_nd_proxy val)) OR rf_reserved val"

definition ra_flag_default :: RouterFlags where
  "ra_flag_default = router_flags_from_u8 0xc0"

datatype PrefixParentSource =
    Static (base_prefix: Ipv6Addr) (parent_prefix_len: u8)
  | Pd (link_id: u128) (depend_iface: bytes) (expected_pd_len_snapshot: u8)

record RaPrefixConfig =
  rc_pool_index :: u32
  rc_preferred_lifetime :: u32
  rc_valid_lifetime :: u32

record NaPrefixConfig =
  nc_pool_index :: u32

record PdPrefixRangeConfig =
  pc_pool_len :: u8
  pc_start_index :: u32
  pc_end_index :: u32

record LanPrefixGroupConfig =
  pg_group_id :: bytes
  pg_parent :: PrefixParentSource
  pg_ra :: "RaPrefixConfig option"
  pg_na :: "NaPrefixConfig option"
  pg_pd :: "PdPrefixRangeConfig option"

record DHCPv6IANAConfig =
  ia_max_prefix_len :: u8
  ia_pool_start :: u64
  ia_pool_end :: "u64 option"
  ia_preferred_lifetime :: u32
  ia_valid_lifetime :: u32

record DHCPv6IAPDConfig =
  id_delegate_prefix_len :: u8
  id_preferred_lifetime :: u32
  id_valid_lifetime :: u32

record DHCPv6ServerConfig =
  d6_enable :: bool
  d6_ia_na :: "DHCPv6IANAConfig option"
  d6_ia_pd :: "DHCPv6IAPDConfig option"

record LanIPv6ConfigV2 =
  c6_mode :: IPv6ServiceMode
  c6_ad_interval :: u32
  c6_lifetime :: u32
  c6_ra_flag :: RouterFlags
  c6_prefix_groups :: "LanPrefixGroupConfig list"
  c6_dhcpv6 :: "DHCPv6ServerConfig option"

record LanIPv6ServiceConfigV2 =
  s6_iface_name :: bytes
  s6_enable :: bool
  s6_config :: LanIPv6ConfigV2

definition c6_preferred_lifetime :: "LanIPv6ConfigV2 \<Rightarrow> u32" where
  "c6_preferred_lifetime self = c6_lifetime self"

definition c6_valid_lifetime :: "LanIPv6ConfigV2 \<Rightarrow> u32" where
  "c6_valid_lifetime self = c6_preferred_lifetime self * 2"

definition icmp_ad_interval :: "LanIPv6ConfigV2 \<Rightarrow> u32" where
  "icmp_ad_interval self = min (max (c6_preferred_lifetime self) 60) 600"

definition DEFAULT_IA_NA_POOL_SPAN :: u64 where
  "DEFAULT_IA_NA_POOL_SPAN = 0xFFFF"

section \<open>Runtime view of a group\<close>

record LDIAPrefix =
  ld_preferred_lifetime :: u32
  ld_valid_lifetime :: u32
  ld_prefix_len :: u8
  ld_prefix_ip :: Ipv6Addr

record PdPrefixContext =
  px_expected_pd_len :: u8
  px_actual_prefix :: "LDIAPrefix option"

type_synonym PdPrefixContextMap = "(u128, PdPrefixContext) hmap"

datatype ExpandedParentKey = Resolved Ipv6Addr | PdFallback u128

record ExpandedPrefixEntry =
  en_parent :: ExpandedParentKey
  en_parent_prefix_len :: u8
  en_service_kind :: PrefixGroupServiceKind
  en_start_index :: u32
  en_end_index :: u32
  en_pool_len :: u8

definition prefix_len_meets_expectation :: "u8 \<Rightarrow> u8 \<Rightarrow> bool" where
  "prefix_len_meets_expectation actual_prefix_len expected_pd_len \<longleftrightarrow> actual_prefix_len \<le> expected_pd_len"

definition pd_expectation_fits_snapshot :: "u8 \<Rightarrow> u8 \<Rightarrow> bool" where
  "pd_expectation_fits_snapshot expected_pd_len snapshot_prefix_len \<longleftrightarrow> expected_pd_len \<le> snapshot_prefix_len"

definition normalize_ipv6_prefix :: "Ipv6Addr \<Rightarrow> u8 \<Rightarrow> Ipv6Addr" where
  "normalize_ipv6_prefix addr prefix_len =
     (if prefix_len = 0 then 0
      else if prefix_len \<ge> 128 then addr
      else (let mask = push_bit (128 - unat prefix_len) (NOT 0) in addr AND mask))"

fun resolved_parent_prefix_len :: "PrefixParentSource \<Rightarrow> u8" where
  "resolved_parent_prefix_len (Static base len) = len"
| "resolved_parent_prefix_len (Pd link iface snapshot) = snapshot"

fun expanded_parent_key :: "PrefixParentSource \<Rightarrow> PdPrefixContextMap option \<Rightarrow> ExpandedParentKey" where
  "expanded_parent_key (Static base len) pd_contexts = Resolved (normalize_ipv6_prefix base len)"
| "expanded_parent_key (Pd link iface snapshot) pd_contexts =
     (case do { contexts \<leftarrow> pd_contexts; context \<leftarrow> hm_get contexts link; px_actual_prefix context } of
        Some pre \<Rightarrow>
          (let actual_network = normalize_ipv6_prefix (ld_prefix_ip pre) (ld_prefix_len pre)
           in Resolved (normalize_ipv6_prefix actual_network snapshot))
      | None \<Rightarrow> PdFallback link)"

definition is_ula :: "Ipv6Addr \<Rightarrow> bool" where
  "is_ula addr \<longleftrightarrow> (ucast (drop_bit 120 addr) :: u8) AND 0xfe = 0xfc"

text \<open>\<open>blocks_overlap\<close> computes in \<open>u64\<close>; in a release build shifts take the amount modulo 64.\<close>

definition blocks_overlap :: "u8 \<Rightarrow> u64 \<Rightarrow> u8 \<Rightarrow> u64 \<Rightarrow> u8 \<Rightarrow> bool" where
  "blocks_overlap parent_len idx_a len_a idx_b len_b =
     (let max_len = max len_a len_b;
          scale_a = push_bit (unat (max_len - len_a) mod 64) 1;
          start_a = idx_a * scale_a;
          end_a = start_a + scale_a;
          scale_b = push_bit (unat (max_len - len_b) mod 64) 1;
          start_b = idx_b * scale_b;
          end_b = start_b + scale_b
      in start_a < end_b \<and> start_b < end_a)"

definition parents_are_comparable :: "ExpandedPrefixEntry \<Rightarrow> ExpandedPrefixEntry \<Rightarrow> bool" where
  "parents_are_comparable self other =
     (case (en_parent self, en_parent other) of
        (Resolved _, Resolved _) \<Rightarrow> True
      | (PdFallback left, PdFallback right) \<Rightarrow> left = right
      | _ \<Rightarrow> False)"

definition address_interval :: "ExpandedPrefixEntry \<Rightarrow> (u128 \<times> u128) option" where
  "address_interval self =
     (if en_pool_len self = 0 \<or> en_pool_len self > 128 \<or> en_pool_len self < en_parent_prefix_len self then None
      else
       let parent = (case en_parent self of Resolved network \<Rightarrow> network | PdFallback _ \<Rightarrow> 0);
           shift = 128 - unat (en_pool_len self)
       in do {
         block_size \<leftarrow> checked_shl (1 :: u128) shift;
         start_offset \<leftarrow> checked_mul (ucast (en_start_index self)) block_size;
         start \<leftarrow> checked_add parent start_offset;
         last_offset \<leftarrow> checked_mul (ucast (en_end_index self)) block_size;
         last_start \<leftarrow> checked_add parent last_offset;
         let host_mask = block_size - 1;
         Some (start, last_start OR host_mask)
       })"

definition global_slot_interval :: "ExpandedPrefixEntry \<Rightarrow> (u128 \<times> u128) option" where
  "global_slot_interval self =
     (if en_pool_len self = 0 \<or> en_pool_len self > 64 \<or> en_start_index self > en_end_index self then None
      else do {
        block_size \<leftarrow> checked_shl (1 :: u128) (unat (64 - en_pool_len self));
        start \<leftarrow> checked_mul (ucast (en_start_index self)) block_size;
        after \<leftarrow> checked_add (ucast (en_end_index self)) 1;
        blocks_end \<leftarrow> checked_mul after block_size;
        last_slot \<leftarrow> checked_sub blocks_end 1;
        Some (start, last_slot)
      })"

section \<open>Checking a group\<close>

datatype lan6_error =
    EmptyGroupId
  | StaticParentLen u8
  | PdSnapshotLen u8
  | NoPdContext u128
  | PdPoolLen u8
  | PdRangeReversed u32 u32
  | RaIndexZero u32 | RaParentLen u8 | RaCapacity u32
  | NaIndexZero u32 | NaParentLen u8 | NaCapacity u32
  | PdIndexZero u32 | PdPoolWithinParent u8 u8 | PdCapacity u32 u32 u8
  | DuplicateGroupId bytes
  | GroupsConflict
  | LifetimeRange u32
  | SlaacNeedsRa | SlaacMFlag | SlaacDhcpEnabled
  | StatefulNeedsNa | StatefulFlags | StatefulNeedsDhcp | StatefulDhcpDisabled
  | MixedNeedsRa | MixedNotUla Ipv6Addr | MixedFlags | MixedNeedsSource | MixedNeedsDhcp | MixedDhcpDisabled
  | IaNaMaxPrefixLen u8 | IaNaPoolStart u64 | IaNaPoolEnd u64 u64 | IaNaPoolBound u64
  | IaNaValidZero | IaNaLifetimes
  | IaPdDelegateLen u8 | IaPdValidZero | IaPdLifetimes

definition group_has_capacity :: "u32 \<Rightarrow> u32 \<Rightarrow> u8 \<Rightarrow> u8 \<Rightarrow> bool" where
  "group_has_capacity start_index end_index target_len parent_len \<longleftrightarrow>
     (if target_len \<le> parent_len then False
      else
       let max_blocks = (case checked_shl (1 :: u64) (unat (target_len - parent_len)) of Some m \<Rightarrow> m | None \<Rightarrow> - 1)
       in ucast end_index < max_blocks \<and> start_index \<le> end_index)"

fun validate_parent :: "PdPrefixContextMap option \<Rightarrow> PrefixParentSource \<Rightarrow> lan6_error option" where
  "validate_parent pd_contexts (Static base len) =
     (if len < 56 \<or> len > 63 then Some (StaticParentLen len) else None)"
| "validate_parent pd_contexts (Pd link iface snapshot) =
     (if snapshot = 0 \<or> snapshot > 127 then Some (PdSnapshotLen snapshot)
      else if (case pd_contexts of Some contexts \<Rightarrow> \<not> hm_contains contexts link | None \<Rightarrow> False) then Some (NoPdContext link)
      else None)"

definition group_validate_with_pd_context ::
  "LanPrefixGroupConfig \<Rightarrow> PdPrefixContextMap option \<Rightarrow> lan6_error option" where
  "group_validate_with_pd_context self pd_contexts =
     (let parent_len = resolved_parent_prefix_len (pg_parent self) in
      if trim (pg_group_id self) = [] then Some EmptyGroupId
      else check_then (validate_parent pd_contexts (pg_parent self))
      (check_then (case pg_pd self of
          None \<Rightarrow> None
        | Some pd \<Rightarrow>
            if pc_pool_len pd = 0 \<or> pc_pool_len pd > 64 then Some (PdPoolLen (pc_pool_len pd))
            else if pc_end_index pd < pc_start_index pd
            then Some (PdRangeReversed (pc_end_index pd) (pc_start_index pd))
            else None)
      (check_then (case pg_ra self of
          None \<Rightarrow> None
        | Some ra \<Rightarrow>
            if rc_pool_index ra = 0 then Some (RaIndexZero (rc_pool_index ra))
            else if 64 \<le> parent_len then Some (RaParentLen parent_len)
            else if \<not> group_has_capacity (rc_pool_index ra) (rc_pool_index ra) 64 parent_len
            then Some (RaCapacity (rc_pool_index ra))
            else None)
      (check_then (case pg_na self of
          None \<Rightarrow> None
        | Some na \<Rightarrow>
            if nc_pool_index na = 0 then Some (NaIndexZero (nc_pool_index na))
            else if 64 \<le> parent_len then Some (NaParentLen parent_len)
            else if \<not> group_has_capacity (nc_pool_index na) (nc_pool_index na) 64 parent_len
            then Some (NaCapacity (nc_pool_index na))
            else None)
      (case pg_pd self of
          None \<Rightarrow> None
        | Some pd \<Rightarrow>
            if pc_start_index pd = 0 then Some (PdIndexZero (pc_start_index pd))
            else if pc_pool_len pd \<le> parent_len then Some (PdPoolWithinParent (pc_pool_len pd) parent_len)
            else if \<not> group_has_capacity (pc_start_index pd) (pc_end_index pd) (pc_pool_len pd) parent_len
            then Some (PdCapacity (pc_start_index pd) (pc_end_index pd) (pc_pool_len pd))
            else None)))))"

definition group_active_entries ::
  "LanPrefixGroupConfig \<Rightarrow> IPv6ServiceMode \<Rightarrow> PdPrefixContextMap option \<Rightarrow> ExpandedPrefixEntry list" where
  "group_active_entries self mode pd_contexts =
     (let parent = expanded_parent_key (pg_parent self) pd_contexts;
          parent_prefix_len = resolved_parent_prefix_len (pg_parent self);
          include_ra = (mode = Slaac \<or> mode = SlaacDhcpv6);
          include_na = (mode = Stateful \<or> mode = SlaacDhcpv6);
          include_pd = (mode = Stateful \<or> mode = SlaacDhcpv6)
      in (case pg_ra self of
            Some ra \<Rightarrow> if include_ra
              then [\<lparr>en_parent = parent, en_parent_prefix_len = parent_prefix_len, en_service_kind = Ra,
                     en_start_index = rc_pool_index ra, en_end_index = rc_pool_index ra, en_pool_len = 64\<rparr>] else []
          | None \<Rightarrow> [])
       @ (case pg_na self of
            Some na \<Rightarrow> if include_na
              then [\<lparr>en_parent = parent, en_parent_prefix_len = parent_prefix_len, en_service_kind = Na,
                     en_start_index = nc_pool_index na, en_end_index = nc_pool_index na, en_pool_len = 64\<rparr>] else []
          | None \<Rightarrow> [])
       @ (case pg_pd self of
            Some pd \<Rightarrow> if include_pd
              then [\<lparr>en_parent = parent, en_parent_prefix_len = parent_prefix_len, en_service_kind = IaPd,
                     en_start_index = pc_start_index pd, en_end_index = pc_end_index pd,
                     en_pool_len = pc_pool_len pd\<rparr>] else []
          | None \<Rightarrow> []))"

section \<open>Checking groups against each other\<close>

definition is_ra_na_pair :: "PrefixGroupServiceKind \<Rightarrow> PrefixGroupServiceKind \<Rightarrow> bool" where
  "is_ra_na_pair a b \<longleftrightarrow> (a, b) = (Ra, Na) \<or> (a, b) = (Na, Ra)"

definition validate_expanded_pair :: "bool \<Rightarrow> ExpandedPrefixEntry \<Rightarrow> ExpandedPrefixEntry \<Rightarrow> lan6_error option" where
  "validate_expanded_pair allow_ra_na_share a b =
     (if allow_ra_na_share \<and> is_ra_na_pair (en_service_kind a) (en_service_kind b) then None
      else case address_interval a of
        None \<Rightarrow> None
      | Some (start_a, end_a) \<Rightarrow>
          (case address_interval b of
             None \<Rightarrow> None
           | Some (start_b, end_b) \<Rightarrow>
               if start_a \<le> end_b \<and> start_b \<le> end_a then Some GroupsConflict else None))"

fun validate_group_ids :: "LanPrefixGroupConfig list \<Rightarrow> bytes list \<Rightarrow> lan6_error option" where
  "validate_group_ids [] seen = None"
| "validate_group_ids (g # gs) seen =
     (if pg_group_id g \<in> set seen then Some (DuplicateGroupId (pg_group_id g))
      else validate_group_ids gs (pg_group_id g # seen))"

definition validate_comparable :: "ExpandedPrefixEntry list \<Rightarrow> ExpandedPrefixEntry list \<Rightarrow> lan6_error option" where
  "validate_comparable left_entries right_entries =
     check_all (\<lambda>left. check_all (\<lambda>right. if \<not> parents_are_comparable left right then None
                                        else validate_expanded_pair False left right) right_entries) left_entries"

definition validate_prefix_groups_with_pd_context ::
  "LanPrefixGroupConfig list \<Rightarrow> PdPrefixContextMap option \<Rightarrow> lan6_error option" where
  "validate_prefix_groups_with_pd_context groups pd_contexts =
     (let entries = \<lambda>g. group_active_entries g SlaacDhcpv6 pd_contexts in
      check_then (validate_group_ids groups [])
      (check_then (check_all (\<lambda>g. check_then (group_validate_with_pd_context g pd_contexts)
                                   (check_pairs (validate_expanded_pair True) (entries g))) groups)
      (check_pairs validate_comparable (map entries groups))))"

definition validate_prefix_groups :: "LanPrefixGroupConfig list \<Rightarrow> lan6_error option" where
  "validate_prefix_groups groups = validate_prefix_groups_with_pd_context groups None"

section \<open>Checking the configuration of an interface\<close>

definition dhcpv6_validate :: "DHCPv6ServerConfig \<Rightarrow> lan6_error option" where
  "dhcpv6_validate self =
     (if \<not> d6_enable self then None
      else check_then (case d6_ia_na self of
          None \<Rightarrow> None
        | Some ia_na \<Rightarrow>
            if ia_max_prefix_len ia_na = 0 \<or> ia_max_prefix_len ia_na > 127
            then Some (IaNaMaxPrefixLen (ia_max_prefix_len ia_na))
            else if ia_pool_start ia_na \<ge> WAN_IID_MARKER then Some (IaNaPoolStart (ia_pool_start ia_na))
            else
             let pool_end = (case ia_pool_end ia_na of
                               Some e \<Rightarrow> e
                             | None \<Rightarrow> saturating_add_word (ia_pool_start ia_na) DEFAULT_IA_NA_POOL_SPAN)
             in if pool_end \<le> ia_pool_start ia_na then Some (IaNaPoolEnd pool_end (ia_pool_start ia_na))
                else if pool_end > WAN_IID_MARKER then Some (IaNaPoolBound pool_end)
                else if ia_valid_lifetime ia_na = 0 then Some IaNaValidZero
                else if ia_preferred_lifetime ia_na > ia_valid_lifetime ia_na then Some IaNaLifetimes
                else None)
      (case d6_ia_pd self of
          None \<Rightarrow> None
        | Some ia_pd \<Rightarrow>
            if id_delegate_prefix_len ia_pd = 0 \<or> id_delegate_prefix_len ia_pd > 128
            then Some (IaPdDelegateLen (id_delegate_prefix_len ia_pd))
            else if id_valid_lifetime ia_pd = 0 then Some IaPdValidZero
            else if id_preferred_lifetime ia_pd > id_valid_lifetime ia_pd then Some IaPdLifetimes
            else None))"

definition validate_mode :: "LanIPv6ConfigV2 \<Rightarrow> lan6_error option" where
  "validate_mode self =
     (case c6_mode self of
        Slaac \<Rightarrow>
          if \<not> (\<exists>g\<in>set (c6_prefix_groups self). pg_ra g \<noteq> None) then Some SlaacNeedsRa
          else if rf_managed_address_config (c6_ra_flag self) then Some SlaacMFlag
          else (case c6_dhcpv6 self of
                  Some dhcpv6 \<Rightarrow> if d6_enable dhcpv6 then Some SlaacDhcpEnabled else None
                | None \<Rightarrow> None)
      | Stateful \<Rightarrow>
          if \<not> (\<exists>g\<in>set (c6_prefix_groups self). pg_na g \<noteq> None) then Some StatefulNeedsNa
          else if \<not> rf_managed_address_config (c6_ra_flag self) \<or> \<not> rf_other_config (c6_ra_flag self)
          then Some StatefulFlags
          else (case c6_dhcpv6 self of
                  None \<Rightarrow> Some StatefulNeedsDhcp
                | Some dhcpv6 \<Rightarrow> if \<not> d6_enable dhcpv6 then Some StatefulDhcpDisabled else dhcpv6_validate dhcpv6)
      | SlaacDhcpv6 \<Rightarrow>
          let ra_groups = filter (\<lambda>g. pg_ra g \<noteq> None) (c6_prefix_groups self) in
          if ra_groups = [] then Some MixedNeedsRa
          else check_then (check_all (\<lambda>g. case pg_parent g of
                                 Static base len \<Rightarrow> if \<not> is_ula base then Some (MixedNotUla base) else None
                               | Pd link iface snapshot \<Rightarrow> None) ra_groups)
          (if \<not> rf_managed_address_config (c6_ra_flag self) \<or> \<not> rf_other_config (c6_ra_flag self)
           then Some MixedFlags
           else if length (filter (\<lambda>g. pg_na g \<noteq> None \<or> pg_pd g \<noteq> None) (c6_prefix_groups self)) = 0
           then Some MixedNeedsSource
           else (case c6_dhcpv6 self of
                   None \<Rightarrow> Some MixedNeedsDhcp
                 | Some dhcpv6 \<Rightarrow> if \<not> d6_enable dhcpv6 then Some MixedDhcpDisabled else dhcpv6_validate dhcpv6)))"

definition config_validate_with_pd_context ::
  "LanIPv6ConfigV2 \<Rightarrow> PdPrefixContextMap option \<Rightarrow> lan6_error option" where
  "config_validate_with_pd_context self pd_contexts =
     check_then (validate_prefix_groups_with_pd_context (c6_prefix_groups self) pd_contexts)
     (if c6_lifetime self < 60 \<or> c6_lifetime self > 65535 then Some (LifetimeRange (c6_lifetime self))
      else validate_mode self)"

definition config_active_entries ::
  "LanIPv6ConfigV2 \<Rightarrow> PdPrefixContextMap option \<Rightarrow> ExpandedPrefixEntry list" where
  "config_active_entries self pd_contexts =
     concat (map (\<lambda>g. group_active_entries g (c6_mode self) pd_contexts) (c6_prefix_groups self))"

section \<open>Checking interfaces against each other\<close>

definition validate_cross_interface_v2_with_pd_context ::
  "LanIPv6ServiceConfigV2 \<Rightarrow> LanIPv6ServiceConfigV2 list \<Rightarrow> PdPrefixContextMap option \<Rightarrow> lan6_error option" where
  "validate_cross_interface_v2_with_pd_context new_config other_configs pd_contexts =
     (let new_entries = config_active_entries (s6_config new_config) pd_contexts in
      check_all (\<lambda>other.
        if s6_iface_name other = s6_iface_name new_config \<or> \<not> s6_enable other then None
        else validate_comparable new_entries (config_active_entries (s6_config other) pd_contexts)) other_configs)"

definition build_merged_configs ::
  "LanIPv6ServiceConfigV2 \<Rightarrow> LanIPv6ServiceConfigV2 list \<Rightarrow> LanIPv6ServiceConfigV2 list" where
  "build_merged_configs pending existing =
     filter (\<lambda>c. s6_iface_name c \<noteq> s6_iface_name pending) existing @ [pending]"

record SourcedEntry =
  se_group_instance :: nat
  se_iface_name :: bytes
  se_group_id :: bytes
  se_entry :: ExpandedPrefixEntry

definition service_kind_label :: "SourcedEntry \<Rightarrow> bytes" where
  "service_kind_label self =
     (case en_service_kind (se_entry self) of
        Ra \<Rightarrow> utf8 ''RA'' | Na \<Rightarrow> utf8 ''IA_NA'' | IaPd \<Rightarrow> utf8 ''IA_PD'')"

definition index_range :: "SourcedEntry \<Rightarrow> bytes" where
  "index_range self =
     (let s = en_start_index (se_entry self); e = en_end_index (se_entry self)
      in if s = e then to_string (unat s) else to_string (unat s) @ utf8 ''-'' @ to_string (unat e))"

record WanReservedPrefixConflictDetails =
  wr_iface_name :: bytes
  wr_group_id :: bytes
  wr_service_kind :: bytes
  wr_index_range :: bytes
  wr_pool_len :: u8

record PrefixSlotOverlapDetails =
  so_slot_range :: bytes
  so_left_iface_name :: bytes
  so_left_group_id :: bytes
  so_left_service_kind :: bytes
  so_left_index_range :: bytes
  so_left_pool_len :: u8
  so_right_iface_name :: bytes
  so_right_group_id :: bytes
  so_right_service_kind :: bytes
  so_right_index_range :: bytes
  so_right_pool_len :: u8

datatype LanIPv6Error =
    WanReservedPrefixConflict WanReservedPrefixConflictDetails
  | PrefixSlotOverlap PrefixSlotOverlapDetails

fun source_groups ::
  "PdPrefixContextMap option \<Rightarrow> nat \<Rightarrow> (bytes \<times> LanPrefixGroupConfig) list \<Rightarrow> SourcedEntry list" where
  "source_groups pd_contexts next_group_instance [] = []"
| "source_groups pd_contexts next_group_instance ((iface, g) # rest) =
     map (\<lambda>e. \<lparr>se_group_instance = next_group_instance, se_iface_name = iface, se_group_id = pg_group_id g, se_entry = e\<rparr>)
       (group_active_entries g SlaacDhcpv6 pd_contexts)
     @ source_groups pd_contexts (next_group_instance + 1) rest"

definition sourced_entries ::
  "LanIPv6ServiceConfigV2 list \<Rightarrow> PdPrefixContextMap option \<Rightarrow> SourcedEntry list" where
  "sourced_entries merged pd_contexts =
     source_groups pd_contexts 0
       (concat (map (\<lambda>c. map (\<lambda>g. (s6_iface_name c, g)) (c6_prefix_groups (s6_config c))) merged))"

definition check_wan_reserved :: "SourcedEntry \<Rightarrow> LanIPv6Error option" where
  "check_wan_reserved sourced =
     (case global_slot_interval (se_entry sourced) of
        None \<Rightarrow> None
      | Some (start, _) \<Rightarrow>
          if start = 0 then
            Some (WanReservedPrefixConflict
              \<lparr>wr_iface_name = se_iface_name sourced, wr_group_id = se_group_id sourced,
               wr_service_kind = service_kind_label sourced, wr_index_range = index_range sourced,
               wr_pool_len = en_pool_len (se_entry sourced)\<rparr>)
          else None)"

definition check_slot_overlap :: "SourcedEntry \<Rightarrow> SourcedEntry \<Rightarrow> LanIPv6Error option" where
  "check_slot_overlap left right =
     (if se_group_instance left = se_group_instance right \<and>
         is_ra_na_pair (en_service_kind (se_entry left)) (en_service_kind (se_entry right)) then None
      else case global_slot_interval (se_entry left) of
        None \<Rightarrow> None
      | Some (start_l, end_l) \<Rightarrow>
      (case global_slot_interval (se_entry right) of
        None \<Rightarrow> None
      | Some (start_r, end_r) \<Rightarrow>
          if start_l > end_r \<or> start_r > end_l then None
          else
           let overlap_start = max start_l start_r;
               overlap_end = min end_l end_r;
               slot_range = (if overlap_start = overlap_end then to_string (unat overlap_start)
                             else to_string (unat overlap_start) @ utf8 ''-'' @ to_string (unat overlap_end))
           in Some (PrefixSlotOverlap
                \<lparr>so_slot_range = slot_range,
                 so_left_iface_name = se_iface_name left, so_left_group_id = se_group_id left,
                 so_left_service_kind = service_kind_label left, so_left_index_range = index_range left,
                 so_left_pool_len = en_pool_len (se_entry left),
                 so_right_iface_name = se_iface_name right, so_right_group_id = se_group_id right,
                 so_right_service_kind = service_kind_label right, so_right_index_range = index_range right,
                 so_right_pool_len = en_pool_len (se_entry right)\<rparr>)))"

definition validate_global_prefix_conflicts ::
  "LanIPv6ServiceConfigV2 \<Rightarrow> LanIPv6ServiceConfigV2 list \<Rightarrow> PdPrefixContextMap option \<Rightarrow> LanIPv6Error option" where
  "validate_global_prefix_conflicts pending existing pd_contexts =
     (let entries = sourced_entries (build_merged_configs pending existing) pd_contexts in
      check_then (check_all check_wan_reserved entries) (check_pairs check_slot_overlap entries))"

section \<open>Lemmas on checks\<close>

lemma check_then_None [simp]: "check_then a b = None \<longleftrightarrow> a = None \<and> b = None"
  by (cases a) (simp_all add: check_then_def)

lemma check_all_None [simp]: "check_all f xs = None \<longleftrightarrow> (\<forall>x\<in>set xs. f x = None)"
  by (induction xs) simp_all

lemma check_pairs_None: "check_pairs f xs = None \<longleftrightarrow> (\<forall>j<length xs. \<forall>i<j. f (xs ! i) (xs ! j) = None)"
proof (induction xs)
  case (Cons x xs)
  have "(\<forall>j<length (x # xs). \<forall>i<j. f ((x # xs) ! i) ((x # xs) ! j) = None) \<longleftrightarrow>
    (\<forall>y\<in>set xs. f x y = None) \<and> (\<forall>j<length xs. \<forall>i<j. f (xs ! i) (xs ! j) = None)"
    by (auto simp: all_set_conv_all_nth All_less_Suc2)
  then show ?case using Cons.IH by simp
qed simp

lemma validate_group_ids_None: "validate_group_ids gs seen = None \<longleftrightarrow> distinct (map pg_group_id gs) \<and> pg_group_id ` set gs \<inter> set seen = {}"
  by (induction gs arbitrary: seen) auto

section \<open>The addresses and slots of an entry\<close>

definition entry_base :: "ExpandedPrefixEntry \<Rightarrow> nat" where
  "entry_base e = (case en_parent e of Resolved n \<Rightarrow> unat n | PdFallback _ \<Rightarrow> 0)"

definition entry_addrs :: "ExpandedPrefixEntry \<Rightarrow> nat set" where
  "entry_addrs e = (\<Union>i\<in>{unat (en_start_index e) .. unat (en_end_index e)}.
     block (entry_base e + i * 2 ^ (128 - unat (en_pool_len e))) (unat (en_pool_len e)))"

definition entry_slots :: "ExpandedPrefixEntry \<Rightarrow> nat set" where
  "entry_slots e =
     (if en_pool_len e = 0 \<or> en_pool_len e > 64 then {}
      else \<Union>i\<in>{unat (en_start_index e) .. unat (en_end_index e)}.
        {i * 2 ^ (64 - unat (en_pool_len e)) ..< (i + 1) * 2 ^ (64 - unat (en_pool_len e))})"

definition entry_wf :: "ExpandedPrefixEntry \<Rightarrow> bool" where
  "entry_wf e \<longleftrightarrow> 0 < en_parent_prefix_len e \<and> en_parent_prefix_len e < en_pool_len e \<and> en_pool_len e \<le> 64 \<and>
     0 < en_start_index e \<and> en_start_index e \<le> en_end_index e \<and>
     unat (en_end_index e) < 2 ^ (unat (en_pool_len e) - unat (en_parent_prefix_len e)) \<and>
     (\<exists>a :: u128. entry_base e = align (unat (en_parent_prefix_len e)) (unat a))"

lemma blocks_union:
  fixes b k s t :: nat
  assumes "s \<le> t"
  shows "(\<Union>i\<in>{s..t}. {b + i * k ..< b + i * k + k}) = {b + s * k ..< b + t * k + k}"
  using assms
proof (induction t rule: dec_induct)
  case (step t)
  have "s * k \<le> t * k + k" using mult_le_mono1 [OF step.hyps(1), of k] by linarith
  moreover have "{s..Suc t} = insert (Suc t) {s..t}" using step.hyps(1) by auto
  ultimately show ?case using step.IH by (auto simp: algebra_simps)
qed simp

lemma entry_addrs_interval:
  "en_start_index e \<le> en_end_index e \<Longrightarrow> entry_addrs e =
     {entry_base e + unat (en_start_index e) * 2 ^ (128 - unat (en_pool_len e)) ..<
      entry_base e + unat (en_end_index e) * 2 ^ (128 - unat (en_pool_len e)) + 2 ^ (128 - unat (en_pool_len e))}"
  by (simp add: entry_addrs_def block_def blocks_union word_le_nat_alt)

lemma entry_slots_interval:
  "en_start_index e \<le> en_end_index e \<Longrightarrow> 0 < en_pool_len e \<Longrightarrow> en_pool_len e \<le> 64 \<Longrightarrow> entry_slots e =
     {unat (en_start_index e) * 2 ^ (64 - unat (en_pool_len e)) ..<
      (unat (en_end_index e) + 1) * 2 ^ (64 - unat (en_pool_len e))}"
proof -
  assume a: "en_start_index e \<le> en_end_index e" "0 < en_pool_len e" "en_pool_len e \<le> 64"
  then have "\<not> (en_pool_len e = 0 \<or> en_pool_len e > 64)" by auto
  then show ?thesis
    using blocks_union [OF word_le_nat_alt [THEN iffD1, OF a(1)], of 0 "2 ^ (64 - unat (en_pool_len e))"]
    by (simp add: entry_slots_def algebra_simps)
qed

lemma unat_ucast_u128: "unat (ucast (i :: u32) :: u128) = unat i"
  by (simp add: unsigned_ucast_eq take_bit_nat_eq_self unat_u32_less [THEN less_trans])

lemma carve:
  fixes i :: u32 and parent bs :: u128
  assumes "unat parent = align p a" "a < 2 ^ 128" and "p \<le> l" "l \<le> 128" "unat i < 2 ^ (l - p)" and bs: "unat bs = 2 ^ (128 - l)"
  shows "checked_mul (ucast i) bs = Some (ucast i * bs)" and "checked_add parent (ucast i * bs) = Some (parent + ucast i * bs)"
    and "unat (parent + ucast i * bs) = align p a + unat i * 2 ^ (128 - l)" and "align p a + unat i * 2 ^ (128 - l) + 2 ^ (128 - l) \<le> 2 ^ 128"
proof -
  have pos: "(0::nat) < 2 ^ (128 - l)" by simp
  show fit: "align p a + unat i * 2 ^ (128 - l) + 2 ^ (128 - l) \<le> 2 ^ 128"
    using assms by (intro subnet_fits(2)) simp_all
  have lt: "unat i * 2 ^ (128 - l) < 2 ^ 128" "align p a + unat i * 2 ^ (128 - l) < 2 ^ 128" using fit pos by linarith+
  then have m: "unat (ucast i * bs) = unat i * 2 ^ (128 - l)" using unat_mult_fits [of "ucast i" bs] by (simp add: bs unat_ucast_u128)
  show "checked_mul (ucast i) bs = Some (ucast i * bs)" using lt by (simp add: checked_mul_unat bs unat_ucast_u128)
  show "checked_add parent (ucast i * bs) = Some (parent + ucast i * bs)" using lt by (simp add: checked_add_unat m assms(1))
  show "unat (parent + ucast i * bs) = align p a + unat i * 2 ^ (128 - l)" using lt unat_add_fits [of parent "ucast i * bs"] by (simp add: m assms(1))
qed

lemma address_interval_wf:
  assumes "entry_wf e"
  obtains s t where "address_interval e = Some (s, t)" and "entry_addrs e = {unat s .. unat t}" and "unat s \<le> unat t"
proof -
  let ?l = "unat (en_pool_len e)" and ?p = "unat (en_parent_prefix_len e)" and ?k = "128 - unat (en_pool_len e)"
  define parent where "parent = (case en_parent e of Resolved n \<Rightarrow> n | PdFallback _ \<Rightarrow> 0)"
  define bs where "bs = (push_bit ?k 1 :: u128)"
  have wf: "?p < ?l" "?l \<le> 64" "?p \<noteq> 0" "unat (en_start_index e) \<le> unat (en_end_index e)" "unat (en_end_index e) < 2 ^ (?l - ?p)"
    and guard: "\<not> (en_pool_len e = 0 \<or> en_pool_len e > 128 \<or> en_pool_len e < en_parent_prefix_len e)"
    and se: "en_start_index e \<le> en_end_index e"
    using assms by (auto simp: entry_wf_def u8_le_unat word_le_nat_alt)
  obtain w :: u128 where "entry_base e = align ?p (unat w)" using assms by (auto simp: entry_wf_def)
  then obtain a where a: "a < 2 ^ 128" "entry_base e = align ?p a" using unat_u128_less by blast
  have base: "unat parent = align ?p a" using a(2) by (auto simp: parent_def entry_base_def split: ExpandedParentKey.splits)
  have bs: "unat bs = 2 ^ ?k" "checked_shl (1 :: u128) ?k = Some bs"
    using wf unat_push_bit_1 [where 'a = 128, of ?k] by (simp_all add: bs_def checked_shl_def del: push_bit_of_1)
  have i: "?p \<le> ?l" "?l \<le> 128" "unat (en_start_index e) < 2 ^ (?l - ?p)" using wf by linarith+
  note at = carve [OF base a(1) i(1,2,3) bs(1)] carve [OF base a(1) i(1,2) wf(5) bs(1)]
  let ?s = "parent + ucast (en_start_index e) * bs" and ?e = "parent + ucast (en_end_index e) * bs"
  have pos: "(0::nat) < 2 ^ ?k" by simp
  have mask: "unat (bs - 1) = 2 ^ ?k - 1" using bs(1) by (simp add: unat_sub word_le_nat_alt)
  have "2 ^ ?k dvd unat ?e" using dvd_align [of ?p ?l a] i(1) by (simp add: at dvd_add)
  then have "?e OR (bs - 1) = ?e + (bs - 1)" by (rule or_disjoint_add) (simp add: mask)
  moreover have "unat ?e + unat (bs - 1) < 2 ^ LENGTH(128)" using at(8) pos by (simp add: at mask)
  ultimately have e: "unat (?e OR (bs - 1)) = unat ?e + (2 ^ ?k - 1)" by (simp add: unat_add_fits mask)
  show thesis
  proof
    show "address_interval e = Some (?s, ?e OR (bs - 1))" using guard by (simp add: address_interval_def Let_def parent_def [symmetric] bs at)
    have "x < y + 2 ^ ?k \<longleftrightarrow> x \<le> y + (2 ^ ?k - 1)" for x y :: nat using pos by linarith
    then show "entry_addrs e = {unat ?s .. unat (?e OR (bs - 1))}" using se by (auto simp: entry_addrs_interval a(2) at e)
    have "unat ?s \<le> unat ?e" using mult_le_mono1 [OF wf(4), of "2 ^ ?k"] by (simp add: at)
    then show "unat ?s \<le> unat (?e OR (bs - 1))" unfolding e by linarith
  qed
qed

lemma entry_within_parent:
  assumes "entry_wf e"
  shows "entry_addrs e \<subseteq> block (entry_base e) (unat (en_parent_prefix_len e))" and "entry_addrs e \<inter> block (entry_base e) 64 = {}"
proof -
  let ?l = "unat (en_pool_len e)" and ?p = "unat (en_parent_prefix_len e)"
  have wf: "?p \<le> ?l" "?l \<le> 128" "?l \<le> 64" "unat (en_end_index e) < 2 ^ (?l - ?p)" "1 \<le> unat (en_start_index e)" and se: "en_start_index e \<le> en_end_index e"
    using assms by (auto simp: entry_wf_def u8_le_unat word_less_nat_alt Suc_le_eq)
  have "unat (en_end_index e) * 2 ^ (128 - ?l) + 2 ^ (128 - ?l) \<le> 2 ^ (128 - ?p)" by (rule subnet_fits(1) [OF wf(1,2,4), of 0]) simp
  then show "entry_addrs e \<subseteq> block (entry_base e) ?p" by (auto simp: entry_addrs_interval [OF se] block_def)
  have "(2::nat) ^ 64 \<le> 2 ^ (128 - ?l)" using wf(3) by (intro power_increasing) simp_all
  also have "\<dots> \<le> unat (en_start_index e) * 2 ^ (128 - ?l)" using mult_le_mono1 [OF wf(5), of "2 ^ (128 - ?l)"] by simp
  finally show "entry_addrs e \<inter> block (entry_base e) 64 = {}" by (auto simp: entry_addrs_interval [OF se] block_def)
qed

lemma expanded_pair_exact:
  assumes "entry_wf a" and "entry_wf b"
  shows "validate_expanded_pair share a b = None \<longleftrightarrow>
    share \<and> is_ra_na_pair (en_service_kind a) (en_service_kind b) \<or> entry_addrs a \<inter> entry_addrs b = {}"
proof -
  obtain s t where a: "address_interval a = Some (s, t)" "entry_addrs a = {unat s .. unat t}" "unat s \<le> unat t"
    using address_interval_wf [OF assms(1)] .
  obtain s' t' where b: "address_interval b = Some (s', t')" "entry_addrs b = {unat s' .. unat t'}" "unat s' \<le> unat t'"
    using address_interval_wf [OF assms(2)] .
  have "entry_addrs a \<inter> entry_addrs b = {} \<longleftrightarrow> \<not> (s \<le> t' \<and> s' \<le> t)"
    using a(2,3) b(2,3) by (auto simp: word_le_nat_alt)
  then show ?thesis using a(1) b(1) by (auto simp: validate_expanded_pair_def)
qed

lemma normalize_ipv6_prefix_eq: "normalize_ipv6_prefix p l = normalize_prefix p l"
  by (simp add: normalize_ipv6_prefix_def normalize_prefix_def)

lemmas normalize_ipv6_prefix_align = normalize_prefix_align [folded normalize_ipv6_prefix_eq]

lemma group_has_capacity_iff:
  assumes "t \<le> 64" and "0 < p"
  shows "group_has_capacity s e t p \<longleftrightarrow> p < t \<and> s \<le> e \<and> unat e < 2 ^ (unat t - unat p)"
proof (cases "p < t")
  case True
  then have u: "unat (t - p) = unat t - unat p" "unat t - unat p < 64" using assms by (simp_all add: u8_le_unat unat_sub)
  have "unat (ucast e :: u64) = unat e"
    by (simp add: unsigned_ucast_eq take_bit_nat_eq_self unat_u32_less [THEN less_trans])
  then show ?thesis
    using True u unat_push_bit_1 [where 'a = 64, of "unat t - unat p"]
    by (auto simp: group_has_capacity_def checked_shl_def word_less_nat_alt u8_le_unat not_le simp del: push_bit_of_1)
qed (simp add: group_has_capacity_def not_less)

lemma entry_base_aligned:
  "\<exists>a :: u128. (case expanded_parent_key par ctx of Resolved n \<Rightarrow> unat n | PdFallback _ \<Rightarrow> 0) =
     align (unat (resolved_parent_prefix_len par)) (unat a)"
proof (cases "(par, ctx)" rule: expanded_parent_key.cases)
  case (1 base len)
  then show ?thesis by (auto simp: normalize_ipv6_prefix_align)
next
  case (2 link iface snapshot contexts)
  have "align (unat snapshot) (unat (0 :: u128)) = 0" by (simp add: align_def)
  then show ?thesis
    using 2 by (cases "do { contexts \<leftarrow> contexts; context \<leftarrow> hm_get contexts link; px_actual_prefix context }")
      (auto simp: normalize_ipv6_prefix_align [of _ snapshot] Let_def intro: exI [of _ "0 :: u128"])
qed

lemma group_active_entries_cases:
  assumes "e \<in> set (group_active_entries g mode ctx)"
  obtains (ra) ra where "pg_ra g = Some ra" "en_service_kind e = Ra" "en_start_index e = rc_pool_index ra" "en_end_index e = rc_pool_index ra" "en_pool_len e = 64"
  | (na) na where "pg_na g = Some na" "en_service_kind e = Na" "en_start_index e = nc_pool_index na" "en_end_index e = nc_pool_index na" "en_pool_len e = 64"
  | (pd) pd where "pg_pd g = Some pd" "en_service_kind e = IaPd" "en_start_index e = pc_start_index pd" "en_end_index e = pc_end_index pd" "en_pool_len e = pc_pool_len pd"
  using assms by (cases "pg_ra g"; cases "pg_na g"; cases "pg_pd g") (auto simp: group_active_entries_def Let_def split: if_splits)

lemma group_active_entries_parent:
  "e \<in> set (group_active_entries g mode ctx) \<Longrightarrow>
     en_parent e = expanded_parent_key (pg_parent g) ctx \<and> en_parent_prefix_len e = resolved_parent_prefix_len (pg_parent g)"
  by (auto simp: group_active_entries_def Let_def split: option.splits if_splits)

lemma validated_parent_len: "validate_parent ctx par = None \<Longrightarrow> 0 < resolved_parent_prefix_len par"
  by (cases "(ctx, par)" rule: validate_parent.cases) (auto simp: u8_le_unat split: if_splits option.splits)

lemma validated_entries_wf:
  assumes "group_validate_with_pd_context g ctx' = None" and "e \<in> set (group_active_entries g mode ctx)"
  shows "entry_wf e"
proof -
  let ?p = "resolved_parent_prefix_len (pg_parent g)"
  have v: "0 < ?p" using assms(1) by (auto simp: group_validate_with_pd_context_def Let_def dest!: validated_parent_len split: if_splits)
  have ra: "pg_ra g = Some ra \<Longrightarrow> 0 < rc_pool_index ra \<and> ?p < 64 \<and> group_has_capacity (rc_pool_index ra) (rc_pool_index ra) 64 ?p" for ra
    using assms(1) by (auto simp: group_validate_with_pd_context_def Let_def not_le word_gt_0 split: if_splits)
  have na: "pg_na g = Some na \<Longrightarrow> 0 < nc_pool_index na \<and> ?p < 64 \<and> group_has_capacity (nc_pool_index na) (nc_pool_index na) 64 ?p" for na
    using assms(1) by (auto simp: group_validate_with_pd_context_def Let_def not_le word_gt_0 split: if_splits)
  have pd: "pg_pd g = Some pd \<Longrightarrow> 0 < pc_start_index pd \<and> pc_pool_len pd \<le> 64 \<and> ?p < pc_pool_len pd \<and>
      group_has_capacity (pc_start_index pd) (pc_end_index pd) (pc_pool_len pd) ?p" for pd
    using assms(1) by (auto simp: group_validate_with_pd_context_def Let_def not_le not_less word_gt_0 split: if_splits)
  have common: "entry_base e = align (unat ?p) (unat a)" "en_parent_prefix_len e = ?p" if "(case expanded_parent_key (pg_parent g) ctx of Resolved n \<Rightarrow> unat n | PdFallback _ \<Rightarrow> 0) =
     align (unat ?p) (unat a)" for a :: u128
    using that group_active_entries_parent [OF assms(2)] by (simp_all add: entry_base_def)
  obtain a :: u128 where a: "entry_base e = align (unat ?p) (unat a)" "en_parent_prefix_len e = ?p"
    using entry_base_aligned [of "pg_parent g" ctx] common by blast
  from assms(2) show ?thesis
  proof (cases rule: group_active_entries_cases)
    case ra': (ra ra)
    then show ?thesis using ra [OF ra'(1)] v a by (auto simp: entry_wf_def group_has_capacity_iff)
  next
    case na': (na na)
    then show ?thesis using na [OF na'(1)] v a by (auto simp: entry_wf_def group_has_capacity_iff)
  next
    case pd': (pd pd)
    then show ?thesis using pd [OF pd'(1)] v a by (auto simp: entry_wf_def group_has_capacity_iff)
  qed
qed

lemma global_slot_interval_None: "en_pool_len e = 0 \<or> en_pool_len e > 64 \<or> en_start_index e > en_end_index e \<Longrightarrow> global_slot_interval e = None \<and> entry_slots e = {}"
  by (auto simp: global_slot_interval_def entry_slots_def word_less_nat_alt)

lemma global_slot_interval_Some:
  assumes "0 < en_pool_len e" "en_pool_len e \<le> 64" "en_start_index e \<le> en_end_index e"
  obtains s t where "global_slot_interval e = Some (s, t)" and "entry_slots e = {unat s .. unat t}" and "unat s \<le> unat t"
proof -
  let ?k = "64 - unat (en_pool_len e)"
  define bs where "bs = (push_bit ?k 1 :: u128)"
  have k: "unat (64 - en_pool_len e) = ?k" using assms(2) by (simp add: unat_sub)
  have bs: "unat bs = 2 ^ ?k" "checked_shl (1 :: u128) ?k = Some bs"
    using unat_push_bit_1 [where 'a = 128, of ?k] by (simp_all add: bs_def checked_shl_def del: push_bit_of_1)
  have k64: "(2::nat) ^ ?k \<le> 2 ^ 64" by (intro power_increasing) simp_all
  have fits: "n * 2 ^ ?k < 2 ^ LENGTH(128)" if "n \<le> 4294967296" for n :: nat
    using mult_le_mono [OF that k64] by simp
  have end32: "unat (en_end_index e) + 1 \<le> 4294967296" and start32: "unat (en_start_index e) \<le> 4294967296"
    using unat_u32_less [of "en_end_index e"] unat_u32_less [of "en_start_index e"] by linarith+
  let ?s = "ucast (en_start_index e) * bs" and ?a = "ucast (en_end_index e) + 1 :: u128"
  have a: "unat ?a = unat (en_end_index e) + 1"
    using unat_add_fits [of "ucast (en_end_index e) :: u128" 1] end32 by (simp add: unat_ucast_u128)
  have s: "unat ?s = unat (en_start_index e) * 2 ^ ?k"
    using unat_mult_fits [of "ucast (en_start_index e)" bs] fits [OF start32] by (simp add: bs unat_ucast_u128)
  have t: "unat (?a * bs) = (unat (en_end_index e) + 1) * 2 ^ ?k"
    using unat_mult_fits [of ?a bs] fits [OF end32] by (simp add: bs a)
  have pos: "1 \<le> (unat (en_end_index e) + 1) * 2 ^ ?k" by (simp add: Suc_le_eq)
  have t1: "unat (?a * bs - 1) = (unat (en_end_index e) + 1) * 2 ^ ?k - 1" and le: "1 \<le> ?a * bs"
    using pos t by (simp_all add: unat_sub word_le_nat_alt del: mult_Suc)
  have "global_slot_interval e = Some (?s, ?a * bs - 1)"
  proof -
    have "\<not> (en_pool_len e = 0 \<or> en_pool_len e > 64 \<or> en_start_index e > en_end_index e)" using assms by auto
    moreover have "checked_mul (ucast (en_start_index e)) bs = Some ?s" "checked_add (ucast (en_end_index e)) 1 = Some ?a" "checked_mul ?a bs = Some (?a * bs)"
      using fits [OF start32] fits [OF end32] end32 by (simp_all add: checked_mul_unat checked_add_unat unat_ucast_u128 bs a)
    ultimately show ?thesis using le by (simp add: global_slot_interval_def k bs checked_sub_def)
  qed
  moreover have "entry_slots e = {unat ?s .. unat (?a * bs - 1)}"
  proof -
    have "x < m \<longleftrightarrow> x \<le> m - 1" if "1 \<le> m" for x m :: nat using that by linarith
    from this [OF pos] show ?thesis using entry_slots_interval [OF assms(3,1,2)] by (auto simp: s t1)
  qed
  moreover have "unat ?s \<le> unat (?a * bs - 1)"
  proof -
    have "unat (en_start_index e) * 2 ^ ?k < (unat (en_end_index e) + 1) * 2 ^ ?k"
      using assms(3) by (intro mult_strict_right_mono) (simp_all add: word_le_nat_alt)
    then show ?thesis unfolding s t1 by linarith
  qed
  ultimately show thesis by (rule that)
qed

lemma global_slot_interval_cases:
  obtains (none) "global_slot_interval e = None" "entry_slots e = {}"
  | (some) s t where "global_slot_interval e = Some (s, t)" "entry_slots e = {unat s .. unat t}" "unat s \<le> unat t"
proof (cases "en_pool_len e = 0 \<or> en_pool_len e > 64 \<or> en_start_index e > en_end_index e")
  case False
  then show thesis using global_slot_interval_Some [of e] some by (auto simp: word_gt_0 not_less)
next
  case True
  from none show thesis using global_slot_interval_None [OF True] by simp
qed

lemma check_wan_reserved_None: "check_wan_reserved s = None \<longleftrightarrow> 0 \<notin> entry_slots (se_entry s)"
  by (cases "se_entry s" rule: global_slot_interval_cases) (auto simp: check_wan_reserved_def unat_eq_zero)

lemma check_slot_overlap_None:
  "check_slot_overlap a b = None \<longleftrightarrow>
     se_group_instance a = se_group_instance b \<and> is_ra_na_pair (en_service_kind (se_entry a)) (en_service_kind (se_entry b)) \<or>
     entry_slots (se_entry a) \<inter> entry_slots (se_entry b) = {}"
proof (cases "se_entry a" rule: global_slot_interval_cases)
  case none
  then show ?thesis by (simp add: check_slot_overlap_def)
next
  case a: (some s t)
  show ?thesis
  proof (cases "se_entry b" rule: global_slot_interval_cases)
    case none
    then show ?thesis using a by (simp add: check_slot_overlap_def)
  next
    case b: (some s' t')
    have "entry_slots (se_entry a) \<inter> entry_slots (se_entry b) = {} \<longleftrightarrow> s > t' \<or> s' > t"
      using a(2,3) b(2,3) by (auto simp: word_less_nat_alt not_less)
    then show ?thesis using a(1) b(1) by (auto simp: check_slot_overlap_def Let_def)
  qed
qed

lemma entry_addrs_slots:
  assumes "entry_wf e"
  shows "entry_addrs e = (\<Union>s\<in>entry_slots e. block (entry_base e + s * 2 ^ 64) 64)"
proof -
  let ?l = "unat (en_pool_len e)" and ?s = "unat (en_start_index e)" and ?t = "unat (en_end_index e)"
  have wf: "en_start_index e \<le> en_end_index e" "0 < en_pool_len e" "en_pool_len e \<le> 64" "?s \<le> ?t" "?l \<le> 64"
    using assms by (auto simp: entry_wf_def word_le_nat_alt u8_le_unat)
  have pow: "(2::nat) ^ (64 - ?l) * 2 ^ 64 = 2 ^ (128 - ?l)" using wf(5) power_add [of "2::nat" "64 - ?l" 64] by simp
  define m where "m = (?t + 1) * 2 ^ (64 - ?l) - 1"
  have m: "m + 1 = (?t + 1) * 2 ^ (64 - ?l)" by (simp add: m_def Suc_le_eq)
  then have le: "?s * 2 ^ (64 - ?l) \<le> m"
    using mult_strict_right_mono [of ?s "?t + 1" "(2::nat) ^ (64 - ?l)"] wf(4) by simp
  have "entry_slots e = {?s * 2 ^ (64 - ?l) .. m}"
    unfolding entry_slots_interval [OF wf(1,2,3)] m [symmetric] by (simp add: atLeastLessThanSuc_atLeastAtMost)
  then have "(\<Union>s\<in>entry_slots e. block (entry_base e + s * 2 ^ 64) 64) =
      {entry_base e + ?s * 2 ^ (64 - ?l) * 2 ^ 64 ..< entry_base e + m * 2 ^ 64 + 2 ^ 64}"
    using blocks_union [OF le, of "entry_base e" "2 ^ 64"] by (simp add: block_def)
  moreover have "m * 2 ^ 64 + 2 ^ 64 = ?t * 2 ^ (128 - ?l) + 2 ^ (128 - ?l)"
  proof -
    have "m * 2 ^ 64 + 2 ^ 64 = (m + 1) * 2 ^ 64" by (simp only: distrib_right mult_1)
    also have "\<dots> = (?t + 1) * 2 ^ (128 - ?l)" by (simp only: m mult.assoc pow)
    finally show ?thesis by (simp only: distrib_right mult_1)
  qed
  ultimately show ?thesis using entry_addrs_interval [OF wf(1)] pow by (simp add: mult.assoc add.assoc)
qed

abbreviation group_entries :: "PdPrefixContextMap option \<Rightarrow> LanPrefixGroupConfig \<Rightarrow> ExpandedPrefixEntry list" where
  "group_entries ctx g \<equiv> group_active_entries g SlaacDhcpv6 ctx"

lemma pairwise_cong:
  assumes "\<And>g. V g \<Longrightarrow> I g \<longleftrightarrow> I' g" and "\<And>g h. V g \<Longrightarrow> V h \<Longrightarrow> X g h \<longleftrightarrow> X' g h"
  shows "(\<forall>g\<in>set gs. V g \<and> I g) \<and> (\<forall>j<length gs. \<forall>i<j. X (gs ! i) (gs ! j)) \<longleftrightarrow>
    (\<forall>g\<in>set gs. V g \<and> I' g) \<and> (\<forall>j<length gs. \<forall>i<j. X' (gs ! i) (gs ! j))"
  using assms by (meson nth_mem less_trans)

section \<open>What an accepted configuration guarantees\<close>


text \<open>Example: two groups under \<open>fd00::/56\<close>, the second one with a delegated range.\<close>

definition ex_group :: "string \<Rightarrow> u32 \<Rightarrow> PdPrefixRangeConfig option \<Rightarrow> LanPrefixGroupConfig" where
  "ex_group name i pd = \<lparr>pg_group_id = utf8 name, pg_parent = Static 0xfd000000000000000000000000000000 56,
     pg_ra = Some \<lparr>rc_pool_index = i, rc_preferred_lifetime = 300, rc_valid_lifetime = 600\<rparr>,
     pg_na = None, pg_pd = pd\<rparr>"

definition ex_range :: PdPrefixRangeConfig where
  "ex_range = \<lparr>pc_pool_len = 60, pc_start_index = 1, pc_end_index = 3\<rparr>"

definition ex_entry :: "PrefixGroupServiceKind \<Rightarrow> u32 \<Rightarrow> u32 \<Rightarrow> u8 \<Rightarrow> ExpandedPrefixEntry" where
  "ex_entry k s t l = \<lparr>en_parent = Resolved (normalize_ipv6_prefix 0xfd000000000000000000000000000000 56),
     en_parent_prefix_len = 56, en_service_kind = k, en_start_index = s, en_end_index = t, en_pool_len = l\<rparr>"

lemma ex_entries:
  "group_entries ctx (ex_group name i None) = [ex_entry Ra i i 64]"
  "group_entries ctx (ex_group name i (Some ex_range)) = [ex_entry Ra i i 64, ex_entry IaPd 1 3 60]"
  by (simp_all add: group_active_entries_def ex_group_def ex_entry_def ex_range_def Let_def)

lemma ex_projections:
  "pg_group_id (ex_group name i pd) = utf8 name" "en_service_kind (ex_entry k s t l) = k"
  "parents_are_comparable (ex_entry k s t l) (ex_entry k' s' t' l')"
  by (simp_all add: ex_group_def ex_entry_def parents_are_comparable_def)

lemma ex_addrs:
  "s \<le> t \<Longrightarrow> entry_addrs (ex_entry k s t l) =
     {entry_base (ex_entry Ra 1 1 64) + unat s * 2 ^ (128 - unat l) ..<
      entry_base (ex_entry Ra 1 1 64) + unat t * 2 ^ (128 - unat l) + 2 ^ (128 - unat l)}"
  using entry_addrs_interval [of "ex_entry k s t l"] by (simp add: ex_entry_def entry_base_def)

lemma ex_group_valid:
  "group_validate_with_pd_context (ex_group ''a'' 1 None) None = None"
  "group_validate_with_pd_context (ex_group ''b'' 2 (Some ex_range)) None = None"
proof -
  have "trim (utf8 ''a'') \<noteq> []" "trim (utf8 ''b'') \<noteq> []" by code_simp+
  then show "group_validate_with_pd_context (ex_group ''a'' 1 None) None = None"
    "group_validate_with_pd_context (ex_group ''b'' 2 (Some ex_range)) None = None"
    by (simp_all add: group_validate_with_pd_context_def ex_group_def ex_range_def group_has_capacity_iff)
qed


text \<open>C40: The check across all interfaces is exact.  It accepts iff no service of any interface, enabled or
  not, claims /64 slot 0, which belongs to the WAN link, and no two services claim the same slot, whatever
  their parents are, except router advertisements and address assignment of one group.\<close>

theorem global_slot_check_exact:
  "validate_global_prefix_conflicts pending existing ctx = None \<longleftrightarrow>
     (let es = sourced_entries (build_merged_configs pending existing) ctx in
      (\<forall>s\<in>set es. 0 \<notin> entry_slots (se_entry s)) \<and>
      (\<forall>j<length es. \<forall>i<j.
         se_group_instance (es ! i) = se_group_instance (es ! j) \<and>
         is_ra_na_pair (en_service_kind (se_entry (es ! i))) (en_service_kind (se_entry (es ! j))) \<or>
         entry_slots (se_entry (es ! i)) \<inter> entry_slots (se_entry (es ! j)) = {}))"
  by (simp add: validate_global_prefix_conflicts_def Let_def check_pairs_None check_wan_reserved_None check_slot_overlap_None)

definition ex_service :: "string \<Rightarrow> LanPrefixGroupConfig list \<Rightarrow> LanIPv6ServiceConfigV2" where
  "ex_service iface groups = \<lparr>s6_iface_name = utf8 iface, s6_enable = True,
     s6_config = \<lparr>c6_mode = Slaac, c6_ad_interval = 300, c6_lifetime = 300, c6_ra_flag = router_flags_from_u8 0,
       c6_prefix_groups = groups, c6_dhcpv6 = None\<rparr>\<rparr>"

theorem global_slot_check_exact_witness:
  "validate_global_prefix_conflicts (ex_service ''l'' [ex_group ''a'' 2 (Some ex_range)]) [ex_service ''g'' [ex_group ''b'' 1 None]] None = None \<and>
   validate_global_prefix_conflicts (ex_service ''l'' [ex_group ''a'' 1 None]) [ex_service ''g'' [ex_group ''b'' 1 None]] None \<noteq> None"
proof -
  have "utf8 ''l'' \<noteq> utf8 ''g''" by code_simp
  then show ?thesis
    unfolding global_slot_check_exact
    by (simp add: All_less_Suc2 sourced_entries_def build_merged_configs_def ex_service_def ex_entries entry_slots_interval ex_entry_def is_ra_na_pair_def)
qed

end
