(* ===== verification/Lan6_Subnets.thy ===== *)
theory Lan6_Subnets
  imports Lan6_Config
begin

text \<open>
  The subnets a LAN interface serves at run time: \<open>landscape/src/lan_service/lan_ipv6_server/mod.rs\<close>
  (\<open>compute_subnets\<close>, \<open>diff_subnets\<close>, \<open>PrefixState\<close>, \<open>DnsServers\<close>), the map of delegated prefixes
  (\<open>landscape-core/src/pd_prefix/map.rs\<close>) and the WAN address that is derived from a delegated prefix
  (\<open>landscape/src/wan_service/ipv6pd_client/v6.rs\<close>).

  The lemmas show that the subnets are the address blocks that the configuration checks of
  \<open>Lan6_Config\<close> compare, for every prefix a provider may delegate later, so that the checks made when
  the configuration is saved hold at run time.
\<close>

section \<open>Delegated prefixes\<close>

record IPV6PDPrefixStatus =
  ps_expected_pd_len :: u8
  ps_actual_prefix :: LDIAPrefix
  ps_meets_expected_pd_len :: bool

definition IPV6PDPrefixStatus_new :: "u8 \<Rightarrow> LDIAPrefix \<Rightarrow> IPV6PDPrefixStatus" where
  "IPV6PDPrefixStatus_new expected_pd_len actual_prefix =
     \<lparr>ps_expected_pd_len = expected_pd_len, ps_actual_prefix = actual_prefix,
      ps_meets_expected_pd_len = prefix_len_meets_expectation (ld_prefix_len actual_prefix) expected_pd_len\<rparr>"

type_synonym IAPrefixMap = "(u128, IPV6PDPrefixStatus) hmap"

definition store :: "u128 \<Rightarrow> LDIAPrefix \<Rightarrow> u8 \<Rightarrow> IAPrefixMap \<Rightarrow> IAPrefixMap" where
  "store link pre expected_pd_len self = hm_insert link (IPV6PDPrefixStatus_new expected_pd_len pre) self"

definition remove_link :: "u128 \<Rightarrow> IAPrefixMap \<Rightarrow> IPV6PDPrefixStatus option \<times> IAPrefixMap" where
  "remove_link link self = (hm_get self link, hm_remove link self)"

definition load_actual :: "IAPrefixMap \<Rightarrow> u128 \<Rightarrow> LDIAPrefix option" where
  "load_actual self link = map_option ps_actual_prefix (hm_get self link)"

definition load_for_lan :: "IAPrefixMap \<Rightarrow> u128 \<Rightarrow> (LDIAPrefix \<times> u8) option" where
  "load_for_lan self link =
     (case hm_get self link of
        None \<Rightarrow> None
      | Some status \<Rightarrow> if ps_meets_expected_pd_len status
                       then Some (ps_actual_prefix status, ps_expected_pd_len status) else None)"

definition derive_wan_pd_addr :: "LDIAPrefix \<Rightarrow> u64 \<Rightarrow> Ipv6Addr option" where
  "derive_wan_pd_addr ia_prefix shared_wan_iid =
     do {
       wan_prefix \<leftarrow>
         (if ld_prefix_len ia_prefix \<le> 63
          then map_option fst (checked_allocate_subnet (ld_prefix_ip ia_prefix) (ld_prefix_len ia_prefix) 64 0)
          else if ld_prefix_len ia_prefix = 64 then Some (ld_prefix_ip ia_prefix)
          else None);
       let prefix_bits = wan_prefix AND push_bit 64 (- 1);
       Some (prefix_bits OR ucast shared_wan_iid)
     }"

section \<open>Subnets\<close>

record PdSubnetConfig =
  sp_group_id :: bytes
  sp_parent :: Ipv6Addr
  sp_parent_len :: u8
  sp_pool_len :: u8
  sp_start_idx :: u32
  sp_end_idx :: u32

datatype SubnetSource = StaticSource | PdSource u128

record SubnetState =
  sn_group_id :: bytes
  sn_sub_prefix :: Ipv6Addr
  sn_sub_prefix_len :: u8
  sn_sub_router :: Ipv6Addr
  sn_pool_index :: u32
  sn_ra_preferred_lifetime :: u32
  sn_ra_valid_lifetime :: u32
  sn_is_na :: bool
  sn_has_ra :: bool
  sn_source :: SubnetSource
  sn_pd_config :: "PdSubnetConfig option"

definition has_router :: "SubnetState \<Rightarrow> bool" where
  "has_router self \<longleftrightarrow> sn_sub_router self \<noteq> 0"

fun runtime_parent :: "IAPrefixMap \<Rightarrow> PrefixParentSource \<Rightarrow> (Ipv6Addr \<times> u8) option" where
  "runtime_parent prefix_map (Static base len) = Some (normalize_prefix base len, len)"
| "runtime_parent prefix_map (Pd link iface snapshot) =
     (case load_for_lan prefix_map link of
        Some (pre, expected_pd_len) \<Rightarrow>
          if pd_expectation_fits_snapshot expected_pd_len snapshot then
            (let actual_network = normalize_prefix (ld_prefix_ip pre) (ld_prefix_len pre)
             in Some (normalize_prefix actual_network snapshot, snapshot))
          else None
      | None \<Rightarrow> None)"

fun subnet_source :: "PrefixParentSource \<Rightarrow> SubnetSource" where
  "subnet_source (Static base len) = StaticSource"
| "subnet_source (Pd link iface snapshot) = PdSource link"

definition uses_wan_reserved_subnet :: "LanPrefixGroupConfig \<Rightarrow> bool" where
  "uses_wan_reserved_subnet g \<longleftrightarrow>
     (case pg_ra g of Some ra \<Rightarrow> rc_pool_index ra = 0 | None \<Rightarrow> False) \<or>
     (case pg_na g of Some na \<Rightarrow> nc_pool_index na = 0 | None \<Rightarrow> False) \<or>
     (case pg_pd g of Some pd \<Rightarrow> pc_start_index pd = 0 | None \<Rightarrow> False)"

definition valid_pd :: "u8 \<Rightarrow> LanPrefixGroupConfig \<Rightarrow> PdPrefixRangeConfig option" where
  "valid_pd parent_len g =
     (case pg_pd g of
        None \<Rightarrow> None
      | Some pd \<Rightarrow>
          if pc_pool_len pd \<le> 64 \<and> pc_pool_len pd > parent_len \<and> pc_start_index pd \<le> pc_end_index pd \<and>
             ucast (pc_end_index pd) <
               (case checked_shl (1 :: u64) (unat (pc_pool_len pd - parent_len)) of Some m \<Rightarrow> m | None \<Rightarrow> - 1)
          then Some pd else None)"

definition pd_subnet_config :: "LanPrefixGroupConfig \<Rightarrow> Ipv6Addr \<Rightarrow> u8 \<Rightarrow> PdPrefixRangeConfig \<Rightarrow> PdSubnetConfig" where
  "pd_subnet_config g parent_ip parent_len pd =
     \<lparr>sp_group_id = pg_group_id g, sp_parent = parent_ip, sp_parent_len = parent_len, sp_pool_len = pc_pool_len pd,
      sp_start_idx = pc_start_index pd, sp_end_idx = pc_end_index pd\<rparr>"

fun update_first :: "('a \<Rightarrow> bool) \<Rightarrow> ('a \<Rightarrow> 'a) \<Rightarrow> 'a list \<Rightarrow> 'a list" where
  "update_first P f [] = []"
| "update_first P f (x # xs) = (if P x then f x # xs else x # update_first P f xs)"

definition push_ra :: "LanPrefixGroupConfig \<Rightarrow> Ipv6Addr \<Rightarrow> u8 \<Rightarrow> u32 \<Rightarrow> SubnetState list \<Rightarrow> SubnetState list" where
  "push_ra g parent_ip parent_len lifetime result =
     (case pg_ra g of
        None \<Rightarrow> result
      | Some ra \<Rightarrow>
          (case checked_allocate_subnet parent_ip parent_len 64 (ucast (rc_pool_index ra)) of
             Some (sub_prefix, sub_router) \<Rightarrow>
               result @ [\<lparr>sn_group_id = pg_group_id g, sn_sub_prefix = sub_prefix, sn_sub_prefix_len = 64,
                  sn_sub_router = sub_router, sn_pool_index = rc_pool_index ra,
                  sn_ra_preferred_lifetime = lifetime, sn_ra_valid_lifetime = lifetime * 2,
                  sn_is_na = False, sn_has_ra = True, sn_source = subnet_source (pg_parent g),
                  sn_pd_config = map_option (pd_subnet_config g parent_ip parent_len) (valid_pd parent_len g)\<rparr>]
           | None \<Rightarrow> result))"

definition push_na :: "LanPrefixGroupConfig \<Rightarrow> Ipv6Addr \<Rightarrow> u8 \<Rightarrow> SubnetState list \<Rightarrow> SubnetState list" where
  "push_na g parent_ip parent_len result =
     (case pg_na g of
        None \<Rightarrow> result
      | Some na \<Rightarrow>
          if (case pg_ra g of Some ra \<Rightarrow> rc_pool_index ra = nc_pool_index na | None \<Rightarrow> False)
          then rev (update_first (\<lambda>s. sn_group_id s = pg_group_id g) (\<lambda>s. s\<lparr>sn_is_na := True\<rparr>) (rev result))
          else
           (case checked_allocate_subnet parent_ip parent_len 64 (ucast (nc_pool_index na)) of
              Some (sub_prefix, sub_router) \<Rightarrow>
                result @ [\<lparr>sn_group_id = pg_group_id g, sn_sub_prefix = sub_prefix, sn_sub_prefix_len = 64,
                   sn_sub_router = sub_router, sn_pool_index = nc_pool_index na,
                   sn_ra_preferred_lifetime = 0, sn_ra_valid_lifetime = 0,
                   sn_is_na = True, sn_has_ra = False, sn_source = subnet_source (pg_parent g),
                   sn_pd_config = map_option (pd_subnet_config g parent_ip parent_len) (valid_pd parent_len g)\<rparr>]
            | None \<Rightarrow> result))"

definition push_pd_only :: "LanPrefixGroupConfig \<Rightarrow> Ipv6Addr \<Rightarrow> u8 \<Rightarrow> SubnetState list \<Rightarrow> SubnetState list" where
  "push_pd_only g parent_ip parent_len result =
     (case (pg_ra g, pg_na g, valid_pd parent_len g) of
        (None, None, Some pd) \<Rightarrow>
          result @ [\<lparr>sn_group_id = pg_group_id g, sn_sub_prefix = parent_ip, sn_sub_prefix_len = parent_len,
             sn_sub_router = 0, sn_pool_index = pc_start_index pd,
             sn_ra_preferred_lifetime = 0, sn_ra_valid_lifetime = 0,
             sn_is_na = False, sn_has_ra = False, sn_source = subnet_source (pg_parent g),
             sn_pd_config = Some (pd_subnet_config g parent_ip parent_len pd)\<rparr>]
      | _ \<Rightarrow> result)"

definition compute_group :: "IAPrefixMap \<Rightarrow> u32 \<Rightarrow> LanPrefixGroupConfig \<Rightarrow> SubnetState list \<Rightarrow> SubnetState list" where
  "compute_group prefix_map lifetime g result =
     (if uses_wan_reserved_subnet g then result
      else case runtime_parent prefix_map (pg_parent g) of
        None \<Rightarrow> result
      | Some (parent_ip, parent_len) \<Rightarrow>
          push_pd_only g parent_ip parent_len
            (push_na g parent_ip parent_len (push_ra g parent_ip parent_len lifetime result)))"

definition compute_subnets :: "LanPrefixGroupConfig list \<Rightarrow> IAPrefixMap \<Rightarrow> u32 \<Rightarrow> SubnetState list" where
  "compute_subnets groups prefix_map lifetime = fold (compute_group prefix_map lifetime) groups []"

record SubnetDiff =
  df_added :: "SubnetState list"
  df_removed :: "SubnetState list"

definition diff_subnets :: "SubnetState list \<Rightarrow> SubnetState list \<Rightarrow> SubnetDiff" where
  "diff_subnets old new =
     \<lparr>df_added = filter (\<lambda>s. s \<notin> set old) new, df_removed = filter (\<lambda>s. s \<notin> set new) old\<rparr>"

section \<open>What the services announce\<close>

record RaEntry =
  re_prefix :: Ipv6Addr
  re_prefix_len :: u8
  re_router :: Ipv6Addr
  re_preferred_lifetime :: u32
  re_valid_lifetime :: u32

record NaEntry =
  ne_prefix :: Ipv6Addr
  ne_prefix_len :: u8
  ne_router :: Ipv6Addr

record PrefixState =
  ra_entries :: "RaEntry list"
  na_entries :: "NaEntry list"
  pd_ranges :: "PdRange list"

definition PrefixState_new :: PrefixState where
  "PrefixState_new = \<lparr>ra_entries = [], na_entries = [], pd_ranges = []\<rparr>"

definition pd_range_of :: "PdSubnetConfig \<Rightarrow> PdRange" where
  "pd_range_of pd = \<lparr>rg_group_id = sp_group_id pd, rg_parent = sp_parent pd, rg_parent_len = sp_parent_len pd,
     rg_pool_len = sp_pool_len pd, rg_start_idx = sp_start_idx pd, rg_end_idx = sp_end_idx pd\<rparr>"

fun refresh_loop :: "SubnetState list \<Rightarrow> bytes list \<Rightarrow> PrefixState \<Rightarrow> PrefixState" where
  "refresh_loop [] seen_pd_groups self = self"
| "refresh_loop (sn # sns) seen_pd_groups self =
     (let self = (if sn_has_ra sn
                  then self\<lparr>ra_entries := ra_entries self @
                     [\<lparr>re_prefix = sn_sub_prefix sn, re_prefix_len = sn_sub_prefix_len sn, re_router = sn_sub_router sn,
                       re_preferred_lifetime = sn_ra_preferred_lifetime sn, re_valid_lifetime = sn_ra_valid_lifetime sn\<rparr>]\<rparr>
                  else self);
          self = (if sn_is_na sn
                  then self\<lparr>na_entries := na_entries self @
                     [\<lparr>ne_prefix = sn_sub_prefix sn, ne_prefix_len = sn_sub_prefix_len sn, ne_router = sn_sub_router sn\<rparr>]\<rparr>
                  else self)
      in case sn_pd_config sn of
           Some pd \<Rightarrow>
             if sp_group_id pd \<in> set seen_pd_groups then refresh_loop sns seen_pd_groups self
             else refresh_loop sns (sp_group_id pd # seen_pd_groups) (self\<lparr>pd_ranges := pd_ranges self @ [pd_range_of pd]\<rparr>)
         | None \<Rightarrow> refresh_loop sns seen_pd_groups self)"

definition refresh :: "SubnetState list \<Rightarrow> PrefixState" where
  "refresh subnets = refresh_loop subnets [] PrefixState_new"

record DnsServers =
  static_dns :: "Ipv6Addr option"
  dynamic_dns :: "Ipv6Addr option"

definition DnsServers_new :: DnsServers where
  "DnsServers_new = \<lparr>static_dns = None, dynamic_dns = None\<rparr>"

definition dns_iter :: "DnsServers \<Rightarrow> Ipv6Addr list" where
  "dns_iter self =
     (case static_dns self of Some ip \<Rightarrow> [ip] | None \<Rightarrow> []) @ (case dynamic_dns self of Some ip \<Rightarrow> [ip] | None \<Rightarrow> [])"

definition dns_to_vec :: "DnsServers \<Rightarrow> Ipv6Addr \<Rightarrow> Ipv6Addr list" where
  "dns_to_vec self link_local =
     link_local # (case static_dns self of Some ip \<Rightarrow> [ip] | None \<Rightarrow> []) @
     (case dynamic_dns self of Some ip \<Rightarrow> [ip] | None \<Rightarrow> [])"

definition pick_one :: "SubnetState list \<Rightarrow> (SubnetSource \<Rightarrow> bool) \<Rightarrow> Ipv6Addr option" where
  "pick_one subnets pred = map_option sn_sub_router (find (\<lambda>s. has_router s \<and> pred (sn_source s)) subnets)"

definition refresh_dns_servers :: "SubnetState list \<Rightarrow> DnsServers" where
  "refresh_dns_servers cached_subnets =
     \<lparr>static_dns = pick_one cached_subnets (\<lambda>s. case s of StaticSource \<Rightarrow> True | PdSource _ \<Rightarrow> False),
      dynamic_dns = pick_one cached_subnets (\<lambda>s. case s of StaticSource \<Rightarrow> False | PdSource _ \<Rightarrow> True)\<rparr>"

section \<open>The subnets of a group are the blocks of its entries\<close>

definition pd_addrs :: "PdSubnetConfig \<Rightarrow> nat set" where
  "pd_addrs pd = (\<Union>i. case resolve_pd_prefix [pd_range_of pd] \<lparr>key_group_id = sp_group_id pd, key_sub_index = i\<rparr> of
     Some (p, l) \<Rightarrow> block (unat p) (unat l) | None \<Rightarrow> {})"

definition lan_addrs :: "SubnetState \<Rightarrow> nat set" where
  "lan_addrs sn = (if sn_has_ra sn \<or> sn_is_na sn then block (unat (sn_sub_prefix sn)) (unat (sn_sub_prefix_len sn)) else {}) \<union>
     (case sn_pd_config sn of Some pd \<Rightarrow> pd_addrs pd | None \<Rightarrow> {})"

definition entries_at :: "Ipv6Addr \<Rightarrow> PdPrefixContextMap option \<Rightarrow> LanPrefixGroupConfig \<Rightarrow> ExpandedPrefixEntry set" where
  "entries_at ip ctx g = (\<lambda>e. e\<lparr>en_parent := Resolved ip\<rparr>) ` set (group_entries ctx g)"

lemma runtime_parent_aligned:
  "runtime_parent pm par = Some (ip, l) \<Longrightarrow> l = resolved_parent_prefix_len par \<and> unat ip = align (unat l) (unat ip)"
  by (cases "(pm, par)" rule: runtime_parent.cases)
    (auto simp: normalize_prefix_align align_align Let_def split: option.splits if_splits)

lemma entries_at_wf:
  assumes "group_validate_with_pd_context g ctx' = None" and "runtime_parent pm (pg_parent g) = Some (ip, l)" and "e \<in> entries_at ip ctx g"
  shows "entry_wf e" and "entry_base e = unat ip" and "en_parent_prefix_len e = l"
proof -
  obtain e' where e': "e' \<in> set (group_entries ctx g)" "e = e'\<lparr>en_parent := Resolved ip\<rparr>" using assms(3) by (auto simp: entries_at_def)
  note p = runtime_parent_aligned [OF assms(2)] group_active_entries_parent [OF e'(1)]
  show "entry_base e = unat ip" "en_parent_prefix_len e = l" using p e'(2) by (simp_all add: entry_base_def)
  then show "entry_wf e" using validated_entries_wf [OF assms(1) e'(1)] p e'(2) by (auto simp: entry_wf_def intro: exI [of _ ip])
qed

lemma entries_at_mem:
  "pg_ra g = Some ra \<Longrightarrow> \<lparr>en_parent = Resolved ip, en_parent_prefix_len = resolved_parent_prefix_len (pg_parent g), en_service_kind = Ra,
     en_start_index = rc_pool_index ra, en_end_index = rc_pool_index ra, en_pool_len = 64\<rparr> \<in> entries_at ip ctx g"
  "pg_na g = Some na \<Longrightarrow> \<lparr>en_parent = Resolved ip, en_parent_prefix_len = resolved_parent_prefix_len (pg_parent g), en_service_kind = Na,
     en_start_index = nc_pool_index na, en_end_index = nc_pool_index na, en_pool_len = 64\<rparr> \<in> entries_at ip ctx g"
  "pg_pd g = Some pd \<Longrightarrow> \<lparr>en_parent = Resolved ip, en_parent_prefix_len = resolved_parent_prefix_len (pg_parent g), en_service_kind = IaPd,
     en_start_index = pc_start_index pd, en_end_index = pc_end_index pd, en_pool_len = pc_pool_len pd\<rparr> \<in> entries_at ip ctx g"
  by (auto simp: entries_at_def group_active_entries_def Let_def image_Un split: option.splits)

lemma allocated_subnet:
  assumes "entry_wf \<lparr>en_parent = Resolved ip, en_parent_prefix_len = l, en_service_kind = k, en_start_index = i, en_end_index = i, en_pool_len = 64\<rparr>" (is "entry_wf ?e")
    and "unat ip = align (unat l) (unat ip)"
  obtains n r where "checked_allocate_subnet ip l 64 (ucast i) = Some (n, r)" and "block (unat n) 64 = entry_addrs ?e" and "unat r = unat n + 1"
proof -
  have wf: "l \<le> 64" "unat (ucast i :: u128) < 2 ^ (unat (64 :: u8) - unat l)" using assms(1) by (auto simp: entry_wf_def unat_ucast_u128)
  obtain n r where n: "checked_allocate_subnet ip l 64 (ucast i) = Some (n, r)"
      "unat n = align (unat l) (unat ip) + unat i * 2 ^ 64" "unat r = unat n + 1"
    by (rule checked_allocate_subnet_Some [OF wf(1) _ _ wf(2), of ip]) (auto simp: unat_ucast_u128)
  show thesis by (rule that [OF n(1) _ n(3)]) (use n(2) assms(2) in \<open>simp add: entry_addrs_def entry_base_def\<close>)
qed

lemma valid_pd_eq:
  assumes "0 < l"
  shows "valid_pd l g = (case pg_pd g of None \<Rightarrow> None | Some pd \<Rightarrow>
     if pc_pool_len pd \<le> 64 \<and> group_has_capacity (pc_start_index pd) (pc_end_index pd) (pc_pool_len pd) l then Some pd else None)"
  by (auto simp: valid_pd_def group_has_capacity_def Let_def not_less split: option.splits)

lemma pd_addrs_entry:
  assumes "entry_wf \<lparr>en_parent = Resolved ip, en_parent_prefix_len = l, en_service_kind = k, en_start_index = pc_start_index pd,
      en_end_index = pc_end_index pd, en_pool_len = pc_pool_len pd\<rparr>" (is "entry_wf ?e")
    and "unat ip = align (unat l) (unat ip)"
  shows "pd_addrs (pd_subnet_config g ip l pd) = entry_addrs ?e"
proof -
  let ?sp = "pd_subnet_config g ip l pd" and ?r = "pd_range_of (pd_subnet_config g ip l pd)"
  let ?key = "\<lambda>i. \<lparr>key_group_id = sp_group_id (pd_subnet_config g ip l pd), key_sub_index = i\<rparr>"
  have rg: "rg_group_id ?r = pg_group_id g" "rg_parent ?r = ip" "rg_parent_len ?r = l" "rg_pool_len ?r = pc_pool_len pd"
    "rg_start_idx ?r = pc_start_index pd" "rg_end_idx ?r = pc_end_index pd" "sp_group_id ?sp = pg_group_id g"
    by (simp_all add: pd_range_of_def pd_subnet_config_def)
  have ok: "range_ok ?r" using assms(1) by (auto simp: range_ok_def entry_wf_def rg)
  have inr: "\<exists>p. resolve_pd_prefix [?r] (?key i) = Some (p, pc_pool_len pd) \<and> unat p = unat ip + unat i * 2 ^ (128 - unat (pc_pool_len pd))"
    if "pc_start_index pd \<le> i" "i \<le> pc_end_index pd" for i
    using resolve_pd_prefix_block [OF ok, of "?key i" "[?r]"] that assms(2) by (auto simp: rg)
  have out: "resolve_pd_prefix [?r] (?key i) = None" if "\<not> (pc_start_index pd \<le> i \<and> i \<le> pc_end_index pd)" for i
    using that by (auto simp: resolve_pd_prefix_def rg not_le)
  have "pd_addrs ?sp = (\<Union>i\<in>{i. pc_start_index pd \<le> i \<and> i \<le> pc_end_index pd}. block (unat ip + unat i * 2 ^ (128 - unat (pc_pool_len pd))) (unat (pc_pool_len pd)))"
  proof -
    have "(case resolve_pd_prefix [?r] (?key i) of Some (p, l) \<Rightarrow> block (unat p) (unat l) | None \<Rightarrow> {}) =
        (if pc_start_index pd \<le> i \<and> i \<le> pc_end_index pd
         then block (unat ip + unat i * 2 ^ (128 - unat (pc_pool_len pd))) (unat (pc_pool_len pd)) else {})" for i
      using inr [of i] out [of i] by auto
    then show ?thesis unfolding pd_addrs_def by auto
  qed
  also have "\<dots> = entry_addrs ?e"
  proof -
    have "{unat (pc_start_index pd) .. unat (pc_end_index pd)} = unat ` {i. pc_start_index pd \<le> i \<and> i \<le> pc_end_index pd}"
    proof (safe)
      fix x assume x: "x \<in> {unat (pc_start_index pd)..unat (pc_end_index pd)}"
      then have "x < 4294967296" using order_le_less_trans [OF _ unat_u32_less [of "pc_end_index pd"], of x] by simp
      then have "unat (word_of_nat x :: u32) = x" by (simp add: unsigned_of_nat take_bit_nat_eq_self)
      with x show "x \<in> unat ` {i. pc_start_index pd \<le> i \<and> i \<le> pc_end_index pd}"
        by (intro image_eqI [of _ _ "word_of_nat x"]) (simp_all add: word_le_nat_alt)
    qed (simp_all add: word_le_nat_alt)
    then show ?thesis by (simp add: entry_addrs_def entry_base_def)
  qed
  finally show ?thesis .
qed

abbreviation ra_entry_at :: "Ipv6Addr \<Rightarrow> u8 \<Rightarrow> RaPrefixConfig \<Rightarrow> ExpandedPrefixEntry" where
  "ra_entry_at ip l ra \<equiv> \<lparr>en_parent = Resolved ip, en_parent_prefix_len = l, en_service_kind = Ra,
     en_start_index = rc_pool_index ra, en_end_index = rc_pool_index ra, en_pool_len = 64\<rparr>"

abbreviation na_entry_at :: "Ipv6Addr \<Rightarrow> u8 \<Rightarrow> NaPrefixConfig \<Rightarrow> ExpandedPrefixEntry" where
  "na_entry_at ip l na \<equiv> \<lparr>en_parent = Resolved ip, en_parent_prefix_len = l, en_service_kind = Na,
     en_start_index = nc_pool_index na, en_end_index = nc_pool_index na, en_pool_len = 64\<rparr>"

abbreviation pd_entry_at :: "Ipv6Addr \<Rightarrow> u8 \<Rightarrow> PdPrefixRangeConfig \<Rightarrow> ExpandedPrefixEntry" where
  "pd_entry_at ip l pd \<equiv> \<lparr>en_parent = Resolved ip, en_parent_prefix_len = l, en_service_kind = IaPd,
     en_start_index = pc_start_index pd, en_end_index = pc_end_index pd, en_pool_len = pc_pool_len pd\<rparr>"

lemma entries_at_eq:
  "entries_at ip ctx g =
     (case pg_ra g of Some ra \<Rightarrow> {ra_entry_at ip (resolved_parent_prefix_len (pg_parent g)) ra} | None \<Rightarrow> {}) \<union>
     (case pg_na g of Some na \<Rightarrow> {na_entry_at ip (resolved_parent_prefix_len (pg_parent g)) na} | None \<Rightarrow> {}) \<union>
     (case pg_pd g of Some pd \<Rightarrow> {pd_entry_at ip (resolved_parent_prefix_len (pg_parent g)) pd} | None \<Rightarrow> {})"
  by (auto simp: entries_at_def group_active_entries_def Let_def image_Un split: option.splits)

lemma validated_not_reserved: "group_validate_with_pd_context g ctx = None \<Longrightarrow> \<not> uses_wan_reserved_subnet g"
  by (auto simp: uses_wan_reserved_subnet_def group_validate_with_pd_context_def Let_def split: option.splits if_splits)

lemma validated_pd:
  assumes "group_validate_with_pd_context g ctx = None"
  shows "valid_pd (resolved_parent_prefix_len (pg_parent g)) g = pg_pd g"
proof -
  have "0 < resolved_parent_prefix_len (pg_parent g)"
    using assms by (auto simp: group_validate_with_pd_context_def Let_def dest!: validated_parent_len split: if_splits)
  then show ?thesis
    using assms by (auto simp: valid_pd_eq group_validate_with_pd_context_def Let_def not_less split: option.splits if_splits)
qed

text \<open>The parts of a validated group at run time, under the parent \<open>ip/l\<close>.\<close>

lemma group_parts:
  assumes "group_validate_with_pd_context g ctx' = None" and "runtime_parent pm (pg_parent g) = Some (ip, l)"
  shows "pg_ra g = Some ra \<Longrightarrow> \<exists>n r. checked_allocate_subnet ip l 64 (ucast (rc_pool_index ra)) = Some (n, r) \<and> block (unat n) 64 = entry_addrs (ra_entry_at ip l ra)"
    and "pg_na g = Some na \<Longrightarrow> \<exists>n r. checked_allocate_subnet ip l 64 (ucast (nc_pool_index na)) = Some (n, r) \<and> block (unat n) 64 = entry_addrs (na_entry_at ip l na)"
    and "pg_pd g = Some pd \<Longrightarrow> pd_addrs (pd_subnet_config g ip l pd) = entry_addrs (pd_entry_at ip l pd)"
proof -
  note p = runtime_parent_aligned [OF assms(2)]
  note wf = entries_at_wf(1) [OF assms, of _ None]
  show "\<exists>n r. checked_allocate_subnet ip l 64 (ucast (rc_pool_index ra)) = Some (n, r) \<and> block (unat n) 64 = entry_addrs (ra_entry_at ip l ra)" if "pg_ra g = Some ra"
    using allocated_subnet [of ip l Ra "rc_pool_index ra"] wf [of "ra_entry_at ip l ra"] p that by (force simp: entries_at_eq)
  show "\<exists>n r. checked_allocate_subnet ip l 64 (ucast (nc_pool_index na)) = Some (n, r) \<and> block (unat n) 64 = entry_addrs (na_entry_at ip l na)" if "pg_na g = Some na"
    using allocated_subnet [of ip l Na "nc_pool_index na"] wf [of "na_entry_at ip l na"] p that by (force simp: entries_at_eq)
  show "pd_addrs (pd_subnet_config g ip l pd) = entry_addrs (pd_entry_at ip l pd)" if "pg_pd g = Some pd"
    using wf [of "pd_entry_at ip l pd"] p that by (intro pd_addrs_entry) (auto simp: entries_at_eq)
qed

lemma compute_group_None: "runtime_parent pm (pg_parent g) = None \<Longrightarrow> compute_group pm lt g res = res"
  by (simp add: compute_group_def)

lemma compute_group_append:
  assumes "group_validate_with_pd_context g ctx' = None"
  shows "compute_group pm lt g res = res @ compute_group pm lt g []"
proof (cases "runtime_parent pm (pg_parent g)")
  case (Some p)
  obtain ip l where p: "p = (ip, l)" by (cases p)
  note parts = group_parts [OF assms Some [unfolded p]]
  show ?thesis
    using parts validated_not_reserved [OF assms] Some p
    by (cases "pg_ra g"; cases "pg_na g") (auto simp: compute_group_def push_ra_def push_na_def push_pd_only_def split: option.splits)
qed (simp add: compute_group_None)

lemma compute_group_addrs:
  assumes "group_validate_with_pd_context g ctx' = None" and "runtime_parent pm (pg_parent g) = Some (ip, l)"
  shows "\<Union> (lan_addrs ` set (compute_group pm lt g [])) = \<Union> (entry_addrs ` entries_at ip ctx g)"
proof -
  have l: "l = resolved_parent_prefix_len (pg_parent g)" using runtime_parent_aligned [OF assms(2)] by simp
  note simps = compute_group_def push_ra_def push_na_def push_pd_only_def lan_addrs_def assms(2)
    validated_not_reserved [OF assms(1)] validated_pd [OF assms(1), folded l]
  note parts = group_parts [OF assms]
  show ?thesis
  proof (cases "pg_ra g")
    case ra: (Some ra)
    obtain n r where n: "checked_allocate_subnet ip l 64 (ucast (rc_pool_index ra)) = Some (n, r)" "block (unat n) 64 = entry_addrs (ra_entry_at ip l ra)"
      using parts(1) [OF ra] by blast
    show ?thesis
    proof (cases "pg_na g")
      case na: (Some na)
      obtain m s where m: "checked_allocate_subnet ip l 64 (ucast (nc_pool_index na)) = Some (m, s)" "block (unat m) 64 = entry_addrs (na_entry_at ip l na)"
        using parts(2) [OF na] by blast
      have same: "nc_pool_index na = rc_pool_index ra \<Longrightarrow> m = n" using m n by simp
      show ?thesis unfolding entries_at_eq l [symmetric]
        using n m same parts(3) by (cases "pg_pd g") (auto simp: simps ra na)
    next
      case None
      then show ?thesis unfolding entries_at_eq l [symmetric] using n ra parts(3) by (cases "pg_pd g") (auto simp: simps)
    qed
  next
    case ra: None
    show ?thesis
    proof (cases "pg_na g")
      case na: (Some na)
      obtain m s where "checked_allocate_subnet ip l 64 (ucast (nc_pool_index na)) = Some (m, s)" "block (unat m) 64 = entry_addrs (na_entry_at ip l na)"
        using parts(2) [OF na] by blast
      then show ?thesis unfolding entries_at_eq l [symmetric] using parts(3) by (cases "pg_pd g") (auto simp: simps ra na)
    next
      case None
      then show ?thesis unfolding entries_at_eq l [symmetric] using ra parts(3) by (cases "pg_pd g") (auto simp: simps)
    qed
  qed
qed

lemma compute_group_tags:
  assumes "group_validate_with_pd_context g ctx' = None" and "sn \<in> set (compute_group pm lt g [])"
  shows "sn_group_id sn = pg_group_id g \<and> sn_source sn = subnet_source (pg_parent g)"
  using assms(2) by (auto simp: compute_group_def push_ra_def push_na_def push_pd_only_def split: option.splits if_splits)

lemma compute_subnets_mem:
  assumes "\<forall>g\<in>set gs. group_validate_with_pd_context g ctx = None" and "sn \<in> set (compute_subnets gs pm lt)"
  shows "\<exists>g\<in>set gs. sn \<in> set (compute_group pm lt g [])"
proof -
  have "fold (compute_group pm lt) gs res = res @ concat (map (\<lambda>g. compute_group pm lt g []) gs)" for res
    using assms(1)
  proof (induction gs arbitrary: res)
    case (Cons g gs)
    have "compute_group pm lt g res = res @ compute_group pm lt g []" using Cons.prems by (intro compute_group_append [of g ctx]) simp
    moreover have "fold (compute_group pm lt) gs res' = res' @ concat (map (\<lambda>g. compute_group pm lt g []) gs)" for res'
      using Cons.prems by (intro Cons.IH) simp
    ultimately show ?case by simp
  qed simp
  with assms(2) show ?thesis by (auto simp: compute_subnets_def)
qed

section \<open>Positions in a concatenation\<close>

definition flat_pos :: "'a list list \<Rightarrow> nat \<Rightarrow> nat \<Rightarrow> nat" where
  "flat_pos xss i a = length (concat (take i xss)) + a"

lemma flat_pos_nth:
  assumes "i < length xss" and "a < length (xss ! i)"
  shows "flat_pos xss i a < length (concat xss)" and "concat xss ! flat_pos xss i a = xss ! i ! a"
proof -
  have "concat xss = concat (take i xss) @ xss ! i @ concat (drop (Suc i) xss)"
    by (subst id_take_nth_drop [OF assms(1)]) simp
  then show "flat_pos xss i a < length (concat xss)" "concat xss ! flat_pos xss i a = xss ! i ! a"
    using assms(2) by (simp_all add: flat_pos_def nth_append)
qed

lemma flat_pos_less:
  assumes "i < j" "j < length xss" and "a < length (xss ! i)"
  shows "flat_pos xss i a < flat_pos xss j b"
proof -
  have "concat (take (Suc i) xss) = concat (take i xss) @ xss ! i" using assms by (simp add: take_Suc_conv_app_nth)
  moreover have "concat (take j xss) = concat (take (Suc i) xss) @ concat (take (j - Suc i) (drop (Suc i) xss))"
    using assms(1) take_add [of "Suc i" "j - Suc i" xss] by simp
  ultimately show ?thesis using assms(3) by (simp add: flat_pos_def)
qed

lemma flat_pos_inj:
  assumes "i < length xss" "a < length (xss ! i)" "j < length xss" "b < length (xss ! j)" and "(i, a) \<noteq> (j, b)"
  shows "flat_pos xss i a \<noteq> flat_pos xss j b"
  using flat_pos_less [of i j xss a b] flat_pos_less [of j i xss b a] assms
  by (cases i j rule: linorder_cases) (auto simp: flat_pos_def)

section \<open>The global check covers every run\<close>

lemma source_groups_mem:
  "k < length gs \<Longrightarrow> e \<in> set (group_entries ctx (snd (gs ! k))) \<Longrightarrow>
     \<exists>s\<in>set (source_groups ctx n gs). se_group_instance s = n + k \<and> se_entry s = e"
proof (induction ctx n gs arbitrary: k rule: source_groups.induct)
  case (2 ctx n iface g rest)
  show ?case
  proof (cases k)
    case 0
    with 2(3) have "\<lparr>se_group_instance = n, se_iface_name = iface, se_group_id = pg_group_id g, se_entry = e\<rparr> \<in> set (source_groups ctx n ((iface, g) # rest))"
      by simp
    with 0 show ?thesis by (auto intro!: bexI)
  next
    case (Suc k')
    then have "\<exists>s\<in>set (source_groups ctx (n + 1) rest). se_group_instance s = n + 1 + k' \<and> se_entry s = e"
      using 2(2,3) by (intro 2(1)) simp_all
    with Suc show ?thesis by auto
  qed
qed simp

lemma accepted_slots:
  fixes pending :: LanIPv6ServiceConfigV2
  assumes acc: "validate_global_prefix_conflicts pending existing ctx = None"
    and merged: "merged = build_merged_configs pending existing"
    and i: "i < length merged" "a < length (c6_prefix_groups (s6_config (merged ! i)))"
    and e: "e \<in> set (group_entries ctx (c6_prefix_groups (s6_config (merged ! i)) ! a))"
  shows "0 \<notin> entry_slots e"
    and "j < length merged \<Longrightarrow> b < length (c6_prefix_groups (s6_config (merged ! j))) \<Longrightarrow> (i, a) \<noteq> (j, b) \<Longrightarrow>
      e' \<in> set (group_entries ctx (c6_prefix_groups (s6_config (merged ! j)) ! b)) \<Longrightarrow> entry_slots e \<inter> entry_slots e' = {}"
proof -
  define xss where "xss = map (\<lambda>c. map (\<lambda>g. (s6_iface_name c, g)) (c6_prefix_groups (s6_config c))) merged"
  have es: "sourced_entries merged ctx = source_groups ctx 0 (concat xss)" by (simp add: sourced_entries_def xss_def)
  have chk: "\<forall>s\<in>set (sourced_entries merged ctx). 0 \<notin> entry_slots (se_entry s)"
    and pairs: "\<forall>q<length (sourced_entries merged ctx). \<forall>p<q. check_slot_overlap (sourced_entries merged ctx ! p) (sourced_entries merged ctx ! q) = None"
    using acc by (simp_all add: validate_global_prefix_conflicts_def Let_def merged check_wan_reserved_None check_pairs_None)
  have src: "\<exists>s\<in>set (sourced_entries merged ctx). se_group_instance s = flat_pos xss i a \<and> se_entry s = e"
    if "i < length merged" "a < length (c6_prefix_groups (s6_config (merged ! i)))"
      "e \<in> set (group_entries ctx (c6_prefix_groups (s6_config (merged ! i)) ! a))" for i a e
  proof -
    have "i < length xss" "a < length (xss ! i)" using that by (simp_all add: xss_def)
    from flat_pos_nth [OF this] show ?thesis
      using source_groups_mem [of "flat_pos xss i a" "concat xss" e ctx 0] that by (simp add: es xss_def)
  qed
  show "0 \<notin> entry_slots e" using src [OF i e] chk by auto
  show "entry_slots e \<inter> entry_slots e' = {}" if j: "j < length merged" "b < length (c6_prefix_groups (s6_config (merged ! j)))"
    and ne: "(i, a) \<noteq> (j, b)" and e': "e' \<in> set (group_entries ctx (c6_prefix_groups (s6_config (merged ! j)) ! b))"
  proof -
    obtain s t where s: "s \<in> set (sourced_entries merged ctx)" "se_group_instance s = flat_pos xss i a" "se_entry s = e"
      and t: "t \<in> set (sourced_entries merged ctx)" "se_group_instance t = flat_pos xss j b" "se_entry t = e'"
      using src [OF i e] src [OF j e'] by blast
    have inst: "se_group_instance s \<noteq> se_group_instance t"
      using flat_pos_inj [of i xss a j b] i j ne by (simp add: s t xss_def)
    obtain p q where pq: "p < length (sourced_entries merged ctx)" "sourced_entries merged ctx ! p = s"
        "q < length (sourced_entries merged ctx)" "sourced_entries merged ctx ! q = t"
      using s(1) t(1) by (meson in_set_conv_nth)
    have "p \<noteq> q" using pq inst by auto
    then have "check_slot_overlap s t = None \<or> check_slot_overlap t s = None"
      using pairs pq by (metis linorder_neqE_nat)
    then show ?thesis using inst s(3) t(3) by (auto simp: check_slot_overlap_None)
  qed
qed

section \<open>The run-time parent of a delegated prefix\<close>

definition prefix_map_ok :: "IAPrefixMap \<Rightarrow> bool" where
  "prefix_map_ok pm \<longleftrightarrow> (\<forall>link st. hm_get pm link = Some st \<longrightarrow>
     ps_meets_expected_pd_len st = prefix_len_meets_expectation (ld_prefix_len (ps_actual_prefix st)) (ps_expected_pd_len st))"

lemma prefix_map_ok_ops:
  "prefix_map_ok []" "prefix_map_ok pm \<Longrightarrow> prefix_map_ok (store link pre len pm)" "prefix_map_ok pm \<Longrightarrow> prefix_map_ok (snd (remove_link link pm))"
  by (auto simp: prefix_map_ok_def store_def remove_link_def IPV6PDPrefixStatus_new_def split: if_splits)

lemma runtime_parent_pd:
  assumes "prefix_map_ok pm" and "runtime_parent pm (Pd link iface snapshot) = Some (ip, l)" and "load_actual pm link = Some pre"
  shows "unat ip = align (unat (ld_prefix_len pre)) (unat (ld_prefix_ip pre))" and "ld_prefix_len pre \<le> snapshot"
proof -
  obtain st where st: "hm_get pm link = Some st" "ps_actual_prefix st = pre" using assms(3) by (auto simp: load_actual_def)
  from assms(1,2) st have le: "ld_prefix_len pre \<le> ps_expected_pd_len st" "ps_expected_pd_len st \<le> snapshot"
    and ip: "ip = normalize_prefix (normalize_prefix (ld_prefix_ip pre) (ld_prefix_len pre)) snapshot"
    by (auto simp: prefix_map_ok_def load_for_lan_def prefix_len_meets_expectation_def pd_expectation_fits_snapshot_def Let_def split: if_splits)
  from le show "ld_prefix_len pre \<le> snapshot" by simp
  then show "unat ip = align (unat (ld_prefix_len pre)) (unat (ld_prefix_ip pre))"
    by (simp add: ip normalize_prefix_align align_align word_le_nat_alt)
qed

lemma wan_addr_block:
  assumes "derive_wan_pd_addr pre iid = Some w" and "ld_prefix_len pre < 64"
  shows "unat w \<in> block (align (unat (ld_prefix_len pre)) (unat (ld_prefix_ip pre))) 64"
proof -
  let ?l = "ld_prefix_len pre"
  have le: "?l \<le> 63" "?l \<le> 64" "unat ?l \<le> 64" using assms(2) by (simp_all add: u8_le_unat)
  obtain n r where n: "checked_allocate_subnet (ld_prefix_ip pre) ?l 64 0 = Some (n, r)" "unat n = align (unat ?l) (unat (ld_prefix_ip pre))"
    by (rule checked_allocate_subnet_Some [OF le(2), of 0 "ld_prefix_ip pre"]) auto
  have w: "w = (n AND push_bit 64 (- 1)) OR ucast iid" using assms(1) le(1) n(1) by (simp add: derive_wan_pd_addr_def Let_def)
  have "2 ^ 64 dvd align (unat ?l) (unat (ld_prefix_ip pre))" using dvd_align [of "unat ?l" 64] le(3) by simp
  then have m: "unat (n AND push_bit 64 (- 1)) = unat n" by (simp only: unat_high_mask n(2)) simp
  have i: "unat (ucast iid :: u128) = unat iid" "unat iid < 2 ^ 64"
    using unsigned_less [of iid] by (simp_all add: unsigned_ucast_eq take_bit_nat_eq_self less_trans [OF unsigned_less])
  have "w = (n AND push_bit 64 (- 1)) + ucast iid"
    unfolding w by (rule or_disjoint_add [of 64]) (use m i n(2) dvd_align [of "unat ?l" 64] le(3) in simp_all)
  moreover have "unat n + unat iid < 2 ^ LENGTH(128)"
  proof -
    have "(2::nat) ^ 64 \<le> 2 ^ (128 - unat ?l)" using le(3) by (intro power_increasing) simp_all
    then show ?thesis using aligned_fits [OF unat_u128_less, of "unat ?l" "ld_prefix_ip pre"] i(2) n(2) by simp
  qed
  ultimately have "unat w = unat n + unat iid" using unat_add_fits [of "n AND push_bit 64 (- 1)" "ucast iid"] m i(1) by simp
  then show ?thesis using n(2) i(2) by (simp add: block_def)
qed

section \<open>No collision at run time\<close>

lemma entry_slots_parent: "entry_slots (e\<lparr>en_parent := p\<rparr>) = entry_slots e"
  by (simp add: entry_slots_def)

lemma lan_addrs_slots:
  assumes "group_validate_with_pd_context g ctx' = None" and "runtime_parent pm (pg_parent g) = Some (ip, l)"
    and "sn \<in> set (compute_group pm lt g [])" and "x \<in> lan_addrs sn"
  obtains e s where "e \<in> set (group_entries ctx g)" "s \<in> entry_slots e" "x \<in> block (unat ip + s * 2 ^ 64) 64" "l < 64"
proof -
  have "x \<in> \<Union> (lan_addrs ` set (compute_group pm lt g []))" using assms(3,4) by blast
  then obtain e where e: "e \<in> entries_at ip ctx g" "x \<in> entry_addrs e" unfolding compute_group_addrs [OF assms(1,2), of lt ctx] by blast
  note wf = entries_at_wf [OF assms(1,2) e(1)]
  obtain s where s: "s \<in> entry_slots e" "x \<in> block (unat ip + s * 2 ^ 64) 64" using e(2) wf(2) by (auto simp: entry_addrs_slots [OF wf(1)])
  obtain e' where "e' \<in> set (group_entries ctx g)" "e = e'\<lparr>en_parent := Resolved ip\<rparr>" using e(1) by (auto simp: entries_at_def)
  moreover have "l < 64" using wf(1,3) by (auto simp: entry_wf_def u8_le_unat)
  ultimately show thesis using that s by (auto simp: entry_slots_parent)
qed

lemma subnet_group:
  assumes "validate_prefix_groups_with_pd_context gs ctx = None" and "sn \<in> set (compute_subnets gs pm lt)" and "sn_source sn = PdSource link"
  obtains a iface snapshot ip l where "a < length gs" "group_validate_with_pd_context (gs ! a) ctx = None" "sn \<in> set (compute_group pm lt (gs ! a) [])"
    "sn_group_id sn = pg_group_id (gs ! a)" "pg_parent (gs ! a) = Pd link iface snapshot" "runtime_parent pm (pg_parent (gs ! a)) = Some (ip, l)"
proof -
  have v: "\<forall>g\<in>set gs. group_validate_with_pd_context g ctx = None" using assms(1) by (simp add: validate_prefix_groups_with_pd_context_def Let_def)
  obtain g where g: "g \<in> set gs" "sn \<in> set (compute_group pm lt g [])" using compute_subnets_mem [OF v assms(2)] by blast
  then obtain a where a: "a < length gs" "g = gs ! a" by (auto simp: in_set_conv_nth)
  note tags = compute_group_tags [OF bspec [OF v g(1)] g(2)]
  obtain iface snapshot where par: "pg_parent g = Pd link iface snapshot" using tags assms(3) by (cases "pg_parent g") auto
  obtain ip l where "runtime_parent pm (pg_parent g) = Some (ip, l)" using g(2) by (cases "runtime_parent pm (pg_parent g)") (auto simp: compute_group_None)
  then show thesis using that [OF a(1)] bspec [OF v g(1)] g(2) tags par a(2) by simp
qed

text \<open>C3: A configuration that was accepted when it was saved is safe for every prefix a provider delegates
  later.  Take two subnets that any two interfaces serve at run time from the prefix of one WAN link, router
  advertisement, address assignment and delegation to downstream routers alike.  Unless they belong to the
  same group, no address is in both, and the address that the WAN link itself takes from the prefix is in
  neither.\<close>

theorem lan_subnets_never_collide:
  assumes "validate_global_prefix_conflicts pending existing ctx = None" and "merged = build_merged_configs pending existing"
    and "\<forall>c\<in>set merged. \<exists>ctx'. validate_prefix_groups_with_pd_context (c6_prefix_groups (s6_config c)) ctx' = None"
    and "prefix_map_ok pm" and "load_actual pm link = Some pre"
    and "i < length merged" "sn \<in> set (compute_subnets (c6_prefix_groups (s6_config (merged ! i))) pm lt)" "sn_source sn = PdSource link"
    and "j < length merged" "sn' \<in> set (compute_subnets (c6_prefix_groups (s6_config (merged ! j))) pm lt')" "sn_source sn' = PdSource link"
    and "(i, sn_group_id sn) \<noteq> (j, sn_group_id sn')"
  shows "lan_addrs sn \<inter> lan_addrs sn' = {} \<and> (\<forall>iid w. derive_wan_pd_addr pre iid = Some w \<longrightarrow> unat w \<notin> lan_addrs sn)"
proof -
  let ?gs = "\<lambda>i. c6_prefix_groups (s6_config (merged ! i))"
  obtain c c' where v: "validate_prefix_groups_with_pd_context (?gs i) c = None" "validate_prefix_groups_with_pd_context (?gs j) c' = None"
    using assms(3,6,9) nth_mem by blast
  obtain a if1 s1 ip l where a: "a < length (?gs i)" "group_validate_with_pd_context (?gs i ! a) c = None" "sn \<in> set (compute_group pm lt (?gs i ! a) [])"
    "sn_group_id sn = pg_group_id (?gs i ! a)" "pg_parent (?gs i ! a) = Pd link if1 s1" "runtime_parent pm (pg_parent (?gs i ! a)) = Some (ip, l)"
    using subnet_group [OF v(1) assms(7,8)] .
  obtain b if2 s2 ip' l' where b: "b < length (?gs j)" "group_validate_with_pd_context (?gs j ! b) c' = None" "sn' \<in> set (compute_group pm lt' (?gs j ! b) [])"
    "sn_group_id sn' = pg_group_id (?gs j ! b)" "pg_parent (?gs j ! b) = Pd link if2 s2" "runtime_parent pm (pg_parent (?gs j ! b)) = Some (ip', l')"
    using subnet_group [OF v(2) assms(10,11)] .
  note rp = runtime_parent_pd [OF assms(4) a(6) [unfolded a(5)] assms(5)] runtime_parent_pd [OF assms(4) b(6) [unfolded b(5)] assms(5)]
  have ip: "unat ip' = unat ip" using rp by simp
  have ne: "(i, a) \<noteq> (j, b)" using assms(12) a(4) b(4) by auto
  note slots = accepted_slots [OF assms(1,2,6) a(1)]
  have "x \<notin> lan_addrs sn'" if x: "x \<in> lan_addrs sn" for x
  proof
    assume x': "x \<in> lan_addrs sn'"
    obtain e s where e: "e \<in> set (group_entries ctx (?gs i ! a))" "s \<in> entry_slots e" "x \<in> block (unat ip + s * 2 ^ 64) 64"
      using lan_addrs_slots [OF a(2,6,3) x, of ctx] by blast
    obtain e' s' where e': "e' \<in> set (group_entries ctx (?gs j ! b))" "s' \<in> entry_slots e'" "x \<in> block (unat ip + s' * 2 ^ 64) 64"
      using lan_addrs_slots [OF b(2,6,3) x', of ctx] ip by metis
    have "s \<noteq> s'" using slots(2) [OF e(1) assms(9) b(1) ne e'(1)] e(2) e'(2) by blast
    from slot_block_disjoint [OF this, of "unat ip" 64] show False using e(3) e'(3) by auto
  qed
  moreover have "unat w \<notin> lan_addrs sn" if w: "derive_wan_pd_addr pre iid = Some w" for iid w
  proof
    assume x: "unat w \<in> lan_addrs sn"
    obtain e s where e: "e \<in> set (group_entries ctx (?gs i ! a))" "s \<in> entry_slots e" "unat w \<in> block (unat ip + s * 2 ^ 64) 64" "l < 64"
      using lan_addrs_slots [OF a(2,6,3) x, of ctx] by blast
    have "l = s1" using runtime_parent_aligned [OF a(6)] a(5) by simp
    then have "unat w \<in> block (unat ip + 0 * 2 ^ 64) 64" using wan_addr_block [OF w] rp(1,2) e(4) by simp
    moreover have "s \<noteq> 0" using slots(1) [OF e(1)] e(2) by metis
    ultimately show False using slot_block_disjoint [of s 0 "unat ip" 64] e(3) by auto
  qed
  ultimately show ?thesis by blast
qed

text \<open>Example: two interfaces share the prefix \<open>2001:db8::/56\<close> of one WAN link.\<close>

definition ex_pd_group :: "string \<Rightarrow> u32 \<Rightarrow> LanPrefixGroupConfig" where
  "ex_pd_group name i = \<lparr>pg_group_id = utf8 name, pg_parent = Pd 7 [] 56,
     pg_ra = Some \<lparr>rc_pool_index = i, rc_preferred_lifetime = 300, rc_valid_lifetime = 600\<rparr>,
     pg_na = None, pg_pd = None\<rparr>"

definition ex_pd_prefix :: LDIAPrefix where
  "ex_pd_prefix = \<lparr>ld_preferred_lifetime = 300, ld_valid_lifetime = 600, ld_prefix_len = 56,
     ld_prefix_ip = 0x20010db8000000000000000000000000\<rparr>"

definition ex_prefix_map :: IAPrefixMap where
  "ex_prefix_map = store 7 ex_pd_prefix 56 []"

definition ex_subnet :: "string \<Rightarrow> u32 \<Rightarrow> SubnetState" where
  "ex_subnet name i = hd (compute_subnets [ex_pd_group name i] ex_prefix_map 300)"

lemma ex_pd_entries:
  "group_entries ctx (ex_pd_group name i) = [\<lparr>en_parent = expanded_parent_key (Pd 7 [] 56) ctx, en_parent_prefix_len = 56,
     en_service_kind = Ra, en_start_index = i, en_end_index = i, en_pool_len = 64\<rparr>]"
  by (simp add: group_active_entries_def ex_pd_group_def Let_def)

lemma ex_pd_group_valid:
  "validate_prefix_groups_with_pd_context [ex_pd_group ''a'' 1] None = None" "validate_prefix_groups_with_pd_context [ex_pd_group ''b'' 2] None = None"
proof -
  have "trim (utf8 ''a'') \<noteq> []" "trim (utf8 ''b'') \<noteq> []" by code_simp+
  then have "group_validate_with_pd_context (ex_pd_group ''a'' 1) None = None" "group_validate_with_pd_context (ex_pd_group ''b'' 2) None = None"
    by (simp_all add: group_validate_with_pd_context_def ex_pd_group_def group_has_capacity_iff)
  then show "validate_prefix_groups_with_pd_context [ex_pd_group ''a'' 1] None = None" "validate_prefix_groups_with_pd_context [ex_pd_group ''b'' 2] None = None"
    by (simp_all add: validate_prefix_groups_with_pd_context_def Let_def ex_pd_entries)
qed

lemma ex_subnet_mem:
  "compute_subnets [ex_pd_group ''a'' 1] ex_prefix_map 300 = [ex_subnet ''a'' 1]"
  "compute_subnets [ex_pd_group ''b'' 2] ex_prefix_map 300 = [ex_subnet ''b'' 2]"
proof -
  have one: "length xs = 1 \<Longrightarrow> xs = [hd xs]" for xs :: "SubnetState list" by (cases xs) auto
  show "compute_subnets [ex_pd_group ''a'' 1] ex_prefix_map 300 = [ex_subnet ''a'' 1]"
    unfolding ex_subnet_def by (rule one) code_simp
  show "compute_subnets [ex_pd_group ''b'' 2] ex_prefix_map 300 = [ex_subnet ''b'' 2]"
    unfolding ex_subnet_def by (rule one) code_simp
qed

lemma ex_subnet_source: "sn_source (ex_subnet ''a'' 1) = PdSource 7" "sn_source (ex_subnet ''b'' 2) = PdSource 7"
proof -
  have "ex_subnet ''a'' 1 \<in> set (compute_group ex_prefix_map 300 (ex_pd_group ''a'' 1) [])"
    "ex_subnet ''b'' 2 \<in> set (compute_group ex_prefix_map 300 (ex_pd_group ''b'' 2) [])"
    using ex_subnet_mem by (simp_all add: compute_subnets_def)
  moreover have "group_validate_with_pd_context (ex_pd_group ''a'' 1) None = None" "group_validate_with_pd_context (ex_pd_group ''b'' 2) None = None"
    using ex_pd_group_valid by (simp_all add: validate_prefix_groups_with_pd_context_def Let_def)
  ultimately show "sn_source (ex_subnet ''a'' 1) = PdSource 7" "sn_source (ex_subnet ''b'' 2) = PdSource 7"
    using compute_group_tags by (force simp: ex_pd_group_def)+
qed

lemma ex_pd_accepted:
  "validate_global_prefix_conflicts (ex_service ''l'' [ex_pd_group ''a'' 1]) [ex_service ''g'' [ex_pd_group ''b'' 2]] None = None"
  "build_merged_configs (ex_service ''l'' [ex_pd_group ''a'' 1]) [ex_service ''g'' [ex_pd_group ''b'' 2]] =
     [ex_service ''g'' [ex_pd_group ''b'' 2], ex_service ''l'' [ex_pd_group ''a'' 1]]"
proof -
  have ne: "utf8 ''l'' \<noteq> utf8 ''g''" by code_simp
  then show m: "build_merged_configs (ex_service ''l'' [ex_pd_group ''a'' 1]) [ex_service ''g'' [ex_pd_group ''b'' 2]] =
     [ex_service ''g'' [ex_pd_group ''b'' 2], ex_service ''l'' [ex_pd_group ''a'' 1]]"
    by (auto simp: build_merged_configs_def ex_service_def)
  show "validate_global_prefix_conflicts (ex_service ''l'' [ex_pd_group ''a'' 1]) [ex_service ''g'' [ex_pd_group ''b'' 2]] None = None"
    unfolding validate_global_prefix_conflicts_def m
    by (simp add: Let_def check_wan_reserved_None check_slot_overlap_None sourced_entries_def ex_service_def ex_pd_entries entry_slots_interval)
qed

theorem lan_subnets_never_collide_witness:
  "compute_subnets [ex_pd_group ''a'' 1] ex_prefix_map 300 = [ex_subnet ''a'' 1] \<and>
   compute_subnets [ex_pd_group ''b'' 2] ex_prefix_map 300 = [ex_subnet ''b'' 2] \<and>
   lan_addrs (ex_subnet ''b'' 2) \<inter> lan_addrs (ex_subnet ''a'' 1) = {} \<and>
   (\<exists>w. derive_wan_pd_addr ex_pd_prefix 0x8000000000000001 = Some w \<and> unat w \<notin> lan_addrs (ex_subnet ''b'' 2))"
proof -
  have pm: "prefix_map_ok ex_prefix_map" unfolding ex_prefix_map_def by (intro prefix_map_ok_ops)
  have la: "load_actual ex_prefix_map 7 = Some ex_pd_prefix" by (simp add: load_actual_def ex_prefix_map_def store_def IPV6PDPrefixStatus_new_def)
  have g: "c6_prefix_groups (s6_config (ex_service n gs)) = gs" for n gs by (simp add: ex_service_def)
  have w: "\<exists>w. derive_wan_pd_addr ex_pd_prefix 0x8000000000000001 = Some w" 
    by (rule checked_allocate_subnet_Some [of 56 64 0 "ld_prefix_ip ex_pd_prefix"]) (auto simp: derive_wan_pd_addr_def ex_pd_prefix_def Let_def)
  show ?thesis
    using lan_subnets_never_collide [OF ex_pd_accepted(1) refl _ pm la, of 0 "ex_subnet ''b'' 2" 300 1 "ex_subnet ''a'' 1" 300]
      ex_subnet_mem ex_subnet_source ex_pd_group_valid w unfolding ex_pd_accepted(2) by (auto simp: g)
qed

end
