(* ===== verification/Lan6_Status.thy ===== *)
theory Lan6_Status
  imports Net Lan6_Subnets "HOL-Library.Multiset"
begin

text \<open>
  The state of the LAN IPv6 server (\<open>Ipv6ServerStatus\<close> in
  \<open>landscape/src/lan_service/lan_ipv6_server/mod.rs\<close>): addresses assigned by DHCPv6 (IA\_NA), prefixes
  delegated to downstream routers (IA\_PD), and addresses that clients chose themselves (SLAAC).

  \<^item> An address is the prefix of a subnet and a 64-bit suffix; the server hands out suffixes, so that a
    client keeps its suffix when the prefix changes.  A delegated prefix is a slot, the name of a group and
    an index.
  \<^item> Whatever an operation takes from outside is in the record \<open>env6\<close>: the readings of
    \<open>boot_time.elapsed().as_secs()\<close> in their order, the order in which the hash maps are iterated, and
    the random reconfigure key.  Iterating a map visits each of its entries once (\<open>iter_ok\<close>).  The channels \<open>prefix_notify_tx\<close> and \<open>reconf_tx\<close> are left out of the state;
    \<open>trigger_reconfigure_for_changes\<close> returns what it sends.
  \<^item> \<open>expect\<close> panics, so the operations that use it have an \<open>outcome\<close>.
\<close>

section \<open>State\<close>

record NaLease =
  nl_suffix :: u64
  nl_duid_hex :: bytes
  nl_mac :: MacAddr
  nl_hostname :: "bytes option"
  nl_relative_offer_time :: u64
  nl_valid_time :: u32
  nl_preferred_time :: u32
  nl_is_static :: bool
  nl_prev_suffix :: "u64 option"

record PdLease =
  pl_group_id :: bytes
  pl_sub_index :: u32
  pl_duid_hex :: bytes
  pl_relative_offer_time :: u64
  pl_valid_time :: u32
  pl_preferred_time :: u32
  pl_client_addr :: Ipv6Addr
  pl_active_routes :: "(Ipv6Addr \<times> u8) list"

datatype SuffixOwner = StaticMac MacAddr | DynamicDuid bytes

datatype NaAddressCheck =
    Owned | NotOnLink | Unallocated | OwnedByOtherMac MacAddr | OwnedByOtherDuid bytes

record NaLeaseChange =
  lc6_lease :: NaLease
  lc6_previous_suffix :: "u64 option"

record LeaseChangeSet =
  cs_allocated :: "NaLeaseChange list"
  cs_expired :: "NaLeaseChange list"
  cs_released :: "NaLease list"

definition no_changes :: LeaseChangeSet where
  "no_changes = \<lparr>cs_allocated = [], cs_expired = [], cs_released = []\<rparr>"

definition push_allocated :: "NaLease \<Rightarrow> u64 option \<Rightarrow> LeaseChangeSet \<Rightarrow> LeaseChangeSet" where
  "push_allocated lease previous self =
     self\<lparr>cs_allocated := cs_allocated self @ [\<lparr>lc6_lease = lease, lc6_previous_suffix = previous\<rparr>]\<rparr>"

definition push_expired :: "NaLease \<Rightarrow> u64 option \<Rightarrow> LeaseChangeSet \<Rightarrow> LeaseChangeSet" where
  "push_expired lease previous self =
     self\<lparr>cs_expired := cs_expired self @ [\<lparr>lc6_lease = lease, lc6_previous_suffix = previous\<rparr>]\<rparr>"

datatype MacSuffixBindResult =
    SuffixBound LeaseChangeSet | SuffixAlreadyBound | SuffixStaticConflict MacAddr | SuffixInvariantViolation u64 MacAddr

datatype DeviceBindingResult =
    DeviceBound LeaseChangeSet | DeviceRemoved LeaseChangeSet | DeviceAlreadyBound
  | DeviceStaticConflict MacAddr | DeviceInvariantViolation u64 MacAddr

record PdRouteCleanup =
  rcl_sub_index :: u32
  rcl_routes :: "(Ipv6Addr \<times> u8) list"

datatype SlaacResult = Recorded | Conflict

record ExpiredNa =
  xn_suffix :: u64
  xn_mac :: MacAddr
  xn_duid_hex :: bytes

record ExpiredPd =
  xp_prefix :: Ipv6Addr
  xp_prefix_len :: u8
  xp_sub_index :: u32
  xp_duid_hex :: bytes
  xp_active_routes :: "(Ipv6Addr \<times> u8) list"

record SlaacEntry =
  sl_mac :: MacAddr
  sl_relative_active_time :: u64
  sl_probe_pending :: bool

record SlaacSweep =
  sw_to_probe :: "Ipv6Addr list"
  sw_expired :: "(Ipv6Addr \<times> MacAddr) list"

record Ipv6ServerStatus =
  na_config :: "DHCPv6IANAConfig option"
  pd_config :: "DHCPv6IAPDConfig option"
  prefix_state :: PrefixState
  cached_subnets :: "SubnetState list"
  na_pool_start :: u64
  na_range_capacity :: u64
  na_leases_by_duid :: "(bytes, NaLease) hmap"
  na_owners_by_suffix :: "(u64, SuffixOwner) hmap"
  na_static_by_mac :: "(MacAddr, u64) hmap"
  pd_leases_by_duid :: "(bytes, PdLease) hmap"
  pd_owners_by_slot :: "(bytes \<times> u32, bytes) hmap"
  slaac_entries :: "(Ipv6Addr, SlaacEntry) hmap"
  dns_servers :: DnsServers
  reconfigure_keys :: "(bytes, bytes) hmap"
  st_preferred_lifetime :: u32
  st_valid_lifetime :: u32

record env6 =
  ev_clk :: "nat \<Rightarrow> u64"
  ev_iter :: "(bytes, NaLease) hmap \<Rightarrow> (bytes, NaLease) hmap"
  ev_pd_iter :: "(bytes, PdLease) hmap \<Rightarrow> (bytes, PdLease) hmap"
  ev_slaac_iter :: "(Ipv6Addr, SlaacEntry) hmap \<Rightarrow> (Ipv6Addr, SlaacEntry) hmap"
  ev_key :: bytes

definition iter_ok :: "env6 \<Rightarrow> bool" where
  "iter_ok ev \<longleftrightarrow> (\<forall>m. mset (ev_iter ev m) = mset m) \<and> (\<forall>m. mset (ev_pd_iter ev m) = mset m) \<and>
     (\<forall>m. mset (ev_slaac_iter ev m) = mset m)"

definition ipv6_suffix :: "Ipv6Addr \<Rightarrow> u64" where
  "ipv6_suffix ip = ucast ip"

fun enroll6 :: "MacAddr \<times> Ipv6Addr option \<Rightarrow> Ipv6ServerStatus \<Rightarrow> Ipv6ServerStatus" where
  "enroll6 (mac, None) st = st"
| "enroll6 (mac, Some ip) st =
     st\<lparr>na_static_by_mac := hm_insert mac (ipv6_suffix ip) (na_static_by_mac st),
        na_owners_by_suffix := hm_insert (ipv6_suffix ip) (StaticMac mac) (na_owners_by_suffix st)\<rparr>"

definition new_status ::
  "DHCPv6IANAConfig option \<Rightarrow> DHCPv6IAPDConfig option \<Rightarrow> (MacAddr \<times> Ipv6Addr option) list \<Rightarrow> Ipv6ServerStatus" where
  "new_status na_cfg pd_cfg devices =
     (let pool_start = (case na_cfg of Some c \<Rightarrow> ia_pool_start c | None \<Rightarrow> 0);
          pool_end = (case Option.bind na_cfg ia_pool_end of
                        Some e \<Rightarrow> e | None \<Rightarrow> saturating_add_word pool_start DEFAULT_IA_NA_POOL_SPAN);
          status = \<lparr>na_config = na_cfg, pd_config = pd_cfg, prefix_state = PrefixState_new, cached_subnets = [],
            na_pool_start = pool_start, na_range_capacity = saturating_sub_word pool_end pool_start,
            na_leases_by_duid = [], na_owners_by_suffix = [], na_static_by_mac = [],
            pd_leases_by_duid = [], pd_owners_by_slot = [], slaac_entries = [], dns_servers = DnsServers_new,
            reconfigure_keys = [], st_preferred_lifetime = 300, st_valid_lifetime = 600\<rparr>
      in fold enroll6 devices status)"

section \<open>Prefixes\<close>

definition update_prefix :: "SubnetState list \<Rightarrow> Ipv6ServerStatus \<Rightarrow> Ipv6ServerStatus" where
  "update_prefix subnets st =
     st\<lparr>cached_subnets := subnets, prefix_state := refresh subnets, dns_servers := refresh_dns_servers subnets\<rparr>"

definition recompute_and_diff ::
  "LanPrefixGroupConfig list \<Rightarrow> IAPrefixMap \<Rightarrow> Ipv6ServerStatus \<Rightarrow> SubnetDiff \<times> Ipv6ServerStatus" where
  "recompute_and_diff groups prefix_map st =
     (let new_subnets = compute_subnets groups prefix_map (st_preferred_lifetime st);
          diff = diff_subnets (cached_subnets st) new_subnets
      in (diff, update_prefix new_subnets st))"

definition is_suffix_na_owned :: "Ipv6ServerStatus \<Rightarrow> u64 \<Rightarrow> bool" where
  "is_suffix_na_owned st suf \<longleftrightarrow> hm_contains (na_owners_by_suffix st) suf"

definition qualifying_na_prefixes :: "Ipv6ServerStatus \<Rightarrow> (Ipv6Addr \<times> u8) list" where
  "qualifying_na_prefixes st =
     (case na_config st of
        Some cfg \<Rightarrow> map (\<lambda>e. (ne_prefix e, ne_prefix_len e))
                      (filter (\<lambda>e. ne_prefix_len e \<le> ia_max_prefix_len cfg) (na_entries (prefix_state st)))
      | None \<Rightarrow> [])"

text \<open>The mask of a prefix; in a release build a shift by 128 is a shift by 0.\<close>

definition len_mask :: "u8 \<Rightarrow> u128" where
  "len_mask prefix_len = (if prefix_len \<ge> 128 then - 1 else push_bit (unat (128 - prefix_len) mod 128) (- 1))"

definition combine_prefix_suffix :: "Ipv6Addr \<Rightarrow> u8 \<Rightarrow> u64 \<Rightarrow> Ipv6Addr" where
  "combine_prefix_suffix pre prefix_len suf = (pre AND len_mask prefix_len) OR ucast suf"

definition is_na_on_link :: "Ipv6ServerStatus \<Rightarrow> Ipv6Addr \<Rightarrow> bool" where
  "is_na_on_link st ip \<longleftrightarrow>
     list_ex (\<lambda>(pre, prefix_len). ip AND len_mask prefix_len = pre AND len_mask prefix_len) (qualifying_na_prefixes st)"

definition suffix_to_addrs :: "Ipv6ServerStatus \<Rightarrow> u64 \<Rightarrow> Ipv6Addr list" where
  "suffix_to_addrs st suf = map (\<lambda>(pre, prefix_len). combine_prefix_suffix pre prefix_len suf) (qualifying_na_prefixes st)"

section \<open>Address leases\<close>

definition MAX_OFFER_LIFETIME :: u32 where
  "MAX_OFFER_LIFETIME = 120"

definition offer_lifetime :: "u32 \<Rightarrow> u32" where
  "offer_lifetime lifetime = min (lifetime div 2) MAX_OFFER_LIFETIME"

text \<open>\<open>format!("{:02x}")\<close> of each byte.\<close>

definition hex_nibble :: "u8 \<Rightarrow> u8" where
  "hex_nibble n = (if n < 10 then 0x30 + n else 0x57 + n)"

definition duid_to_hex :: "bytes \<Rightarrow> bytes" where
  "duid_to_hex data = concat (map (\<lambda>b. [hex_nibble (drop_bit 4 b), hex_nibble (b AND 15)]) data)"

definition hash_duid :: "bytes \<Rightarrow> u64" where
  "hash_duid duid = fold (\<lambda>byte hash. hash * 33 + ucast byte) duid 5381"

definition static_lease_duid_for_mac :: "env6 \<Rightarrow> MacAddr \<Rightarrow> Ipv6ServerStatus \<Rightarrow> bytes option" where
  "static_lease_duid_for_mac ev mac st =
     map_option fst (find (\<lambda>(_, lease). nl_mac lease = mac \<and> nl_is_static lease) (ev_iter ev (na_leases_by_duid st)))"

definition lease_duid_for_mac :: "env6 \<Rightarrow> MacAddr \<Rightarrow> Ipv6ServerStatus \<Rightarrow> bytes option" where
  "lease_duid_for_mac ev mac st =
     (case static_lease_duid_for_mac ev mac st of
        Some duid \<Rightarrow> Some duid
      | None \<Rightarrow> map_option fst (find (\<lambda>(_, lease). nl_mac lease = mac) (ev_iter ev (na_leases_by_duid st))))"

definition remove_dynamic_owner_if_matches :: "u64 \<Rightarrow> bytes \<Rightarrow> Ipv6ServerStatus \<Rightarrow> Ipv6ServerStatus" where
  "remove_dynamic_owner_if_matches suf duid st =
     (if hm_get (na_owners_by_suffix st) suf = Some (DynamicDuid duid)
      then st\<lparr>na_owners_by_suffix := hm_remove suf (na_owners_by_suffix st)\<rparr> else st)"

definition set_reconfigure_key :: "env6 \<Rightarrow> bytes \<Rightarrow> MacAddr \<Rightarrow> Ipv6ServerStatus \<Rightarrow> Ipv6ServerStatus" where
  "set_reconfigure_key ev duid mac st =
     (let st = (case lease_duid_for_mac ev mac st of
                  Some old_duid \<Rightarrow> if old_duid \<noteq> duid
                    then st\<lparr>reconfigure_keys := hm_remove old_duid (reconfigure_keys st)\<rparr> else st
                | None \<Rightarrow> st)
      in if \<not> hm_contains (reconfigure_keys st) duid
         then st\<lparr>reconfigure_keys := hm_insert duid (ev_key ev) (reconfigure_keys st)\<rparr> else st)"

definition get_reconfigure_key :: "Ipv6ServerStatus \<Rightarrow> bytes \<Rightarrow> bytes option" where
  "get_reconfigure_key st duid = hm_get (reconfigure_keys st) duid"

definition lookup_reconfigure_key_by_mac :: "env6 \<Rightarrow> MacAddr \<Rightarrow> Ipv6ServerStatus \<Rightarrow> bytes option" where
  "lookup_reconfigure_key_by_mac ev mac st =
     do { duid \<leftarrow> lease_duid_for_mac ev mac st; hm_get (reconfigure_keys st) duid }"

definition lookup_na_mac_by_duid :: "Ipv6ServerStatus \<Rightarrow> bytes \<Rightarrow> MacAddr option" where
  "lookup_na_mac_by_duid st duid = map_option nl_mac (hm_get (na_leases_by_duid st) duid)"

definition drop_slaac :: "u64 \<Rightarrow> Ipv6ServerStatus \<Rightarrow> Ipv6ServerStatus" where
  "drop_slaac suf st = st\<lparr>slaac_entries := hm_retain (\<lambda>ip _. ipv6_suffix ip \<noteq> suf) (slaac_entries st)\<rparr>"

definition insert_static_na_lease ::
  "env6 \<Rightarrow> bytes \<Rightarrow> MacAddr \<Rightarrow> u64 \<Rightarrow> bytes option \<Rightarrow> u64 \<Rightarrow> Ipv6ServerStatus \<Rightarrow> Ipv6ServerStatus" where
  "insert_static_na_lease ev duid mac suf hostname now st =
     (let previous_suffix = map_option nl_suffix (hm_get (na_leases_by_duid st) duid);
          st = (case previous_suffix of Some old \<Rightarrow> remove_dynamic_owner_if_matches old duid st | None \<Rightarrow> st);
          st = (case static_lease_duid_for_mac ev mac st of
                  Some old_duid \<Rightarrow> if old_duid \<noteq> duid
                    then st\<lparr>na_leases_by_duid := hm_remove old_duid (na_leases_by_duid st)\<rparr> else st
                | None \<Rightarrow> st);
          st = st\<lparr>na_owners_by_suffix := hm_insert suf (StaticMac mac) (na_owners_by_suffix st)\<rparr>;
          life = offer_lifetime (st_preferred_lifetime st);
          lease = \<lparr>nl_suffix = suf, nl_duid_hex = duid_to_hex duid, nl_mac = mac, nl_hostname = hostname,
            nl_relative_offer_time = now, nl_valid_time = life, nl_preferred_time = life, nl_is_static = True,
            nl_prev_suffix = (case previous_suffix of Some prev \<Rightarrow> if prev \<noteq> suf then Some prev else None | None \<Rightarrow> None)\<rparr>;
          st = st\<lparr>na_leases_by_duid := hm_insert duid lease (na_leases_by_duid st)\<rparr>
      in drop_slaac suf (set_reconfigure_key ev duid mac st))"

definition insert_dynamic_na_lease ::
  "env6 \<Rightarrow> bytes \<Rightarrow> MacAddr \<Rightarrow> bytes option \<Rightarrow> u64 \<Rightarrow> u64 option \<Rightarrow> u64 \<Rightarrow> Ipv6ServerStatus \<Rightarrow> Ipv6ServerStatus" where
  "insert_dynamic_na_lease ev duid mac hostname now prev suf st =
     (let st = st\<lparr>na_owners_by_suffix := hm_insert suf (DynamicDuid duid) (na_owners_by_suffix st)\<rparr>;
          life = offer_lifetime (st_preferred_lifetime st);
          lease = \<lparr>nl_suffix = suf, nl_duid_hex = duid_to_hex duid, nl_mac = mac, nl_hostname = hostname,
            nl_relative_offer_time = now, nl_valid_time = life, nl_preferred_time = life, nl_is_static = False,
            nl_prev_suffix = prev\<rparr>;
          st = st\<lparr>na_leases_by_duid := hm_insert duid lease (na_leases_by_duid st)\<rparr>
      in drop_slaac suf (set_reconfigure_key ev duid mac st))"

definition remove_na_lease :: "bytes \<Rightarrow> Ipv6ServerStatus \<Rightarrow> (NaLease \<times> ExpiredNa) option \<times> Ipv6ServerStatus" where
  "remove_na_lease duid st =
     (case hm_get (na_leases_by_duid st) duid of
        None \<Rightarrow> (None, st)
      | Some lease \<Rightarrow>
          let st = st\<lparr>na_leases_by_duid := hm_remove duid (na_leases_by_duid st)\<rparr>;
              st = (if \<not> nl_is_static lease then remove_dynamic_owner_if_matches (nl_suffix lease) duid st else st)
          in (Some (lease, \<lparr>xn_suffix = nl_suffix lease, xn_mac = nl_mac lease, xn_duid_hex = nl_duid_hex lease\<rparr>), st))"

definition release_na :: "bytes \<Rightarrow> Ipv6ServerStatus \<Rightarrow> ExpiredNa option \<times> Ipv6ServerStatus" where
  "release_na duid st = (let (r, st) = remove_na_lease duid st in (map_option snd r, st))"

fun remove_na_leases :: "bytes list \<Rightarrow> Ipv6ServerStatus \<Rightarrow> ExpiredNa list \<times> Ipv6ServerStatus" where
  "remove_na_leases [] st = ([], st)"
| "remove_na_leases (duid # duids) st =
     (let (r, st) = remove_na_lease duid st; (rest, st) = remove_na_leases duids st
      in (case r of Some (_, expired) \<Rightarrow> expired # rest | None \<Rightarrow> rest, st))"

definition na_expired :: "u64 \<Rightarrow> NaLease \<Rightarrow> bool" where
  "na_expired now lease \<longleftrightarrow> \<not> nl_is_static lease \<and> now > nl_relative_offer_time lease + ucast (nl_valid_time lease)"

definition clean_expired_na :: "env6 \<Rightarrow> u64 \<Rightarrow> Ipv6ServerStatus \<Rightarrow> ExpiredNa list \<times> Ipv6ServerStatus" where
  "clean_expired_na ev now st =
     remove_na_leases (map fst (filter (\<lambda>(_, lease). na_expired now lease) (ev_iter ev (na_leases_by_duid st)))) st"

fun probe_suffix :: "Ipv6ServerStatus \<Rightarrow> u64 option \<Rightarrow> nat \<Rightarrow> u64 \<Rightarrow> u64 option" where
  "probe_suffix st excluded 0 seed = None"
| "probe_suffix st excluded (Suc n) seed =
     (let index = seed mod na_range_capacity st;
          suf = na_pool_start st + index
      in if Some suf \<noteq> excluded \<and> \<not> hm_contains (na_owners_by_suffix st) suf \<and>
            suf \<notin> set (map (\<lambda>(ip, _). ipv6_suffix ip) (slaac_entries st))
         then Some suf
         else probe_suffix st excluded n (seed + 1))"

definition find_free_dynamic_suffix :: "bytes \<Rightarrow> u64 option \<Rightarrow> Ipv6ServerStatus \<Rightarrow> u64 option" where
  "find_free_dynamic_suffix duid excluded st = probe_suffix st excluded (unat (na_range_capacity st)) (hash_duid duid)"

definition allocate_dynamic_na_suffix ::
  "env6 \<Rightarrow> bytes \<Rightarrow> MacAddr \<Rightarrow> bytes option \<Rightarrow> u64 \<Rightarrow> u64 option \<Rightarrow> u64 option \<Rightarrow> Ipv6ServerStatus \<Rightarrow> u64 option \<times> Ipv6ServerStatus" where
  "allocate_dynamic_na_suffix ev duid mac hostname now prev excluded st =
     (if na_range_capacity st = 0 then (None, st)
      else case find_free_dynamic_suffix duid excluded st of
        Some suf \<Rightarrow> (Some suf, insert_dynamic_na_lease ev duid mac hostname now prev suf st)
      | None \<Rightarrow>
          let (expired, st) = clean_expired_na ev (ev_clk ev 1) st in
          if expired = [] then (None, st)
          else case find_free_dynamic_suffix duid excluded st of
            Some suf \<Rightarrow> (Some suf, insert_dynamic_na_lease ev duid mac hostname now prev suf st)
          | None \<Rightarrow> (None, st))"

definition offer_na ::
  "env6 \<Rightarrow> bytes \<Rightarrow> MacAddr \<Rightarrow> bytes option \<Rightarrow> Ipv6ServerStatus \<Rightarrow> Ipv6Addr list option \<times> Ipv6ServerStatus" where
  "offer_na ev duid mac hostname st =
     (let now = ev_clk ev 0 in
      case hm_get (na_static_by_mac st) mac of
        Some suf \<Rightarrow> let st = insert_static_na_lease ev duid mac suf hostname now st in (Some (suffix_to_addrs st suf), st)
      | None \<Rightarrow>
      (case hm_get (na_leases_by_duid st) duid of
        Some lease \<Rightarrow> (Some (suffix_to_addrs st (nl_suffix lease)), st)
      | None \<Rightarrow>
      (case na_config st of
        None \<Rightarrow> (None, st)
      | Some _ \<Rightarrow>
          let (r, st) = allocate_dynamic_na_suffix ev duid mac hostname now None None st
          in (map_option (suffix_to_addrs st) r, st))))"

definition confirm_na :: "u64 \<Rightarrow> bytes \<Rightarrow> Ipv6ServerStatus \<Rightarrow> bool \<times> Ipv6ServerStatus" where
  "confirm_na now duid st =
     (if na_config st = None then (False, st)
      else case hm_get (na_leases_by_duid st) duid of
        Some lease \<Rightarrow>
          (True, st\<lparr>na_leases_by_duid := hm_insert duid
             (lease\<lparr>nl_valid_time := st_valid_lifetime st, nl_preferred_time := st_preferred_lifetime st,
                    nl_relative_offer_time := now\<rparr>) (na_leases_by_duid st)\<rparr>)
      | None \<Rightarrow> (False, st))"

definition get_na_addresses :: "Ipv6ServerStatus \<Rightarrow> bytes \<Rightarrow> Ipv6Addr list" where
  "get_na_addresses st duid =
     (case hm_get (na_leases_by_duid st) duid of Some lease \<Rightarrow> suffix_to_addrs st (nl_suffix lease) | None \<Rightarrow> [])"

definition has_na_offer :: "Ipv6ServerStatus \<Rightarrow> bytes \<Rightarrow> bool" where
  "has_na_offer st duid \<longleftrightarrow> hm_contains (na_leases_by_duid st) duid"

definition is_na_in_offer_state :: "Ipv6ServerStatus \<Rightarrow> bytes \<Rightarrow> bool" where
  "is_na_in_offer_state st duid =
     (case hm_get (na_leases_by_duid st) duid of
        Some lease \<Rightarrow> nl_valid_time lease = offer_lifetime (st_preferred_lifetime st) | None \<Rightarrow> False)"

definition consume_prev_suffix :: "bytes \<Rightarrow> Ipv6ServerStatus \<Rightarrow> Ipv6ServerStatus" where
  "consume_prev_suffix duid st =
     (case hm_get (na_leases_by_duid st) duid of
        Some lease \<Rightarrow> st\<lparr>na_leases_by_duid := hm_insert duid (lease\<lparr>nl_prev_suffix := None\<rparr>) (na_leases_by_duid st)\<rparr>
      | None \<Rightarrow> st)"

definition check_address_owner :: "Ipv6ServerStatus \<Rightarrow> Ipv6Addr \<Rightarrow> bytes \<Rightarrow> MacAddr \<Rightarrow> NaAddressCheck" where
  "check_address_owner st ip duid mac =
     (if \<not> is_na_on_link st ip then NotOnLink
      else case hm_get (na_owners_by_suffix st) (ipv6_suffix ip) of
        Some (StaticMac owner) \<Rightarrow> if owner = mac then Owned else OwnedByOtherMac owner
      | Some (DynamicDuid owner) \<Rightarrow> if owner = duid then Owned else OwnedByOtherDuid owner
      | None \<Rightarrow> Unallocated)"

section \<open>Binding a device to a suffix\<close>

definition in_dynamic_pool :: "Ipv6ServerStatus \<Rightarrow> u64 \<Rightarrow> bool" where
  "in_dynamic_pool st suf \<longleftrightarrow> suf \<ge> na_pool_start st \<and> suf < na_pool_start st + na_range_capacity st"

definition requalify :: "u64 \<Rightarrow> u64 option \<Rightarrow> u64 \<Rightarrow> Ipv6ServerStatus \<Rightarrow> NaLease \<Rightarrow> NaLease" where
  "requalify suf prev now st lease =
     (let life = offer_lifetime (st_preferred_lifetime st)
      in lease\<lparr>nl_prev_suffix := prev, nl_suffix := suf, nl_is_static := False, nl_relative_offer_time := now,
               nl_valid_time := life, nl_preferred_time := life\<rparr>)"

definition reassign_lease ::
  "env6 \<Rightarrow> bytes \<Rightarrow> NaLease \<Rightarrow> u64 \<Rightarrow> u64 \<Rightarrow> u64 option \<Rightarrow> LeaseChangeSet \<Rightarrow> Ipv6ServerStatus \<Rightarrow>
     (LeaseChangeSet \<times> Ipv6ServerStatus) outcome" where
  "reassign_lease ev duid lease now suf excluded changes st =
     (case na_config st of
        None \<Rightarrow> Returned (changes\<lparr>cs_released := cs_released changes @ [lease]\<rparr>, st)
      | Some _ \<Rightarrow>
          let (r, st) = allocate_dynamic_na_suffix ev duid (nl_mac lease) (nl_hostname lease) now (Some suf) excluded st in
          case r of
            Some _ \<Rightarrow>
              (case hm_get (na_leases_by_duid st) duid of
                 Some reassigned \<Rightarrow> Returned (push_allocated reassigned (Some suf) changes, st)
               | None \<Rightarrow> Panicked)
          | None \<Rightarrow> Returned (changes\<lparr>cs_released := cs_released changes @ [lease]\<rparr>, st))"

definition evict_lease ::
  "env6 \<Rightarrow> bytes \<Rightarrow> NaLease \<Rightarrow> u64 \<Rightarrow> u64 \<Rightarrow> u64 option \<Rightarrow> LeaseChangeSet \<Rightarrow> Ipv6ServerStatus \<Rightarrow>
     (LeaseChangeSet \<times> Ipv6ServerStatus) outcome" where
  "evict_lease ev evicted_duid evicted now suf old_static_suffix changes st =
     (case old_static_suffix of
        Some old \<Rightarrow>
          if old \<noteq> suf \<and> in_dynamic_pool st old \<and> \<not> hm_contains (na_owners_by_suffix st) old then
            let evicted = requalify old (Some suf) now st evicted;
                st = st\<lparr>na_owners_by_suffix := hm_insert old (DynamicDuid evicted_duid) (na_owners_by_suffix st)\<rparr>;
                st = set_reconfigure_key ev evicted_duid (nl_mac evicted) st;
                st = st\<lparr>na_leases_by_duid := hm_insert evicted_duid evicted (na_leases_by_duid st)\<rparr>
            in Returned (push_allocated evicted (Some suf) changes, st)
          else Returned (changes, st)
      | None \<Rightarrow> reassign_lease ev evicted_duid evicted now suf (Some suf) changes st)"

definition evict_occupant ::
  "env6 \<Rightarrow> u64 \<Rightarrow> u64 option \<Rightarrow> bytes option \<Rightarrow> u64 \<Rightarrow> Ipv6ServerStatus \<Rightarrow> (LeaseChangeSet \<times> Ipv6ServerStatus) outcome" where
  "evict_occupant ev suf old_static_suffix mac_duid now st =
     (let removed = hm_get (na_owners_by_suffix st) suf;
          st = st\<lparr>na_owners_by_suffix := hm_remove suf (na_owners_by_suffix st)\<rparr>
      in case removed of
           Some (DynamicDuid evicted_duid) \<Rightarrow>
             if mac_duid = Some evicted_duid then Returned (no_changes, st)
             else (case hm_get (na_leases_by_duid st) evicted_duid of
               None \<Rightarrow> Returned (no_changes, st)
             | Some evicted \<Rightarrow>
                 let st = st\<lparr>na_leases_by_duid := hm_remove evicted_duid (na_leases_by_duid st)\<rparr>
                 in evict_lease ev evicted_duid evicted now suf old_static_suffix (push_expired evicted (Some suf) no_changes) st)
         | _ \<Rightarrow> Returned (no_changes, st))"

definition bind_rejected :: "MacAddr \<Rightarrow> u64 \<Rightarrow> Ipv6ServerStatus \<Rightarrow> MacSuffixBindResult option" where
  "bind_rejected mac suf st =
     (if hm_get (na_static_by_mac st) mac = Some suf \<and> hm_get (na_owners_by_suffix st) suf = Some (StaticMac mac)
      then Some SuffixAlreadyBound
      else case (case hm_get (na_owners_by_suffix st) suf of
                   Some (StaticMac owner) \<Rightarrow> if owner \<noteq> mac then Some owner else None | _ \<Rightarrow> None) of
        Some owner \<Rightarrow> Some (SuffixStaticConflict owner)
      | None \<Rightarrow>
          (case hm_get (na_static_by_mac st) mac of
             Some old \<Rightarrow>
               if old \<noteq> suf then
                 (case hm_get (na_owners_by_suffix st) old of
                    Some (StaticMac owner) \<Rightarrow> if owner = mac then None else Some (SuffixInvariantViolation old mac)
                  | Some _ \<Rightarrow> Some (SuffixInvariantViolation old mac)
                  | None \<Rightarrow> None)
               else None
           | None \<Rightarrow> None))"

definition bind_prepared :: "bytes option \<Rightarrow> MacAddr \<Rightarrow> u64 \<Rightarrow> Ipv6ServerStatus \<Rightarrow> Ipv6ServerStatus" where
  "bind_prepared mac_duid mac suf st =
     (let old_static_suffix = hm_get (na_static_by_mac st) mac;
          st = st\<lparr>na_static_by_mac := hm_insert mac suf (na_static_by_mac st)\<rparr>;
          st = (case old_static_suffix of
                  Some old \<Rightarrow>
                    if old \<noteq> suf \<and> hm_get (na_owners_by_suffix st) old = Some (StaticMac mac)
                    then st\<lparr>na_owners_by_suffix := hm_remove old (na_owners_by_suffix st)\<rparr> else st
                | None \<Rightarrow> st)
      in case mac_duid of
           Some duid \<Rightarrow>
             (case hm_get (na_leases_by_duid st) duid of
                Some lease \<Rightarrow> remove_dynamic_owner_if_matches (nl_suffix lease) duid st | None \<Rightarrow> st)
         | None \<Rightarrow> st)"

definition bind_mac_suffix ::
  "env6 \<Rightarrow> MacAddr \<Rightarrow> u64 \<Rightarrow> Ipv6ServerStatus \<Rightarrow> (MacSuffixBindResult \<times> Ipv6ServerStatus) outcome" where
  "bind_mac_suffix ev mac suf st =
     (let now = ev_clk ev 0 in
      case bind_rejected mac suf st of
        Some r \<Rightarrow> Returned (r, st)
      | None \<Rightarrow>
          let old_static_suffix = hm_get (na_static_by_mac st) mac;
              mac_duid = lease_duid_for_mac ev mac st;
              st = bind_prepared mac_duid mac suf st
          in and_then (evict_occupant ev suf old_static_suffix mac_duid now st) (\<lambda>(changes, st).
               let st = st\<lparr>na_owners_by_suffix := hm_insert suf (StaticMac mac) (na_owners_by_suffix st)\<rparr> in
               case mac_duid of
                 None \<Rightarrow> Returned (SuffixBound changes, st)
               | Some duid \<Rightarrow>
                   (case hm_get (na_leases_by_duid st) duid of
                      None \<Rightarrow> Returned (SuffixBound changes, st)
                    | Some lease \<Rightarrow>
                        let previous = nl_suffix lease;
                            prev = (if previous \<noteq> suf then Some previous else None);
                            life = offer_lifetime (st_preferred_lifetime st);
                            lease = lease\<lparr>nl_suffix := suf, nl_is_static := True, nl_prev_suffix := prev,
                              nl_relative_offer_time := now, nl_valid_time := life, nl_preferred_time := life\<rparr>
                        in Returned (SuffixBound (push_allocated lease prev changes),
                             st\<lparr>na_leases_by_duid := hm_insert duid lease (na_leases_by_duid st)\<rparr>))))"

definition remove_mac_binding ::
  "env6 \<Rightarrow> MacAddr \<Rightarrow> Ipv6ServerStatus \<Rightarrow> (LeaseChangeSet \<times> Ipv6ServerStatus) outcome" where
  "remove_mac_binding ev mac st =
     (let now = ev_clk ev 0 in
      case hm_get (na_static_by_mac st) mac of
        None \<Rightarrow> Returned (no_changes, st)
      | Some old_suffix \<Rightarrow>
          let st = st\<lparr>na_static_by_mac := hm_remove mac (na_static_by_mac st)\<rparr>;
              st = (if hm_get (na_owners_by_suffix st) old_suffix = Some (StaticMac mac)
                    then st\<lparr>na_owners_by_suffix := hm_remove old_suffix (na_owners_by_suffix st)\<rparr> else st)
          in case static_lease_duid_for_mac ev mac st of
               None \<Rightarrow> Returned (no_changes, st)
             | Some duid \<Rightarrow>
                 (case hm_get (na_leases_by_duid st) duid of
                    None \<Rightarrow> Returned (no_changes, st)
                  | Some lease \<Rightarrow>
                      let st = st\<lparr>na_leases_by_duid := hm_remove duid (na_leases_by_duid st)\<rparr>;
                          changes = push_expired lease (Some old_suffix) no_changes
                      in if in_dynamic_pool st old_suffix \<and> \<not> hm_contains (na_owners_by_suffix st) old_suffix then
                           let lease = requalify (nl_suffix lease) (Some old_suffix) now st lease;
                               st = st\<lparr>na_owners_by_suffix := hm_insert old_suffix (DynamicDuid duid) (na_owners_by_suffix st)\<rparr>;
                               st = set_reconfigure_key ev duid (nl_mac lease) st;
                               st = st\<lparr>na_leases_by_duid := hm_insert duid lease (na_leases_by_duid st)\<rparr>
                           in Returned (push_allocated lease (Some old_suffix) changes, st)
                         else reassign_lease ev duid lease now old_suffix None changes st))"

definition update_device_binding ::
  "env6 \<Rightarrow> MacAddr \<Rightarrow> Ipv6Addr option \<Rightarrow> Ipv6ServerStatus \<Rightarrow> (DeviceBindingResult \<times> Ipv6ServerStatus) outcome" where
  "update_device_binding ev mac ipv6 st =
     (case ipv6 of
        Some ip \<Rightarrow>
          and_then (bind_mac_suffix ev mac (ipv6_suffix ip) st) (\<lambda>(r, st).
            Returned (case r of
                        SuffixBound changes \<Rightarrow> DeviceBound changes
                      | SuffixAlreadyBound \<Rightarrow> DeviceAlreadyBound
                      | SuffixStaticConflict owner \<Rightarrow> DeviceStaticConflict owner
                      | SuffixInvariantViolation old m \<Rightarrow> DeviceInvariantViolation old m, st))
      | None \<Rightarrow> and_then (remove_mac_binding ev mac st) (\<lambda>(changes, st). Returned (DeviceRemoved changes, st)))"

definition trigger_reconfigure_for_changes :: "DeviceBindingResult \<Rightarrow> MacAddr list" where
  "trigger_reconfigure_for_changes result =
     (let leases = (\<lambda>changes. map lc6_lease (cs_allocated changes) @ map lc6_lease (cs_expired changes) @ cs_released changes)
      in case result of
           DeviceBound changes \<Rightarrow> rev (remdups (rev (map nl_mac (leases changes))))
         | DeviceRemoved changes \<Rightarrow> rev (remdups (rev (map nl_mac (leases changes))))
         | _ \<Rightarrow> [])"

section \<open>Delegated prefixes\<close>

definition resolve_pd_key :: "Ipv6ServerStatus \<Rightarrow> bytes \<times> u32 \<Rightarrow> (Ipv6Addr \<times> u8) option" where
  "resolve_pd_key st key =
     do {
       cfg \<leftarrow> pd_config st;
       rg \<leftarrow> find (\<lambda>r. rg_group_id r = fst key \<and> rg_pool_len r \<le> id_delegate_prefix_len cfg) (pd_ranges (prefix_state st));
       resolve_pd_prefix [rg] \<lparr>key_group_id = fst key, key_sub_index = snd key\<rparr>
     }"

fun find_free_in :: "u8 \<Rightarrow> (bytes \<times> u32, bytes) hmap \<Rightarrow> PdRange list \<Rightarrow> (bytes \<times> u32) option" where
  "find_free_in max_prefix_len owners [] = None"
| "find_free_in max_prefix_len owners (rg # rgs) =
     (if rg_pool_len rg > max_prefix_len then find_free_in max_prefix_len owners rgs
      else case find (\<lambda>idx. \<not> hm_contains owners (rg_group_id rg, idx))
                  (map word_of_nat [unat (rg_start_idx rg) ..< Suc (unat (rg_end_idx rg))]) of
        Some idx \<Rightarrow> Some (rg_group_id rg, idx)
      | None \<Rightarrow> find_free_in max_prefix_len owners rgs)"

definition find_free_pd_slot :: "Ipv6ServerStatus \<Rightarrow> (bytes \<times> u32) option" where
  "find_free_pd_slot st =
     do { cfg \<leftarrow> pd_config st; find_free_in (id_delegate_prefix_len cfg) (pd_owners_by_slot st) (pd_ranges (prefix_state st)) }"

definition pl_key :: "PdLease \<Rightarrow> bytes \<times> u32" where
  "pl_key lease = (pl_group_id lease, pl_sub_index lease)"

definition drop_stale_pd :: "bytes \<Rightarrow> Ipv6ServerStatus \<Rightarrow> (Ipv6Addr \<times> u8) option \<times> Ipv6ServerStatus" where
  "drop_stale_pd duid st =
     (case hm_get (pd_leases_by_duid st) duid of
        None \<Rightarrow> (None, st)
      | Some lease \<Rightarrow>
          let reuse = (if hm_get (pd_owners_by_slot st) (pl_key lease) = Some duid then resolve_pd_key st (pl_key lease) else None)
          in case reuse of
               Some r \<Rightarrow> (Some r, st)
             | None \<Rightarrow> (None, st\<lparr>pd_leases_by_duid := hm_remove duid (pd_leases_by_duid st),
                            pd_owners_by_slot := hm_remove (pl_key lease) (pd_owners_by_slot st)\<rparr>))"

definition offer_pd :: "env6 \<Rightarrow> bytes \<Rightarrow> Ipv6ServerStatus \<Rightarrow> (Ipv6Addr \<times> u8) option \<times> Ipv6ServerStatus" where
  "offer_pd ev duid st =
     (if pd_config st = None then (None, st)
      else
        let now = ev_clk ev 0; (reused, st) = drop_stale_pd duid st in
        case reused of
          Some r \<Rightarrow> (Some r, st)
        | None \<Rightarrow>
        (case find_free_pd_slot st of
          None \<Rightarrow> (None, st)
        | Some key \<Rightarrow>
        (case resolve_pd_key st key of
          None \<Rightarrow> (None, st)
        | Some r \<Rightarrow>
            let life = offer_lifetime (st_preferred_lifetime st);
                lease = \<lparr>pl_group_id = fst key, pl_sub_index = snd key, pl_duid_hex = duid_to_hex duid,
                  pl_relative_offer_time = now, pl_valid_time = life, pl_preferred_time = life,
                  pl_client_addr = 0, pl_active_routes = []\<rparr>
            in (Some r, st\<lparr>pd_leases_by_duid := hm_insert duid lease (pd_leases_by_duid st),
                           pd_owners_by_slot := hm_insert key duid (pd_owners_by_slot st)\<rparr>))))"

definition confirm_pd :: "u64 \<Rightarrow> bytes \<Rightarrow> Ipv6ServerStatus \<Rightarrow> bool \<times> Ipv6ServerStatus" where
  "confirm_pd now duid st =
     (if pd_config st = None then (False, st)
      else case hm_get (pd_leases_by_duid st) duid of
        Some lease \<Rightarrow>
          (True, st\<lparr>pd_leases_by_duid := hm_insert duid
             (lease\<lparr>pl_valid_time := st_valid_lifetime st, pl_preferred_time := st_preferred_lifetime st,
                    pl_relative_offer_time := now\<rparr>) (pd_leases_by_duid st)\<rparr>)
      | None \<Rightarrow> (False, st))"

definition release_pd :: "bytes \<Rightarrow> Ipv6ServerStatus \<Rightarrow> ExpiredPd option \<times> Ipv6ServerStatus" where
  "release_pd duid st =
     (case hm_get (pd_leases_by_duid st) duid of
        None \<Rightarrow> (None, st)
      | Some lease \<Rightarrow>
          let st = st\<lparr>pd_leases_by_duid := hm_remove duid (pd_leases_by_duid st),
                      pd_owners_by_slot := hm_remove (pl_key lease) (pd_owners_by_slot st)\<rparr>
          in (map_option (\<lambda>(pre, prefix_len). \<lparr>xp_prefix = pre, xp_prefix_len = prefix_len, xp_sub_index = pl_sub_index lease,
                xp_duid_hex = pl_duid_hex lease, xp_active_routes = pl_active_routes lease\<rparr>) (resolve_pd_key st (pl_key lease)), st))"

fun release_pds :: "bytes list \<Rightarrow> Ipv6ServerStatus \<Rightarrow> ExpiredPd list \<times> Ipv6ServerStatus" where
  "release_pds [] st = ([], st)"
| "release_pds (duid # duids) st =
     (let (r, st) = release_pd duid st; (rest, st) = release_pds duids st
      in (case r of Some expired \<Rightarrow> expired # rest | None \<Rightarrow> rest, st))"

definition clean_expired_pd :: "env6 \<Rightarrow> u64 \<Rightarrow> Ipv6ServerStatus \<Rightarrow> ExpiredPd list \<times> Ipv6ServerStatus" where
  "clean_expired_pd ev now st =
     release_pds (map fst (filter (\<lambda>(_, lease). now > pl_relative_offer_time lease + ucast (pl_valid_time lease))
       (ev_pd_iter ev (pd_leases_by_duid st)))) st"

definition get_pd_prefix :: "Ipv6ServerStatus \<Rightarrow> bytes \<Rightarrow> (Ipv6Addr \<times> u8) option" where
  "get_pd_prefix st duid = do { lease \<leftarrow> hm_get (pd_leases_by_duid st) duid; resolve_pd_key st (pl_key lease) }"

definition pd_lease_sub_index :: "Ipv6ServerStatus \<Rightarrow> bytes \<Rightarrow> u32 option" where
  "pd_lease_sub_index st duid = map_option pl_sub_index (hm_get (pd_leases_by_duid st) duid)"

definition update_pd_routes ::
  "bytes \<Rightarrow> Ipv6Addr \<Rightarrow> (Ipv6Addr \<times> u8) list \<Rightarrow> Ipv6ServerStatus \<Rightarrow> (Ipv6Addr \<times> u8) list option \<times> Ipv6ServerStatus" where
  "update_pd_routes duid client_addr routes st =
     (case hm_get (pd_leases_by_duid st) duid of
        None \<Rightarrow> (None, st)
      | Some lease \<Rightarrow>
          (Some (pl_active_routes lease), st\<lparr>pd_leases_by_duid := hm_insert duid
             (lease\<lparr>pl_active_routes := routes, pl_client_addr := client_addr\<rparr>) (pd_leases_by_duid st)\<rparr>))"

fun reconcile_loop :: "(bytes \<times> (Ipv6Addr \<times> u8) option) list \<Rightarrow> Ipv6ServerStatus \<Rightarrow> PdRouteCleanup list \<times> Ipv6ServerStatus" where
  "reconcile_loop [] st = ([], st)"
| "reconcile_loop ((duid, expected) # resolved) st =
     (case hm_get (pd_leases_by_duid st) duid of
        None \<Rightarrow> reconcile_loop resolved st
      | Some lease \<Rightarrow>
          if (case expected of Some r \<Rightarrow> pl_active_routes lease = [r] | None \<Rightarrow> False) then reconcile_loop resolved st
          else
            let st = st\<lparr>pd_leases_by_duid := hm_insert duid (lease\<lparr>pl_active_routes := []\<rparr>) (pd_leases_by_duid st)\<rparr>;
                (rest, st) = reconcile_loop resolved st
            in (\<lparr>rcl_sub_index = pl_sub_index lease, rcl_routes = pl_active_routes lease\<rparr> # rest, st))"

definition reconcile_pd_routes :: "env6 \<Rightarrow> Ipv6ServerStatus \<Rightarrow> PdRouteCleanup list \<times> Ipv6ServerStatus" where
  "reconcile_pd_routes ev st =
     reconcile_loop (map (\<lambda>(duid, lease). (duid, resolve_pd_key st (pl_key lease)))
       (filter (\<lambda>(_, lease). pl_active_routes lease \<noteq> []) (ev_pd_iter ev (pd_leases_by_duid st)))) st"

definition drain_all_pd_routes :: "env6 \<Rightarrow> Ipv6ServerStatus \<Rightarrow> (Ipv6Addr \<times> u8) list \<times> Ipv6ServerStatus" where
  "drain_all_pd_routes ev st =
     (let (released, st) = release_pds (map fst (ev_pd_iter ev (pd_leases_by_duid st))) st
      in (concat (map xp_active_routes released), st))"

section \<open>Addresses chosen by the clients\<close>

definition record_slaac_addr :: "u64 \<Rightarrow> MacAddr \<Rightarrow> Ipv6Addr \<Rightarrow> Ipv6ServerStatus \<Rightarrow> SlaacResult \<times> Ipv6ServerStatus" where
  "record_slaac_addr now mac ip st =
     (if hm_contains (na_owners_by_suffix st) (ipv6_suffix ip) then (Conflict, st)
      else (Recorded, st\<lparr>slaac_entries := hm_insert ip \<lparr>sl_mac = mac, sl_relative_active_time = now, sl_probe_pending = False\<rparr>
              (slaac_entries st)\<rparr>))"

definition touch_slaac_addr :: "u64 \<Rightarrow> MacAddr \<Rightarrow> Ipv6Addr \<Rightarrow> Ipv6ServerStatus \<Rightarrow> bool \<times> Ipv6ServerStatus" where
  "touch_slaac_addr now mac ip st =
     (case hm_get (slaac_entries st) ip of
        None \<Rightarrow> (False, st)
      | Some entry \<Rightarrow>
          if sl_mac entry \<noteq> mac then (False, st)
          else (True, st\<lparr>slaac_entries := hm_insert ip (entry\<lparr>sl_relative_active_time := now, sl_probe_pending := False\<rparr>)
                  (slaac_entries st)\<rparr>))"

definition touch_slaac_probe :: "u64 \<Rightarrow> Ipv6Addr \<Rightarrow> Ipv6ServerStatus \<Rightarrow> MacAddr option \<times> Ipv6ServerStatus" where
  "touch_slaac_probe now ip st =
     (case hm_get (slaac_entries st) ip of
        None \<Rightarrow> (None, st)
      | Some entry \<Rightarrow>
          if \<not> sl_probe_pending entry then (None, st)
          else (Some (sl_mac entry), st\<lparr>slaac_entries := hm_insert ip (entry\<lparr>sl_relative_active_time := now, sl_probe_pending := False\<rparr>)
                  (slaac_entries st)\<rparr>))"

text \<open>\<open>retain\<close> visits the entries in the order of the map and may change them; here the entries are first
  taken in that order, and the ones that are kept are what remains.\<close>

definition slaac_expire_sweep :: "env6 \<Rightarrow> u64 \<Rightarrow> u64 \<Rightarrow> u64 \<Rightarrow> Ipv6ServerStatus \<Rightarrow> SlaacSweep \<times> Ipv6ServerStatus" where
  "slaac_expire_sweep ev now t1 t2 st =
     (let es = ev_slaac_iter ev (slaac_entries st);
          age = (\<lambda>e. saturating_sub_word now (sl_relative_active_time e));
          probe = (\<lambda>e. age e \<ge> t1 \<and> \<not> sl_probe_pending e);
          kept = filter (\<lambda>(ip, e). \<not> age e \<ge> t2) es
      in (\<lparr>sw_to_probe = map fst (filter (\<lambda>(ip, e). probe e) kept),
           sw_expired = map (\<lambda>(ip, e). (ip, sl_mac e)) (filter (\<lambda>(ip, e). age e \<ge> t2) es)\<rparr>,
          st\<lparr>slaac_entries := map (\<lambda>(ip, e). (ip, if probe e then e\<lparr>sl_probe_pending := True\<rparr> else e)) kept\<rparr>))"

definition should_verify_slaac_addr :: "Ipv6ServerStatus \<Rightarrow> Ipv6Addr \<Rightarrow> bool" where
  "should_verify_slaac_addr st ip \<longleftrightarrow>
     \<not> (hm_contains (slaac_entries st) ip \<or> hm_contains (na_owners_by_suffix st) (ipv6_suffix ip) \<or>
        list_ex (\<lambda>sn. sn_sub_router sn = ip) (cached_subnets st)) \<and>
     list_ex (\<lambda>e. ip AND len_mask (re_prefix_len e) = re_prefix e AND len_mask (re_prefix_len e)) (ra_entries (prefix_state st))"

section \<open>The invariant of the address leases\<close>

text \<open>The owner of a suffix is the one record of who holds it: a suffix is static for a MAC address iff the
  binding says so, and dynamic for a DUID iff the lease of the DUID says so; a static lease follows the
  binding of its MAC address, and a MAC address has at most one.\<close>

definition na_maps_ok ::
  "(bytes \<Rightarrow> NaLease option) \<Rightarrow> (u64 \<Rightarrow> SuffixOwner option) \<Rightarrow> (MacAddr \<Rightarrow> u64 option) \<Rightarrow> bool" where
  "na_maps_ok L W S \<longleftrightarrow>
     (\<forall>m s. S m = Some s \<longleftrightarrow> W s = Some (StaticMac m)) \<and>
     (\<forall>d s. W s = Some (DynamicDuid d) \<longleftrightarrow> (\<exists>l. L d = Some l \<and> \<not> nl_is_static l \<and> nl_suffix l = s)) \<and>
     (\<forall>d l. L d = Some l \<longrightarrow> nl_is_static l \<longrightarrow> S (nl_mac l) = Some (nl_suffix l)) \<and>
     (\<forall>d d' l l'. L d = Some l \<longrightarrow> L d' = Some l' \<longrightarrow> nl_is_static l \<longrightarrow> nl_is_static l' \<longrightarrow> nl_mac l = nl_mac l' \<longrightarrow> d = d')"

lemma na_maps_okI:
  assumes "\<And>m s. S m = Some s \<longleftrightarrow> W s = Some (StaticMac m)"
    and "\<And>d s. W s = Some (DynamicDuid d) \<longleftrightarrow> (\<exists>l. L d = Some l \<and> \<not> nl_is_static l \<and> nl_suffix l = s)"
    and "\<And>d l. L d = Some l \<Longrightarrow> nl_is_static l \<Longrightarrow> S (nl_mac l) = Some (nl_suffix l)"
    and "\<And>d d' l l'. L d = Some l \<Longrightarrow> L d' = Some l' \<Longrightarrow> nl_is_static l \<Longrightarrow> nl_is_static l' \<Longrightarrow> nl_mac l = nl_mac l' \<Longrightarrow> d = d'"
  shows "na_maps_ok L W S"
  unfolding na_maps_ok_def using assms by blast

lemma na_maps_static: "na_maps_ok L W S \<Longrightarrow> S m = Some s \<longleftrightarrow> W s = Some (StaticMac m)"
  by (simp add: na_maps_ok_def)

lemma na_maps_dynamic:
  "na_maps_ok L W S \<Longrightarrow> W s = Some (DynamicDuid d) \<longleftrightarrow> (\<exists>l. L d = Some l \<and> \<not> nl_is_static l \<and> nl_suffix l = s)"
  by (simp add: na_maps_ok_def)

lemma na_maps_static_lease: "na_maps_ok L W S \<Longrightarrow> L d = Some l \<Longrightarrow> nl_is_static l \<Longrightarrow> S (nl_mac l) = Some (nl_suffix l)"
  by (simp add: na_maps_ok_def)

lemma na_maps_one_static:
  "na_maps_ok L W S \<Longrightarrow> L d = Some l \<Longrightarrow> L d' = Some l' \<Longrightarrow> nl_is_static l \<Longrightarrow> nl_is_static l' \<Longrightarrow> nl_mac l = nl_mac l' \<Longrightarrow> d = d'"
  unfolding na_maps_ok_def by blast

lemmas na_maps_facts = na_maps_static na_maps_dynamic na_maps_static_lease

text \<open>A suffix has one holder.\<close>

lemma na_maps_exclusive:
  assumes ok: "na_maps_ok L W S" and "L d = Some l" and "L d' = Some l'" and "nl_suffix l = nl_suffix l'"
  shows "d = d'"
proof -
  have own: "(if nl_is_static x then W (nl_suffix x) = Some (StaticMac (nl_mac x)) else W (nl_suffix x) = Some (DynamicDuid e))"
    if "L e = Some x" for e x
    using na_maps_static_lease [OF ok that] na_maps_static [OF ok] na_maps_dynamic [OF ok] that by auto
  show ?thesis
    using own [OF assms(2)] own [OF assms(3)] assms(4) na_maps_one_static [OF ok assms(2,3)] by (auto split: if_splits)
qed

text \<open>The changes the operations are made of.\<close>

lemma na_maps_give:
  assumes ok: "na_maps_ok L W S" and "L d = None" and "W s = None" and "\<not> nl_is_static l" and "nl_suffix l = s"
  shows "na_maps_ok (L(d \<mapsto> l)) (W(s \<mapsto> DynamicDuid d)) S"
proof (rule na_maps_okI, goal_cases)
  case (1 m t) show ?case using assms(3) na_maps_static [OF ok, of m t] by auto
next
  case (2 e t) show ?case using assms(2-5) na_maps_dynamic [OF ok, of t e] na_maps_dynamic [OF ok, of s e] by auto
next
  case (3 e k) then show ?case using assms(4) na_maps_static_lease [OF ok, of e k] by (auto split: if_splits)
next
  case (4 e e' k k') then show ?case using assms(4) na_maps_one_static [OF ok, of e k e' k'] by (auto split: if_splits)
qed

lemma na_maps_take_dynamic:
  assumes ok: "na_maps_ok L W S" and "L d = Some l" and "\<not> nl_is_static l"
  shows "na_maps_ok (L(d := None)) (W(nl_suffix l := None)) S"
proof -
  have w: "W (nl_suffix l) = Some (DynamicDuid d)" using assms by (auto simp: na_maps_dynamic [OF ok])
  show ?thesis
  proof (rule na_maps_okI, goal_cases)
    case (1 m t) show ?case using w na_maps_static [OF ok, of m t] by auto
  next
    case (2 e t) show ?case using w assms(2) na_maps_dynamic [OF ok, of t e] by auto
  next
    case (3 e k) then show ?case using na_maps_static_lease [OF ok, of e k] by (auto split: if_splits)
  next
    case (4 e e' k k') then show ?case using na_maps_one_static [OF ok, of e k e' k'] by (auto split: if_splits)
  qed
qed

lemma na_maps_take_static:
  assumes ok: "na_maps_ok L W S" and "L d = Some l" and "nl_is_static l"
  shows "na_maps_ok (L(d := None)) W S"
proof (rule na_maps_okI, goal_cases)
  case (1 m t) show ?case by (rule na_maps_static [OF ok])
next
  case (2 e t) show ?case using assms(2,3) na_maps_dynamic [OF ok, of t e] by auto
next
  case (3 e k) then show ?case using na_maps_static_lease [OF ok, of e k] by (auto split: if_splits)
next
  case (4 e e' k k') then show ?case using na_maps_one_static [OF ok, of e k e' k'] by (auto split: if_splits)
qed

lemma na_maps_give_static:
  assumes ok: "na_maps_ok L W S" and "L d = None" and "nl_is_static l" and "S (nl_mac l) = Some (nl_suffix l)"
    and "\<And>e k. L e = Some k \<Longrightarrow> nl_is_static k \<Longrightarrow> nl_mac k \<noteq> nl_mac l"
  shows "na_maps_ok (L(d \<mapsto> l)) W S"
proof (rule na_maps_okI, goal_cases)
  case (1 m t) show ?case by (rule na_maps_static [OF ok])
next
  case (2 e t) show ?case using assms(2,3) na_maps_dynamic [OF ok, of t e] by auto
next
  case (3 e k) then show ?case using assms(4) na_maps_static_lease [OF ok, of e k] by (auto split: if_splits)
next
  case (4 e e' k k') then show ?case using assms(5) na_maps_one_static [OF ok, of e k e' k'] by (auto split: if_splits)
qed

lemma na_maps_keep:
  assumes ok: "na_maps_ok L W S" and "L d = Some l"
    and "nl_is_static l' = nl_is_static l" and "nl_suffix l' = nl_suffix l" and "nl_mac l' = nl_mac l"
  shows "na_maps_ok (L(d \<mapsto> l')) W S"
proof (rule na_maps_okI, goal_cases)
  case (1 m t) show ?case by (rule na_maps_static [OF ok])
next
  case (2 e t) show ?case using assms(2-4) na_maps_dynamic [OF ok, of t e] by auto
next
  case (3 e k) then show ?case using assms na_maps_static_lease [OF ok, of e] by (auto split: if_splits)
next
  case (4 e e' k k') then show ?case using assms na_maps_one_static [OF ok] by (metis fun_upd_apply option.inject)
qed

lemma na_maps_bind:
  assumes ok: "na_maps_ok L W S" and "S m = None" and "W s = None"
  shows "na_maps_ok L (W(s \<mapsto> StaticMac m)) (S(m \<mapsto> s))"
proof (rule na_maps_okI, goal_cases)
  case (1 m' t) show ?case using assms(2,3) na_maps_static [OF ok, of m' t] na_maps_static [OF ok, of m t] na_maps_static [OF ok, of m' s] by auto
next
  case (2 e t) show ?case using assms(3) na_maps_dynamic [OF ok, of t e] by auto
next
  case (3 e k) then show ?case using assms(2) na_maps_static_lease [OF ok, of e k] by (auto split: if_splits)
next
  case (4 e e' k k') then show ?case by (rule na_maps_one_static [OF ok])
qed

lemma na_maps_unbind:
  assumes ok: "na_maps_ok L W S" and "S m = Some s" and "\<And>d l. L d = Some l \<Longrightarrow> nl_is_static l \<Longrightarrow> nl_mac l \<noteq> m"
  shows "na_maps_ok L (W(s := None)) (S(m := None))"
proof -
  have w: "W s = Some (StaticMac m)" using assms(2) na_maps_static [OF ok] by simp
  show ?thesis
  proof (rule na_maps_okI, goal_cases)
    case (1 m' t) show ?case using w assms(2) na_maps_static [OF ok, of m' t] by auto
  next
    case (2 e t) show ?case using w na_maps_dynamic [OF ok, of t e] by auto
  next
    case (3 e k) then show ?case using assms(3) na_maps_static_lease [OF ok, of e k] by auto
  next
    case (4 e e' k k') then show ?case by (rule na_maps_one_static [OF ok])
  qed
qed

section \<open>What the operations leave alone\<close>

abbreviation na_L :: "Ipv6ServerStatus \<Rightarrow> bytes \<Rightarrow> NaLease option" where
  "na_L st \<equiv> hm_get (na_leases_by_duid st)"

abbreviation na_W :: "Ipv6ServerStatus \<Rightarrow> u64 \<Rightarrow> SuffixOwner option" where
  "na_W st \<equiv> hm_get (na_owners_by_suffix st)"

abbreviation na_S :: "Ipv6ServerStatus \<Rightarrow> MacAddr \<Rightarrow> u64 option" where
  "na_S st \<equiv> hm_get (na_static_by_mac st)"

lemma hm_get_upd: "hm_get (hm_insert k v m) = (hm_get m)(k \<mapsto> v)" "hm_get (hm_remove k m) = (hm_get m)(k := None)"
  by (auto simp: fun_eq_iff)

text \<open>The leases and their owners, without and with what a delegation needs.\<close>

definition na_view :: "Ipv6ServerStatus \<Rightarrow> (bytes, NaLease) hmap \<times> (u64, SuffixOwner) hmap \<times> (MacAddr, u64) hmap" where
  "na_view st = (na_leases_by_duid st, na_owners_by_suffix st, na_static_by_mac st)"

definition pd_view ::
  "Ipv6ServerStatus \<Rightarrow> DHCPv6IAPDConfig option \<times> PrefixState \<times> (bytes, PdLease) hmap \<times> (bytes \<times> u32, bytes) hmap" where
  "pd_view st = (pd_config st, prefix_state st, pd_leases_by_duid st, pd_owners_by_slot st)"

lemma set_reconfigure_key_view [simp]:
  "na_view (set_reconfigure_key ev d m st) = na_view st" "pd_view (set_reconfigure_key ev d m st) = pd_view st"
  "na_leases_by_duid (set_reconfigure_key ev d m st) = na_leases_by_duid st"
  "na_owners_by_suffix (set_reconfigure_key ev d m st) = na_owners_by_suffix st"
  "na_static_by_mac (set_reconfigure_key ev d m st) = na_static_by_mac st"
  by (simp_all add: set_reconfigure_key_def na_view_def pd_view_def Let_def split: option.split)

lemma drop_slaac_view [simp]:
  "na_view (drop_slaac s st) = na_view st" "pd_view (drop_slaac s st) = pd_view st"
  "na_leases_by_duid (drop_slaac s st) = na_leases_by_duid st"
  "na_owners_by_suffix (drop_slaac s st) = na_owners_by_suffix st"
  "na_static_by_mac (drop_slaac s st) = na_static_by_mac st"
  by (simp_all add: drop_slaac_def na_view_def pd_view_def)

lemma remove_dynamic_owner_view [simp]:
  "pd_view (remove_dynamic_owner_if_matches s d st) = pd_view st"
  "na_leases_by_duid (remove_dynamic_owner_if_matches s d st) = na_leases_by_duid st"
  "na_static_by_mac (remove_dynamic_owner_if_matches s d st) = na_static_by_mac st"
  by (simp_all add: remove_dynamic_owner_if_matches_def pd_view_def)

lemma remove_dynamic_owner_W:
  "na_W (remove_dynamic_owner_if_matches s d st) = (if na_W st s = Some (DynamicDuid d) then (na_W st)(s := None) else na_W st)"
  by (simp add: remove_dynamic_owner_if_matches_def hm_get_upd)

lemma insert_dynamic_view [simp]:
  "pd_view (insert_dynamic_na_lease ev d m h now prev s st) = pd_view st"
  by (simp add: insert_dynamic_na_lease_def Let_def, simp add: pd_view_def)

lemma insert_static_view [simp]: "pd_view (insert_static_na_lease ev d m s h now st) = pd_view st"
proof -
  have "pd_view (st'\<lparr>na_leases_by_duid := x\<rparr>) = pd_view st'" "pd_view (st'\<lparr>na_owners_by_suffix := y\<rparr>) = pd_view st'" for st' x y
    by (simp_all add: pd_view_def)
  then show ?thesis by (simp add: insert_static_na_lease_def Let_def split: option.split)
qed

lemma remove_na_lease_view [simp]: "pd_view (snd (remove_na_lease d st)) = pd_view st"
  by (simp add: remove_na_lease_def Let_def split: option.split) (simp add: pd_view_def)

lemma remove_na_leases_view [simp]: "pd_view (snd (remove_na_leases ds st)) = pd_view st"
  by (induction ds arbitrary: st) (auto simp: Let_def split: prod.split, metis remove_na_lease_view snd_conv)

lemma clean_expired_na_view [simp]: "pd_view (snd (clean_expired_na ev now st)) = pd_view st"
  by (simp add: clean_expired_na_def)

lemma allocate_view [simp]: "pd_view (snd (allocate_dynamic_na_suffix ev d m h now p x st)) = pd_view st"
proof -
  obtain ex st' where c: "clean_expired_na ev (ev_clk ev 1) st = (ex, st')" by fastforce
  then have "pd_view st' = pd_view st" using clean_expired_na_view [of ev "ev_clk ev 1" st] by simp
  then show ?thesis by (simp add: allocate_dynamic_na_suffix_def c [simplified] split: option.split)
qed

lemma offer_na_view [simp]: "pd_view (snd (offer_na ev d m h st)) = pd_view st"
proof -
  obtain r st' where a: "allocate_dynamic_na_suffix ev d m h (ev_clk ev 0) None None st = (r, st')" by fastforce
  then have "pd_view st' = pd_view st" using allocate_view [of ev d m h "ev_clk ev 0" None None st] by simp
  then show ?thesis by (simp add: offer_na_def Let_def a split: option.split)
qed

lemma confirm_na_view [simp]: "pd_view (snd (confirm_na now d st)) = pd_view st"
  by (simp add: confirm_na_def pd_view_def split: option.split)

lemma release_na_view [simp]: "pd_view (snd (release_na d st)) = pd_view st"
  by (metis (no_types, lifting) case_prod_unfold release_na_def remove_na_lease_view snd_conv)

lemma consume_view [simp]: "pd_view (consume_prev_suffix d st) = pd_view st"
  by (simp add: consume_prev_suffix_def pd_view_def split: option.split)

section \<open>Every operation keeps the invariant\<close>

text \<open>The leases in \<open>D\<close> and the bindings in \<open>M\<close> are left out of account: an operation that moves a binding
  does so in several steps, and between them the invariant holds of the rest only.\<close>

definition hide :: "'a set \<Rightarrow> ('a \<Rightarrow> 'b option) \<Rightarrow> 'a \<Rightarrow> 'b option" where
  "hide D f x = (if x \<in> D then None else f x)"

lemma hide_empty [simp]: "hide {} f = f"
  by (simp add: hide_def fun_eq_iff)

lemma hide_upd: "hide D (f(x := y)) = (if x \<in> D then hide D f else (hide D f)(x := y))"
  by (auto simp: hide_def fun_eq_iff)

definition na_inv :: "bytes set \<Rightarrow> MacAddr set \<Rightarrow> Ipv6ServerStatus \<Rightarrow> bool" where
  "na_inv D M st \<longleftrightarrow> hm_ok (na_leases_by_duid st) \<and> na_maps_ok (hide D (na_L st)) (na_W st) (hide M (na_S st))"

abbreviation na_ok :: "Ipv6ServerStatus \<Rightarrow> bool" where
  "na_ok \<equiv> na_inv {} {}"

lemma na_ok_maps: "na_ok st \<longleftrightarrow> hm_ok (na_leases_by_duid st) \<and> na_maps_ok (na_L st) (na_W st) (na_S st)"
  by (simp add: na_inv_def)

lemma na_inv_cong: "na_view st = na_view st' \<Longrightarrow> na_inv D M st = na_inv D M st'"
  by (simp add: na_inv_def na_view_def)

lemma iter_mem: "iter_ok ev \<Longrightarrow> set (ev_iter ev m) = set m" "iter_ok ev \<Longrightarrow> set (ev_pd_iter ev k) = set k"
  "iter_ok ev \<Longrightarrow> set (ev_slaac_iter ev n) = set n"
  by (metis iter_ok_def set_mset_mset)+

lemma find_mem: "find P xs = Some x \<Longrightarrow> x \<in> set xs \<and> P x"
  by (auto simp: find_Some_iff)

lemma static_lease_duid_Some:
  assumes "iter_ok ev" and "hm_ok (na_leases_by_duid st)" and "static_lease_duid_for_mac ev m st = Some d"
  obtains l where "na_L st d = Some l" "nl_mac l = m" "nl_is_static l"
proof -
  obtain l where "find (\<lambda>(_, lease). nl_mac lease = m \<and> nl_is_static lease) (ev_iter ev (na_leases_by_duid st)) = Some (d, l)"
    using assms(3) by (auto simp: static_lease_duid_for_mac_def)
  then have "(d, l) \<in> set (ev_iter ev (na_leases_by_duid st)) \<and> nl_mac l = m \<and> nl_is_static l"
    using find_mem by fastforce
  then show ?thesis using that assms(1,2) by (simp add: iter_mem hm_get_mem)
qed

lemma static_lease_duid_None:
  assumes "iter_ok ev" and "hm_ok (na_leases_by_duid st)" and "static_lease_duid_for_mac ev m st = None"
    and "na_L st d = Some l" and "nl_is_static l"
  shows "nl_mac l \<noteq> m"
  using assms by (auto simp: static_lease_duid_for_mac_def find_None_iff iter_mem hm_get_mem)

lemma lease_duid_Some:
  assumes "iter_ok ev" and "hm_ok (na_leases_by_duid st)" and "lease_duid_for_mac ev m st = Some d"
  obtains l where "na_L st d = Some l" "nl_mac l = m"
proof (cases "static_lease_duid_for_mac ev m st")
  case None
  then obtain l where "find (\<lambda>(_, lease). nl_mac lease = m) (ev_iter ev (na_leases_by_duid st)) = Some (d, l)"
    using assms(3) by (auto simp: lease_duid_for_mac_def)
  then have "(d, l) \<in> set (ev_iter ev (na_leases_by_duid st)) \<and> nl_mac l = m" using find_mem by fastforce
  then show ?thesis using that assms(1,2) by (simp add: iter_mem hm_get_mem)
next
  case (Some e)
  then have "e = d" using assms(3) by (simp add: lease_duid_for_mac_def)
  then show ?thesis using that static_lease_duid_Some [OF assms(1,2) Some] by metis
qed

text \<open>The lease of a MAC address that a binding changes is its static lease, if it has one.\<close>

lemma lease_duid_static:
  assumes "iter_ok ev" and "na_ok st" and "na_L st d = Some l" and "nl_is_static l" and "nl_mac l = m"
  shows "lease_duid_for_mac ev m st = Some d"
proof (cases "static_lease_duid_for_mac ev m st")
  case None
  then show ?thesis using assms static_lease_duid_None [of ev st m d l] by (simp add: na_ok_maps)
next
  case (Some e)
  then obtain k where "na_L st e = Some k" "nl_mac k = m" "nl_is_static k"
    using static_lease_duid_Some [OF assms(1) _ Some] assms(2) by (auto simp: na_ok_maps)
  then have "e = d" using na_maps_one_static [of "na_L st" _ _ e k d l] assms(2-5) by (auto simp: na_ok_maps)
  then show ?thesis using Some by (simp add: lease_duid_for_mac_def)
qed

lemma remove_na_lease_inv:
  assumes "na_inv D M st"
  shows "na_inv D M (snd (remove_na_lease d st))"
proof (cases "na_L st d")
  case None
  then show ?thesis using assms by (simp add: remove_na_lease_def)
next
  case (Some l)
  have ok: "na_maps_ok (hide D (na_L st)) (na_W st) (hide M (na_S st))" and hm: "hm_ok (na_leases_by_duid st)"
    using assms by (simp_all add: na_inv_def)
  show ?thesis
  proof (cases "d \<in> D")
    case True
    then have "na_W st s \<noteq> Some (DynamicDuid d)" for s using na_maps_dynamic [OF ok, of s d] by (simp add: hide_def)
    then show ?thesis using Some True ok hm
      by (simp add: remove_na_lease_def na_inv_def remove_dynamic_owner_if_matches_def hm_get_upd hide_upd Let_def)
  next
    case False
    then have l: "(hide D (na_L st)) d = Some l" using Some by (simp add: hide_def)
    then show ?thesis
      using Some False hm na_maps_take_static [OF ok l] na_maps_take_dynamic [OF ok l] na_maps_dynamic [OF ok, of "nl_suffix l" d]
      by (simp add: remove_na_lease_def na_inv_def remove_dynamic_owner_if_matches_def hm_get_upd hide_upd Let_def)
  qed
qed

lemma remove_na_leases_inv: "na_inv D M st \<Longrightarrow> na_inv D M (snd (remove_na_leases ds st))"
proof (induction ds arbitrary: st)
  case (Cons d ds)
  obtain r st' where s: "remove_na_lease d st = (r, st')" by fastforce
  then have "na_inv D M st'" using remove_na_lease_inv [OF Cons.prems, of d] by simp
  then have "na_inv D M (snd (remove_na_leases ds st'))" by (rule Cons.IH)
  then show ?case by (simp add: s split_def Let_def)
qed simp

lemma clean_expired_na_inv: "na_inv D M st \<Longrightarrow> na_inv D M (snd (clean_expired_na ev now st))"
  by (simp add: clean_expired_na_def remove_na_leases_inv)

lemma release_na_inv: "na_inv D M st \<Longrightarrow> na_inv D M (snd (release_na d st))"
  using remove_na_lease_inv [of D M st d] by (simp add: release_na_def split_def Let_def)

text \<open>Removing leases only forgets.\<close>

definition forgets :: "Ipv6ServerStatus \<Rightarrow> Ipv6ServerStatus \<Rightarrow> bool" where
  "forgets st st' \<longleftrightarrow> na_static_by_mac st' = na_static_by_mac st \<and>
     (\<forall>d. na_L st' d = None \<or> na_L st' d = na_L st d) \<and> (\<forall>s. na_W st' s = None \<or> na_W st' s = na_W st s)"

lemma forgets_refl [simp]: "forgets st st"
  by (simp add: forgets_def)

lemma forgets_None: "forgets st st' \<Longrightarrow> na_L st d = None \<Longrightarrow> na_L st' d = None" "forgets st st' \<Longrightarrow> na_W st s = None \<Longrightarrow> na_W st' s = None"
  by (auto simp: forgets_def dest: spec [of _ d] spec [of _ s])

lemma forgets_trans: "forgets st st' \<Longrightarrow> forgets st' st'' \<Longrightarrow> forgets st st''"
  unfolding forgets_def by metis

lemma remove_na_lease_forgets: "forgets st (snd (remove_na_lease d st))"
  by (auto simp: remove_na_lease_def forgets_def remove_dynamic_owner_if_matches_def Let_def split: option.splits)

lemma remove_na_leases_forgets: "forgets st (snd (remove_na_leases ds st))"
proof (induction ds arbitrary: st)
  case (Cons d ds)
  obtain r st' where s: "remove_na_lease d st = (r, st')" by fastforce
  have "forgets st st'" using remove_na_lease_forgets [of st d] s by simp
  moreover have "forgets st' (snd (remove_na_leases ds st'))" by (rule Cons.IH)
  ultimately have "forgets st (snd (remove_na_leases ds st'))" by (rule forgets_trans)
  then show ?case by (simp add: s split_def Let_def)
qed simp

lemma clean_expired_na_forgets: "forgets st (snd (clean_expired_na ev now st))"
  by (simp add: clean_expired_na_def remove_na_leases_forgets)

abbreviation slaac_suffixes :: "Ipv6ServerStatus \<Rightarrow> u64 set" where
  "slaac_suffixes st \<equiv> (\<lambda>(ip, _). ipv6_suffix ip) ` set (slaac_entries st)"

lemma probe_suffix_free:
  "probe_suffix st excluded n seed = Some s \<Longrightarrow>
     na_W st s = None \<and> excluded \<noteq> Some s \<and> s \<notin> slaac_suffixes st"
  by (induction n arbitrary: seed) (auto simp: Let_def hm_contains_def split: if_splits)

lemma find_free_free:
  "find_free_dynamic_suffix d excluded st = Some s \<Longrightarrow>
     na_W st s = None \<and> excluded \<noteq> Some s \<and> s \<notin> slaac_suffixes st"
  unfolding find_free_dynamic_suffix_def by (rule probe_suffix_free)

text \<open>Giving a free suffix to a client without a lease.\<close>

definition dyn_lease :: "bytes \<Rightarrow> u64 \<Rightarrow> Ipv6ServerStatus \<Rightarrow> Ipv6ServerStatus \<Rightarrow> bool" where
  "dyn_lease d s st st' \<longleftrightarrow> na_static_by_mac st' = na_static_by_mac st \<and> na_W st s = None \<and>
     (\<exists>l. \<not> nl_is_static l \<and> nl_suffix l = s \<and> na_L st' = (na_L st)(d \<mapsto> l)) \<and> na_W st' = (na_W st)(s \<mapsto> DynamicDuid d) \<and>
     (hm_ok (na_leases_by_duid st) \<longrightarrow> hm_ok (na_leases_by_duid st'))"

lemma insert_dynamic_gives:
  "na_W st s = None \<Longrightarrow> dyn_lease d s st (insert_dynamic_na_lease ev d m h now prev s st)"
  unfolding dyn_lease_def insert_dynamic_na_lease_def Let_def
  by (intro conjI exI [where x = "\<lparr>nl_suffix = s, nl_duid_hex = duid_to_hex d, nl_mac = m, nl_hostname = h,
      nl_relative_offer_time = now, nl_valid_time = offer_lifetime (st_preferred_lifetime st),
      nl_preferred_time = offer_lifetime (st_preferred_lifetime st), nl_is_static = False, nl_prev_suffix = prev\<rparr>"])
    (simp_all add: hm_get_upd)

lemma dyn_lease_inv:
  assumes "na_inv D M st" and "d \<notin> D" and "na_L st d = None" and "dyn_lease d s st st'"
  shows "na_inv D M st'"
proof -
  obtain l where l: "\<not> nl_is_static l" "nl_suffix l = s" "na_L st' = (na_L st)(d \<mapsto> l)"
    using assms(4) by (auto simp: dyn_lease_def)
  have "na_maps_ok ((hide D (na_L st))(d \<mapsto> l)) ((na_W st)(s \<mapsto> DynamicDuid d)) (hide M (na_S st))"
    using assms l(1,2) by (intro na_maps_give) (auto simp: na_inv_def hide_def dyn_lease_def)
  then show ?thesis using assms l by (simp add: na_inv_def dyn_lease_def hide_upd)
qed

text \<open>What an allocation does: nothing but forget expired leases, or that and one new lease.\<close>

lemma allocate_cases:
  assumes "allocate_dynamic_na_suffix ev d m h now p x st = (r, st')"
  obtains st1 where "st1 = st \<or> (\<exists>now'. st1 = snd (clean_expired_na ev now' st))" "forgets st st1"
    "case r of None \<Rightarrow> st' = st1 | Some s \<Rightarrow> x \<noteq> Some s \<and> dyn_lease d s st1 st'"
proof (cases "na_range_capacity st = 0")
  case True
  then show ?thesis using that [of st] assms by (auto simp: allocate_dynamic_na_suffix_def)
next
  case False
  obtain ex stc where c: "clean_expired_na ev (ev_clk ev 1) st = (ex, stc)" by fastforce
  then have cf: "forgets st stc" "stc = snd (clean_expired_na ev (ev_clk ev 1) st)"
    using clean_expired_na_forgets [of st ev "ev_clk ev 1"] by simp_all
  show ?thesis
  proof (cases "find_free_dynamic_suffix d x st")
    case (Some s)
    then have "r = Some s" "st' = insert_dynamic_na_lease ev d m h now p s st"
      using False assms by (simp_all add: allocate_dynamic_na_suffix_def)
    then show ?thesis using that [of st] find_free_free [OF Some] insert_dynamic_gives [of st s] by simp
  next
    case None
    then have a: "(if ex = [] then (None, stc)
       else case find_free_dynamic_suffix d x stc of
         Some s \<Rightarrow> (Some s, insert_dynamic_na_lease ev d m h now p s stc) | None \<Rightarrow> (None, stc)) = (r, st')"
      using False assms by (simp add: allocate_dynamic_na_suffix_def c [simplified])
    show ?thesis
    proof (rule that [of stc])
      show "stc = st \<or> (\<exists>now'. stc = snd (clean_expired_na ev now' st))" using cf(2) by blast
      show "forgets st stc" by (rule cf(1))
      show "case r of None \<Rightarrow> st' = stc | Some s \<Rightarrow> x \<noteq> Some s \<and> dyn_lease d s stc st'"
      proof (cases "ex = [] \<or> find_free_dynamic_suffix d x stc = None")
        case True
        then show ?thesis using a by (auto split: if_splits)
      next
        case False
        then obtain s where s: "find_free_dynamic_suffix d x stc = Some s" "ex \<noteq> []" by auto
        then have "r = Some s" "st' = insert_dynamic_na_lease ev d m h now p s stc" using a by simp_all
        then show ?thesis using find_free_free [OF s(1)] insert_dynamic_gives [of stc s] by simp
      qed
    qed
  qed
qed

lemma allocate_inv:
  assumes "na_inv D M st" and "d \<notin> D" and "na_L st d = None"
    and "allocate_dynamic_na_suffix ev d m h now p x st = (r, st')"
  shows "na_inv D M st'"
proof -
  obtain st1 where st1: "st1 = st \<or> (\<exists>now'. st1 = snd (clean_expired_na ev now' st))" "forgets st st1"
    "case r of None \<Rightarrow> st' = st1 | Some s \<Rightarrow> x \<noteq> Some s \<and> dyn_lease d s st1 st'"
    using allocate_cases [OF assms(4)] .
  have i: "na_inv D M st1" using st1(1) clean_expired_na_inv [OF assms(1)] assms(1) by auto
  show ?thesis
  proof (cases r)
    case None
    then show ?thesis using st1(3) i by simp
  next
    case (Some s)
    then show ?thesis using st1(3) dyn_lease_inv [OF i assms(2) forgets_None(1) [OF st1(2) assms(3)], of s st'] by simp
  qed
qed

lemma na_maps_forget_lease:
  assumes "na_maps_ok L W S"
  shows "na_maps_ok (L(d := None)) (case L d of Some l \<Rightarrow> if W (nl_suffix l) = Some (DynamicDuid d) then W(nl_suffix l := None) else W | None \<Rightarrow> W) S"
proof (cases "L d")
  case None
  then have "L(d := None) = L" by (simp add: fun_upd_idem)
  then show ?thesis using assms None by simp
next
  case (Some l)
  then show ?thesis
    using na_maps_take_dynamic [OF assms Some] na_maps_take_static [OF assms Some] na_maps_dynamic [OF assms, of "nl_suffix l" d]
    by (cases "nl_is_static l") auto
qed

lemma insert_static_inv:
  assumes ok: "na_ok st" and it: "iter_ok ev" and s: "na_S st m = Some s"
  shows "na_ok (insert_static_na_lease ev d m s h now st)"
proof -
  define st1 where "st1 = (case map_option nl_suffix (na_L st d) of Some old \<Rightarrow> remove_dynamic_owner_if_matches old d st | None \<Rightarrow> st)"
  define st2 where "st2 = (case static_lease_duid_for_mac ev m st1 of
     Some e \<Rightarrow> if e \<noteq> d then st1\<lparr>na_leases_by_duid := hm_remove e (na_leases_by_duid st1)\<rparr> else st1 | None \<Rightarrow> st1)"
  define L2 where "L2 = na_leases_by_duid st2"
  have fr: "na_leases_by_duid st1 = na_leases_by_duid st" "na_static_by_mac st1 = na_static_by_mac st"
    "na_owners_by_suffix st2 = na_owners_by_suffix st1" "na_static_by_mac st2 = na_static_by_mac st1"
    by (simp_all add: st1_def st2_def split: option.split)
  have hm: "hm_ok (na_leases_by_duid st1)" "hm_ok L2" using ok by (auto simp: fr na_ok_maps L2_def st2_def split: option.split)
  have w1: "na_W st1 = (case na_L st d of Some l \<Rightarrow> if na_W st (nl_suffix l) = Some (DynamicDuid d)
      then (na_W st)(nl_suffix l := None) else na_W st | None \<Rightarrow> na_W st)"
    by (simp add: st1_def remove_dynamic_owner_W split: option.split)
  have one: "na_maps_ok ((na_L st)(d := None)) (na_W st1) (na_S st)"
    using na_maps_forget_lease [of "na_L st" "na_W st" "na_S st" d] ok by (simp add: w1 na_ok_maps)
  have two: "na_maps_ok ((hm_get L2)(d := None)) (na_W st1) (na_S st) \<and>
      (\<forall>e k. ((hm_get L2)(d := None)) e = Some k \<longrightarrow> nl_is_static k \<longrightarrow> nl_mac k \<noteq> m)"
  proof (cases "static_lease_duid_for_mac ev m st1")
    case None
    then have "L2 = na_leases_by_duid st" by (simp add: L2_def st2_def fr)
    then show ?thesis using one static_lease_duid_None [OF it hm(1) None] by (simp add: fr)
  next
    case (Some e)
    then obtain k where k: "na_L st e = Some k" "nl_mac k = m" "nl_is_static k"
      using static_lease_duid_Some [OF it hm(1) Some] by (auto simp: fr)
    have uniq: "e' = e" if "na_L st e' = Some k'" "nl_is_static k'" "nl_mac k' = m" for e' k'
      using na_maps_one_static [of "na_L st" "na_W st" "na_S st" e' k' e k] ok k that by (simp add: na_ok_maps)
    show ?thesis
    proof (cases "e = d")
      case True
      then have "L2 = na_leases_by_duid st" using Some by (simp add: L2_def st2_def fr)
      then show ?thesis using one True uniq by (auto split: if_splits)
    next
      case False
      then have l2: "hm_get L2 = (na_L st)(e := None)" using Some by (simp add: L2_def st2_def fr hm_get_upd)
      have "na_maps_ok ((na_L st)(d := None, e := None)) (na_W st1) (na_S st)"
        using na_maps_take_static [OF one, of e k] False k by simp
      then show ?thesis using l2 uniq fun_upd_twist [OF False, of "na_L st" None None] by (auto split: if_splits)
    qed
  qed
  have w: "(na_W st1)(s \<mapsto> StaticMac m) = na_W st1"
    using na_maps_static [OF one, of m s] s by (simp add: fun_upd_idem)
  let ?st' = "insert_static_na_lease ev d m s h now st"
  define st3 where "st3 = st2\<lparr>na_owners_by_suffix := hm_insert s (StaticMac m) (na_owners_by_suffix st2)\<rparr>"
  define l where "l = \<lparr>nl_suffix = s, nl_duid_hex = duid_to_hex d, nl_mac = m, nl_hostname = h, nl_relative_offer_time = now,
    nl_valid_time = offer_lifetime (st_preferred_lifetime st3), nl_preferred_time = offer_lifetime (st_preferred_lifetime st3),
    nl_is_static = True, nl_prev_suffix = (case map_option nl_suffix (na_L st d) of Some prev \<Rightarrow> if prev \<noteq> s then Some prev else None | None \<Rightarrow> None)\<rparr>"
  have eq: "?st' = drop_slaac s (set_reconfigure_key ev d m (st3\<lparr>na_leases_by_duid := hm_insert d l (na_leases_by_duid st3)\<rparr>))"
    unfolding insert_static_na_lease_def Let_def st1_def st2_def st3_def l_def by (rule refl)
  have l: "na_leases_by_duid ?st' = hm_insert d l L2" "nl_is_static l" "nl_mac l = m" "nl_suffix l = s"
    "na_W ?st' = (na_W st1)(s \<mapsto> StaticMac m)" "na_static_by_mac ?st' = na_static_by_mac st"
    unfolding eq by (simp_all add: st3_def l_def L2_def fr hm_get_upd)
  have "na_maps_ok ((hm_get L2)(d := None, d \<mapsto> l)) (na_W st1) (na_S st)"
    using two l s by (intro na_maps_give_static) auto
  then show ?thesis using l hm w by (simp add: na_ok_maps hm_get_upd)
qed

lemma offer_na_inv:
  assumes "na_ok st" and "iter_ok ev"
  shows "na_ok (snd (offer_na ev d m h st))"
proof -
  obtain r st' where a: "allocate_dynamic_na_suffix ev d m h (ev_clk ev 0) None None st = (r, st')" by fastforce
  then have "na_L st d = None \<Longrightarrow> na_ok st'" using allocate_inv [OF assms(1) _ _ a] by simp
  then show ?thesis using assms insert_static_inv [OF assms] by (simp add: offer_na_def Let_def a split: option.split)
qed

lemma na_keep_inv:
  assumes "na_ok st" and "na_L st d = Some l" and "nl_is_static l' = nl_is_static l" and "nl_suffix l' = nl_suffix l"
    and "nl_mac l' = nl_mac l"
  shows "na_ok (st\<lparr>na_leases_by_duid := hm_insert d l' (na_leases_by_duid st)\<rparr>)"
  using assms na_maps_keep [of "na_L st" "na_W st" "na_S st" d l l'] by (simp add: na_ok_maps hm_get_upd)

lemma confirm_na_inv: "na_ok st \<Longrightarrow> na_ok (snd (confirm_na now d st))"
  by (auto simp: confirm_na_def split: option.split intro!: na_keep_inv)

lemma consume_inv: "na_ok st \<Longrightarrow> na_ok (consume_prev_suffix d st)"
  by (auto simp: consume_prev_suffix_def split: option.split intro!: na_keep_inv)

section \<open>Bindings\<close>

text \<open>Taking a lease back into the pool never panics; it leaves the excluded suffix alone and creates no
  other lease.\<close>

lemma reassign_returns:
  assumes "na_inv D M st" and "d \<notin> D" and "na_L st d = None"
  shows "\<exists>ch' st'. reassign_lease ev d lease now s x ch st = Returned (ch', st') \<and> na_inv D M st' \<and> pd_view st' = pd_view st \<and>
    na_static_by_mac st' = na_static_by_mac st \<and> (\<forall>t. x = Some t \<longrightarrow> na_W st t = None \<longrightarrow> na_W st' t = None) \<and>
    (\<forall>e. e \<noteq> d \<longrightarrow> na_L st' e = None \<or> na_L st' e = na_L st e)"
proof (cases "na_config st")
  case None
  then show ?thesis using assms by (simp add: reassign_lease_def)
next
  case (Some cfg)
  obtain r st' where a: "allocate_dynamic_na_suffix ev d (nl_mac lease) (nl_hostname lease) now (Some s) x st = (r, st')" by fastforce
  obtain st1 where st1: "st1 = st \<or> (\<exists>now'. st1 = snd (clean_expired_na ev now' st))" "forgets st st1"
    "case r of None \<Rightarrow> st' = st1 | Some t \<Rightarrow> x \<noteq> Some t \<and> dyn_lease d t st1 st'"
    using allocate_cases [OF a] .
  have v: "pd_view st' = pd_view st"
    using allocate_view [of ev d "nl_mac lease" "nl_hostname lease" now "Some s" x st] a by simp
  have w: "na_W st' t = None" if "x = Some t" "na_W st t = None" for t
    using st1(3) that forgets_None(2) [OF st1(2) that(2)] by (cases r) (auto simp: dyn_lease_def)
  have l: "na_L st' e = None \<or> na_L st' e = na_L st e" if "e \<noteq> d" for e
    using st1(2,3) that by (cases r) (auto simp: dyn_lease_def forgets_def)
  have sm: "na_static_by_mac st' = na_static_by_mac st" using st1(2,3) by (cases r) (auto simp: dyn_lease_def forgets_def)
  have "\<exists>ch'. reassign_lease ev d lease now s x ch st = Returned (ch', st')"
    using Some a st1(3) by (cases r) (auto simp: reassign_lease_def dyn_lease_def)
  then show ?thesis using allocate_inv [OF assms a] v w l sm by blast
qed

text \<open>Handing a free suffix to a client whose lease was taken.\<close>

lemma hand_over:
  assumes "na_W st s = None" and "\<not> nl_is_static l" and "nl_suffix l = s"
    and "st4 = st\<lparr>na_owners_by_suffix := hm_insert s (DynamicDuid d) (na_owners_by_suffix st)\<rparr>"
    and "st5 = (set_reconfigure_key ev d m st4)\<lparr>na_leases_by_duid := hm_insert d l (na_leases_by_duid st4)\<rparr>"
  shows "dyn_lease d s st st5 \<and> pd_view st5 = pd_view st"
proof -
  have "pd_view (st'\<lparr>na_leases_by_duid := x\<rparr>) = pd_view st'" "pd_view (st'\<lparr>na_owners_by_suffix := y\<rparr>) = pd_view st'" for st' x y
    by (simp_all add: pd_view_def)
  then show ?thesis using assms(1-3) unfolding assms(4,5) by (simp add: dyn_lease_def hm_get_upd) blast
qed

lemma remove_mac_binding_returns:
  assumes ok: "na_ok st" and it: "iter_ok ev"
  obtains ch st' where "remove_mac_binding ev m st = Returned (ch, st')" "na_ok st'" "pd_view st' = pd_view st"
proof (cases "na_S st m")
  case None
  then show ?thesis using that [of _ st] ok by (simp add: remove_mac_binding_def)
next
  case (Some s)
  define st1 where "st1 = st\<lparr>na_static_by_mac := hm_remove m (na_static_by_mac st)\<rparr>"
  define st2 where "st2 = (if na_W st1 s = Some (StaticMac m)
    then st1\<lparr>na_owners_by_suffix := hm_remove s (na_owners_by_suffix st1)\<rparr> else st1)"
  have maps: "na_maps_ok (na_L st) (na_W st) (na_S st)" and hm: "hm_ok (na_leases_by_duid st)" using ok by (simp_all add: na_ok_maps)
  have w: "na_W st s = Some (StaticMac m)" using Some na_maps_static [OF maps] by simp
  have fr: "na_L st2 = na_L st" "hm_ok (na_leases_by_duid st2)" "na_W st2 = (na_W st)(s := None)" "na_S st2 = (na_S st)(m := None)"
    "pd_view st2 = pd_view st"
    using w hm by (simp_all add: st2_def st1_def hm_get_upd pd_view_def)
  show ?thesis
  proof (cases "static_lease_duid_for_mac ev m st2")
    case None
    then have "na_maps_ok (na_L st) (na_W st2) (na_S st2)"
      using na_maps_unbind [OF maps Some] static_lease_duid_None [OF it fr(2) None] fr by simp
    then have "na_ok st2" using fr by (simp add: na_ok_maps)
    then show ?thesis using that [of _ st2] Some None fr
      by (simp add: remove_mac_binding_def Let_def st1_def [symmetric] st2_def [symmetric])
  next
    case (Some d)
    then obtain l where l: "na_L st d = Some l" "nl_mac l = m" "nl_is_static l"
      using static_lease_duid_Some [OF it fr(2) Some] fr by metis
    define st3 where "st3 = st2\<lparr>na_leases_by_duid := hm_remove d (na_leases_by_duid st2)\<rparr>"
    have sl: "nl_suffix l = s" using na_maps_static_lease [OF maps l(1,3)] l(2) \<open>na_S st m = Some s\<close> by simp
    have one: "nl_mac k \<noteq> m" if "((na_L st)(d := None)) e = Some k" "nl_is_static k" for e k
      using na_maps_one_static [OF maps _ l(1) _ l(3), of e k] l(2) that by (auto split: if_splits)
    have ok3: "na_ok st3"
      using na_maps_unbind [OF na_maps_take_static [OF maps l(1,3)] \<open>na_S st m = Some s\<close> one] fr
      by (simp add: na_ok_maps st3_def hm_get_upd)
    have fr3: "na_L st3 d = None" "pd_view st3 = pd_view st" using fr by (simp_all add: st3_def pd_view_def)
    define l' where "l' = requalify (nl_suffix l) (Some s) (ev_clk ev 0) st3 l"
    define st4 where "st4 = st3\<lparr>na_owners_by_suffix := hm_insert s (DynamicDuid d) (na_owners_by_suffix st3)\<rparr>"
    define st5 where "st5 = (set_reconfigure_key ev d (nl_mac l') st4)\<lparr>na_leases_by_duid := hm_insert d l' (na_leases_by_duid st4)\<rparr>"
    have ok5: "na_ok st5 \<and> pd_view st5 = pd_view st" if "\<not> hm_contains (na_owners_by_suffix st3) s"
      using hand_over [OF _ _ _ st4_def st5_def] dyn_lease_inv [OF ok3 _ fr3(1), of s st5] that sl fr3
      by (simp add: hm_contains_def l'_def requalify_def Let_def)
    obtain ch' st6 where r: "reassign_lease ev d l (ev_clk ev 0) s None (push_expired l (Some s) no_changes) st3 = Returned (ch', st6)"
      "na_ok st6" "pd_view st6 = pd_view st3"
      using reassign_returns [OF ok3 _ fr3(1)] by blast
    have "remove_mac_binding ev m st =
      (if in_dynamic_pool st3 s \<and> \<not> hm_contains (na_owners_by_suffix st3) s
       then Returned (push_allocated l' (Some s) (push_expired l (Some s) no_changes), st5)
       else reassign_lease ev d l (ev_clk ev 0) s None (push_expired l (Some s) no_changes) st3)"
      using \<open>na_S st m = Some s\<close> Some l(1) fr(1)
      by (simp add: remove_mac_binding_def Let_def st1_def [symmetric] st2_def [symmetric] st3_def [symmetric] l'_def [symmetric]
          st4_def [symmetric] st5_def [symmetric])
    then show ?thesis using that ok5 r fr3 by (cases "in_dynamic_pool st3 s \<and> \<not> hm_contains (na_owners_by_suffix st3) s") auto
  qed
qed

lemma bind_not_rejected:
  assumes "na_ok st" and "bind_rejected m s st = None"
  shows "na_S st m \<noteq> Some s" "na_W st s \<noteq> Some (StaticMac m')"
proof -
  have maps: "na_maps_ok (na_L st) (na_W st) (na_S st)" using assms(1) by (simp add: na_ok_maps)
  show "na_S st m \<noteq> Some s" using assms(2) na_maps_static [OF maps, of m s] by (auto simp: bind_rejected_def)
  then show "na_W st s \<noteq> Some (StaticMac m')"
    using assms(2) na_maps_static [OF maps, of m' s] by (auto simp: bind_rejected_def split: if_splits)
qed

lemma bind_rejected_reason: "na_ok st \<Longrightarrow> bind_rejected m s st \<noteq> Some (SuffixInvariantViolation old m')"
  using na_maps_static [of "na_L st" "na_W st" "na_S st" m]
  by (auto simp: bind_rejected_def na_ok_maps split: if_splits option.splits SuffixOwner.splits)

text \<open>A new binding is put in force in three steps.  First the client of the MAC address and its old binding
  are taken out of account.\<close>

lemma bind_prepared_ok:
  assumes ok: "na_ok st" and it: "iter_ok ev" and rej: "bind_rejected m s st = None"
    and st': "st' = bind_prepared (lease_duid_for_mac ev m st) m s st"
  shows "na_inv (set_option (lease_duid_for_mac ev m st)) {m} st'"
    "na_leases_by_duid st' = na_leases_by_duid st" "na_S st' = (na_S st)(m \<mapsto> s)" "pd_view st' = pd_view st"
    "na_W st' s \<noteq> Some (StaticMac m')"
proof -
  have maps: "na_maps_ok (na_L st) (na_W st) (na_S st)" and hm: "hm_ok (na_leases_by_duid st)" using ok by (simp_all add: na_ok_maps)
  define md where "md = lease_duid_for_mac ev m st"
  define W1 where "W1 = (case na_S st m of Some old \<Rightarrow> (na_W st)(old := None) | None \<Rightarrow> na_W st)"
  have old: "old \<noteq> s \<and> na_W st old = Some (StaticMac m)" if "na_S st m = Some old" for old
    using that bind_not_rejected(1) [OF ok rej] na_maps_static [OF maps] by auto
  define W2 where "W2 = (case md of Some d \<Rightarrow> (case na_L st d of
      Some l \<Rightarrow> if na_W st (nl_suffix l) = Some (DynamicDuid d) then W1(nl_suffix l := None) else W1 | None \<Rightarrow> W1) | None \<Rightarrow> W1)"
  have fr: "na_leases_by_duid st' = na_leases_by_duid st" "na_S st' = (na_S st)(m \<mapsto> s)" "pd_view st' = pd_view st" "na_W st' = W2"
    using old by (auto simp: st' bind_prepared_def Let_def md_def [symmetric] W2_def W1_def pd_view_def remove_dynamic_owner_if_matches_def
        hm_get_upd split: option.splits)
  show "na_leases_by_duid st' = na_leases_by_duid st" "na_S st' = (na_S st)(m \<mapsto> s)" "pd_view st' = pd_view st" by (fact fr)+
  show "na_W st' s \<noteq> Some (StaticMac m')"
    using bind_not_rejected(2) [OF ok rej] by (auto simp: fr W2_def W1_def split: option.splits if_splits)
  define L1 where "L1 = hide (set_option md) (na_L st)"
  define W0 where "W0 = (case md of Some d \<Rightarrow> (case na_L st d of
      Some l \<Rightarrow> if na_W st (nl_suffix l) = Some (DynamicDuid d) then (na_W st)(nl_suffix l := None) else na_W st | None \<Rightarrow> na_W st) | None \<Rightarrow> na_W st)"
  have hide1: "hide {d} f = f(d := None)" for d :: 'x and f :: "'x \<Rightarrow> 'y option" by (auto simp: hide_def fun_eq_iff)
  have one: "na_maps_ok L1 W0 (na_S st)"
    using maps na_maps_forget_lease [OF maps] by (auto simp: L1_def W0_def hide1 split: option.splits)
  have nost: "nl_mac k \<noteq> m" if "L1 e = Some k" "nl_is_static k" for e k
    using that lease_duid_static [OF it ok, of e k m] by (auto simp: L1_def md_def hide_def split: if_splits)
  have "na_maps_ok L1 W2 ((na_S st)(m := None))"
  proof (cases "na_S st m")
    case None
    then have "W2 = W0" "(na_S st)(m := None) = na_S st" by (auto simp: W2_def W0_def W1_def fun_upd_idem split: option.splits)
    then show ?thesis using one by simp
  next
    case (Some old)
    have "W2 = W0(old := None)" using Some old [OF Some]
      by (auto simp: W2_def W0_def W1_def fun_upd_twist split: option.splits)
    then show ?thesis using na_maps_unbind [OF one Some nost] by simp
  qed
  then show "na_inv (set_option (lease_duid_for_mac ev m st)) {m} st'"
    using hm by (simp add: na_inv_def fr hide1 L1_def [symmetric, unfolded md_def])
qed

text \<open>Then the dynamic holder of the suffix is moved elsewhere.\<close>

definition cleared :: "bytes set \<Rightarrow> MacAddr set \<Rightarrow> u64 \<Rightarrow> Ipv6ServerStatus \<Rightarrow> Ipv6ServerStatus \<Rightarrow> bool" where
  "cleared D M s st st' \<longleftrightarrow> na_inv D M st' \<and> pd_view st' = pd_view st \<and> na_static_by_mac st' = na_static_by_mac st \<and>
     na_W st' s = None \<and> (\<forall>d\<in>D. na_L st' d = None \<or> na_L st' d = na_L st d)"

lemma evict_lease_returns:
  assumes inv: "na_inv D M st" and e: "e \<notin> D" "na_L st e = None" and s: "na_W st s = None"
  shows "\<exists>ch' st'. evict_lease ev e l now s old ch st = Returned (ch', st') \<and> cleared D M s st st'"
proof (cases old)
  case None
  obtain ch' st' where r: "reassign_lease ev e l now s (Some s) ch st = Returned (ch', st')" "na_inv D M st'" "pd_view st' = pd_view st"
    "na_static_by_mac st' = na_static_by_mac st" "\<forall>t. Some s = Some t \<longrightarrow> na_W st t = None \<longrightarrow> na_W st' t = None"
    "\<forall>d. d \<noteq> e \<longrightarrow> na_L st' d = None \<or> na_L st' d = na_L st d"
    using reassign_returns [OF inv e, of ev l now s "Some s" ch] by blast
  then have "cleared D M s st st'" using s e(1) by (auto simp: cleared_def)
  then show ?thesis using None r(1) by (simp add: evict_lease_def)
next
  case (Some o')
  show ?thesis
  proof (cases "o' \<noteq> s \<and> in_dynamic_pool st o' \<and> \<not> hm_contains (na_owners_by_suffix st) o'")
    case True
    then have free: "na_W st o' = None" by (simp add: hm_contains_def)
    define l' where "l' = requalify o' (Some s) now st l"
    define st4 where "st4 = st\<lparr>na_owners_by_suffix := hm_insert o' (DynamicDuid e) (na_owners_by_suffix st)\<rparr>"
    define st5 where "st5 = (set_reconfigure_key ev e (nl_mac l') st4)\<lparr>na_leases_by_duid := hm_insert e l' (na_leases_by_duid st4)\<rparr>"
    have "\<not> nl_is_static l'" "nl_suffix l' = o'" by (simp_all add: l'_def requalify_def Let_def)
    then have h: "dyn_lease e o' st st5" "pd_view st5 = pd_view st" using hand_over [OF free _ _ st4_def st5_def] by simp_all
    then have "cleared D M s st st5"
      using dyn_lease_inv [OF inv e h(1)] True s e(1) by (auto simp: cleared_def dyn_lease_def)
    then show ?thesis using Some True by (simp add: evict_lease_def Let_def l'_def [symmetric] st4_def [symmetric] st5_def [symmetric])
  next
    case False
    then show ?thesis using Some inv s by (auto simp: evict_lease_def cleared_def)
  qed
qed

lemma evict_returns:
  assumes inv: "na_inv D M st" and md: "\<And>d. mac_duid = Some d \<longleftrightarrow> d \<in> D" and nost: "\<And>m. na_W st s \<noteq> Some (StaticMac m)"
  shows "\<exists>ch st'. evict_occupant ev s old mac_duid now st = Returned (ch, st') \<and> cleared D M s st st'"
proof -
  define st1 where "st1 = st\<lparr>na_owners_by_suffix := hm_remove s (na_owners_by_suffix st)\<rparr>"
  have maps: "na_maps_ok (hide D (na_L st)) (na_W st) (hide M (na_S st))" using inv by (simp add: na_inv_def)
  show ?thesis
  proof (cases "na_W st s")
    case None
    then have "cleared D M s st st1" using inv by (simp add: cleared_def na_inv_def st1_def hm_get_upd fun_upd_idem pd_view_def)
    then show ?thesis using None by (simp add: evict_occupant_def Let_def st1_def [symmetric])
  next
    case (Some w)
    then obtain e where e: "w = DynamicDuid e" using nost by (cases w) auto
    then obtain l where l: "hide D (na_L st) e = Some l" "\<not> nl_is_static l" "nl_suffix l = s" using na_maps_dynamic [OF maps, of s e] Some by auto
    then have eD: "e \<notin> D" "na_L st e = Some l" by (auto simp: hide_def split: if_splits)
    define st2 where "st2 = st1\<lparr>na_leases_by_duid := hm_remove e (na_leases_by_duid st1)\<rparr>"
    have inv2: "na_inv D M st2" using na_maps_take_dynamic [OF maps l(1,2)] inv eD(1) l(3)
      by (simp add: na_inv_def st2_def st1_def hm_get_upd hide_upd)
    have fr: "na_L st2 e = None" "na_W st2 s = None" "na_L st1 = na_L st" by (simp_all add: st2_def st1_def)
    have cl: "cleared D M s st st'" if "cleared D M s st2 st'" for st'
      using that eD(1) by (auto simp: cleared_def st2_def st1_def pd_view_def hm_get_upd split: if_splits)
    have "evict_occupant ev s old mac_duid now st = evict_lease ev e l now s old (push_expired l (Some s) no_changes) st2"
      using Some e eD md by (auto simp: evict_occupant_def st1_def [symmetric] st2_def [symmetric] fr(3))
    then show ?thesis using evict_lease_returns [OF inv2 eD(1) fr(1,2)] cl by metis
  qed
qed

text \<open>And last the suffix is given to the MAC address and its client.\<close>

lemma bind_mac_suffix_returns:
  assumes ok: "na_ok st" and it: "iter_ok ev"
  shows "\<exists>r st'. bind_mac_suffix ev m s st = Returned (r, st') \<and> na_ok st' \<and> pd_view st' = pd_view st \<and>
    (\<forall>old m'. r \<noteq> SuffixInvariantViolation old m')"
proof (cases "bind_rejected m s st")
  case (Some r)
  then show ?thesis using ok bind_rejected_reason [OF ok] by (auto simp: bind_mac_suffix_def)
next
  case None
  define md where "md = lease_duid_for_mac ev m st"
  define st1 where "st1 = bind_prepared md m s st"
  have p: "na_inv (set_option md) {m} st1" "na_leases_by_duid st1 = na_leases_by_duid st" "na_S st1 = (na_S st)(m \<mapsto> s)"
    "pd_view st1 = pd_view st" "\<And>m'. na_W st1 s \<noteq> Some (StaticMac m')"
    using bind_prepared_ok [OF ok it None st1_def [unfolded md_def]] by (simp_all add: md_def)
  obtain ch st2 where e: "evict_occupant ev s (na_S st m) md (ev_clk ev 0) st1 = Returned (ch, st2)" "cleared (set_option md) {m} s st1 st2"
    using evict_returns [OF p(1) _ p(5), of md ev "na_S st m" "ev_clk ev 0"] by auto
  define st3 where "st3 = st2\<lparr>na_owners_by_suffix := hm_insert s (StaticMac m) (na_owners_by_suffix st2)\<rparr>"
  have hd: "(hide {m} (na_S st2))(m \<mapsto> s) = na_S st2"
    using e(2) p(3) by (auto simp: cleared_def hide_def fun_eq_iff)
  have m2: "na_maps_ok (hide (set_option md) (na_L st2)) (na_W st2) (hide {m} (na_S st2))"
    using e(2) unfolding cleared_def na_inv_def by blast
  then have m3: "na_maps_ok (hide (set_option md) (na_L st2)) (na_W st3) (na_S st2)"
    using na_maps_bind [OF m2, of m s] e(2) hd by (simp add: cleared_def hide_def st3_def hm_get_upd)
  have fr: "na_leases_by_duid st3 = na_leases_by_duid st2" "na_S st3 = na_S st2" "pd_view st3 = pd_view st" "hm_ok (na_leases_by_duid st2)"
    using e(2) p(4) by (simp_all add: st3_def cleared_def pd_view_def na_inv_def)
  have be: "bind_mac_suffix ev m s st = (case md of None \<Rightarrow> Returned (SuffixBound ch, st3) | Some d \<Rightarrow> (case na_L st3 d of
      None \<Rightarrow> Returned (SuffixBound ch, st3)
    | Some l \<Rightarrow>
        let prev = (if nl_suffix l \<noteq> s then Some (nl_suffix l) else None); life = offer_lifetime (st_preferred_lifetime st3);
            l' = l\<lparr>nl_suffix := s, nl_is_static := True, nl_prev_suffix := prev, nl_relative_offer_time := ev_clk ev 0,
              nl_valid_time := life, nl_preferred_time := life\<rparr>
        in Returned (SuffixBound (push_allocated l' prev ch), st3\<lparr>na_leases_by_duid := hm_insert d l' (na_leases_by_duid st3)\<rparr>)))"
    by (simp add: bind_mac_suffix_def None Let_def md_def [symmetric] st1_def [symmetric] e(1) st3_def split: option.split)
  have none: "na_ok st3" if "\<forall>d\<in>set_option md. na_L st2 d = None"
  proof -
    have "hide (set_option md) (na_L st2) = na_L st2" using that by (auto simp: hide_def fun_eq_iff)
    then show ?thesis using m3 fr by (simp add: na_ok_maps)
  qed
  show ?thesis
  proof (cases "Option.bind md (na_L st2)")
    case nl: None
    then have "na_ok st3" by (intro none) (auto simp: Option.bind_eq_None_conv)
    then show ?thesis using fr nl by (cases md) (auto simp: be)
  next
    case (Some l)
    then obtain d where d: "md = Some d" "na_L st2 d = Some l" by (auto simp: Option.bind_eq_Some_conv)
    obtain l0 where l0: "na_L st d = Some l0" "nl_mac l0 = m"
      using lease_duid_Some [OF it _ d(1) [unfolded md_def]] ok by (auto simp: na_ok_maps)
    have mac: "nl_mac l = m" using e(2) d l0 p(2) by (auto simp: cleared_def)
    define l' where "l' = l\<lparr>nl_suffix := s, nl_is_static := True, nl_prev_suffix := if nl_suffix l \<noteq> s then Some (nl_suffix l) else None,
      nl_relative_offer_time := ev_clk ev 0, nl_valid_time := offer_lifetime (st_preferred_lifetime st3),
      nl_preferred_time := offer_lifetime (st_preferred_lifetime st3)\<rparr>"
    have nost: "nl_mac k \<noteq> m" if "hide {d} (na_L st2) e = Some k" "nl_is_static k" for e k
      using na_maps_static_lease [OF m2, of e k] that d by (auto simp: hide_def split: if_splits)
    have "(hide {d} (na_L st2))(d \<mapsto> l') = (na_L st2)(d \<mapsto> l')" by (auto simp: hide_def fun_eq_iff)
    moreover have "na_maps_ok ((hide {d} (na_L st2))(d \<mapsto> l')) (na_W st3) (na_S st2)"
      using m3 d mac hd nost by (intro na_maps_give_static) (auto simp: hide_def l'_def fun_eq_iff split: if_splits)
    ultimately have "na_ok (st3\<lparr>na_leases_by_duid := hm_insert d l' (na_leases_by_duid st3)\<rparr>)" (is "na_ok ?st4")
      using fr by (simp add: na_ok_maps hm_get_upd)
    moreover have "pd_view ?st4 = pd_view st" using fr by (simp add: pd_view_def)
    ultimately show ?thesis using d fr by (simp add: be Let_def l'_def [symmetric])
  qed
qed

lemma update_device_binding_returns:
  assumes "na_ok st" and "iter_ok ev"
  shows "\<exists>r st'. update_device_binding ev m ip st = Returned (r, st') \<and> na_ok st' \<and> pd_view st' = pd_view st \<and>
    (\<forall>old m'. r \<noteq> DeviceInvariantViolation old m')"
proof (cases ip)
  case None
  show ?thesis by (rule remove_mac_binding_returns [OF assms, of m]) (simp add: update_device_binding_def None)
next
  case (Some a)
  then show ?thesis using bind_mac_suffix_returns [OF assms, of m "ipv6_suffix a"]
    by (auto simp: update_device_binding_def split: MacSuffixBindResult.split)
qed

section \<open>A fresh server\<close>

definition device_bindings :: "(MacAddr \<times> Ipv6Addr option) list \<Rightarrow> (MacAddr \<times> u64) list" where
  "device_bindings devices = concat (map (\<lambda>(mac, ipv6). case ipv6 of Some ip \<Rightarrow> [(mac, ipv6_suffix ip)] | None \<Rightarrow> []) devices)"

definition devices_ok :: "(MacAddr \<times> Ipv6Addr option) list \<Rightarrow> bool" where
  "devices_ok devices \<longleftrightarrow> distinct (map fst (device_bindings devices)) \<and> distinct (map snd (device_bindings devices))"

lemma enroll_fold:
  assumes "na_ok st" and "na_leases_by_duid st = []"
    and "distinct (map fst (device_bindings devices))" "distinct (map snd (device_bindings devices))"
    and "\<And>m s. (m, s) \<in> set (device_bindings devices) \<Longrightarrow> na_S st m = None \<and> na_W st s = None"
  shows "na_ok (fold enroll6 devices st)"
  using assms
proof (induction devices arbitrary: st)
  case (Cons dev devices)
  obtain mac ipv6 where dev: "dev = (mac, ipv6)" by fastforce
  show ?case
  proof (cases ipv6)
    case None
    then show ?thesis using Cons by (simp add: dev device_bindings_def)
  next
    case (Some ip)
    let ?st = "st\<lparr>na_static_by_mac := hm_insert mac (ipv6_suffix ip) (na_static_by_mac st),
                 na_owners_by_suffix := hm_insert (ipv6_suffix ip) (StaticMac mac) (na_owners_by_suffix st)\<rparr>"
    have b: "device_bindings (dev # devices) = (mac, ipv6_suffix ip) # device_bindings devices"
      by (simp add: device_bindings_def dev Some)
    have free: "na_S st mac = None" "na_W st (ipv6_suffix ip) = None" using Cons.prems(5) [of mac "ipv6_suffix ip"] b by simp_all
    have "na_ok ?st" using na_maps_bind [of "na_L st" "na_W st" "na_S st", OF _ free] Cons.prems(1) by (simp add: na_ok_maps hm_get_upd)
    moreover have "na_S ?st m = None \<and> na_W ?st s = None" if "(m, s) \<in> set (device_bindings devices)" for m s
      using that Cons.prems(3-5) b by (force simp: image_iff)
    ultimately show ?thesis using Cons.IH [of ?st] Cons.prems b by (simp add: dev Some)
  qed
qed simp

lemma new_status_ok:
  assumes "devices_ok devices"
  shows "na_ok (new_status na pd devices)"
  unfolding new_status_def Let_def
  by (rule enroll_fold) (use assms in \<open>simp_all add: devices_ok_def na_ok_maps na_maps_ok_def\<close>)

lemma new_status_pd:
  "pd_leases_by_duid (new_status na pd devices) = []" "pd_owners_by_slot (new_status na pd devices) = []"
proof -
  have "pd_view (enroll6 dev st) = pd_view st" for dev st by (cases "(dev, st)" rule: enroll6.cases) (simp_all add: pd_view_def)
  then have "pd_view (fold enroll6 devices st) = pd_view st" for st by (induction devices arbitrary: st) simp_all
  then show "pd_leases_by_duid (new_status na pd devices) = []" "pd_owners_by_slot (new_status na pd devices) = []"
    by (simp_all add: new_status_def Let_def pd_view_def)
qed

end
