(* ===== verification/Spec2Isabelle.thy ===== *)
theory Spec2Isabelle
  imports Pppoe_Session Dhcp4_Server Dhcp4_Client Lan6_Status
begin

text \<open>
  \<^bold>\<open>A verification of the Landscape router.\<close>

  Landscape turns a Linux machine into a router.  Its services are written in Rust
  (\<open>landscape-common\<close>: data types, wire formats and the service framework; \<open>landscape\<close>: the services;
  other crates: data path, DNS, gateway, metrics, database, web server).  This development models the
  parts that bring a WAN link up and hand out addresses on the LAN, from the bytes on the wire to the
  loops of the services:

    \<^item> the PPPoE client: discovery, LCP, authentication, IPCP and IPv6CP, keepalive and redial;
    \<^item> the DHCPv4 client: its state machine, its messages, and what it does to the system;
    \<^item> the DHCPv4 server: configuration, custom options, lease table, replies and its loop;
    \<^item> what they share: the life cycle of a service, the state of a WAN link, MAC addresses, strings.

  \<^bold>\<open>How the code is modelled.\<close>  Machine integers are words of their width and arithmetic wraps as in a
  release build; \<open>usize\<close> is \<open>nat\<close>; strings and byte vectors are lists of bytes; an IPv4 address is a
  32-bit word.  A \<open>HashMap\<close> is an association list with distinct keys behind the interface
  \<open>hash_map\<close>.  A function that may panic or run forever returns an \<open>outcome\<close> (\<open>Returned\<close>, \<open>Panicked\<close>,
  \<open>Unfinished\<close>); an asynchronous function that sends packets or arms timers runs in the monad \<open>io\<close>,
  which collects its effects and stops at the first error.  A \<open>select!\<close> loop is a step function over
  the events that \<open>select!\<close> can pick, run over an arbitrary list of events, so that a property of all
  runs is a property of every order of packets, timers and stop requests.  Clock readings and random
  numbers are part of the events.  Third-party code is a parameter: MD5, the codec and default message
  of \<open>dhcproto\<close>, the address arithmetic of \<open>cidr\<close>, name parsing of \<open>hickory\<close>; a theorem that relies on
  their documented behaviour says so in its hypotheses.  Logging is left out.

  \<^bold>\<open>The theories.\<close>

    \<^item> \<open>Prelude\<close>: words and bytes, outcomes, and interfaces of the library: \<open>hash_map\<close> (maps), \<open>codec\<close>,
      \<open>tlv_stream\<close> and \<open>tlv_exact\<close> (parsers against printers), \<open>refined_machine\<close> (an operation refines an
      abstract step).  \<open>Pppoe_Client\<close> adds \<open>phase\<close>, \<open>guarded_phase\<close> and \<open>phase_history\<close> (event loops with
      invariants and budgets), and \<open>Service\<close> adds \<open>cell_invariant\<close>.  Each is interpreted on the
      definitions of the components.
    \<^item> \<open>Net\<close>, \<open>Rust_Str\<close>: \<open>landscape-common/src/net.rs\<close>; the methods of \<open>str\<close> the code uses.
    \<^item> \<open>Ppp_Codec\<close>, \<open>Pppoe_Codec\<close>: \<open>landscape-common/src/net_proto/ppp\<close> and \<open>pppoe\<close>: parsers,
      printers and builders.  Parsing inverts printing, options and tags are read back as written, and a
      PAP request is unambiguous when its fields fit their length bytes.
    \<^item> \<open>Pppoe_Client\<close>, \<open>Pppoe_Lcp\<close>, \<open>Pppoe_Negotiation\<close>, \<open>Pppoe_Session\<close>:
      \<open>landscape/src/wan_service/pppoe_client\<close> (\<open>mod.rs\<close>, \<open>error.rs\<close>, \<open>auth.rs\<close>, \<open>lcp.rs\<close>,
      \<open>negotiation.rs\<close>, \<open>runtime.rs\<close>).  Both phases end within a bounded number of timeouts, whatever the
      peer sends in between; what a phase returns was heard from the peer; a panic has one cause; the
      runtime shuts every session down that it created, takes the link down and reports its end; a dead
      peer is detected.
    \<^item> \<open>Service\<close>, \<open>Wan_Link\<close>: \<open>landscape-common/src/service/mod.rs\<close>, \<open>wan_link/state.rs\<close> and
      \<open>wan_link/runtime_status.rs\<close>.  An exit state always has its token cancelled, a stopped service stays
      stopped, and an unchanged epoch means an unchanged session.
    \<^item> \<open>Dnr\<close>: \<open>landscape-common/src/dns/dnr.rs\<close>.  Wire names decode to their labels, and the payload of
      option 162 is made of whole instances within its limit.
    \<^item> \<open>Dhcp_Message\<close>, \<open>Dhcp4_Config\<close>: \<open>landscape-common/src/net_proto/udp/dhcp\<close> and
      \<open>lan_service/lan_dhcpv4/config.rs\<close>: guarded decoding, custom options, checks of a configuration.
    \<^item> \<open>Dhcp4_Status\<close>: \<open>landscape/src/lan_service/lan_dhcp4_server/status.rs\<close>, the lease table.  Its
      invariant \<open>status_ok\<close> is kept by every operation but an unasked-for release, and every operation
      refines an abstract lease table in which an address is given only to a client while nobody holds it.
      The search loop has fuel; \<open>offer_ip_terminates\<close> shows how much is enough, and \<open>offer_ip_diverges\<close>
      when none is.
    \<^item> \<open>Dhcp4_Server\<close>: \<open>lan_dhcp4_server/server.rs\<close>: replies, message handling and the loop, over the
      table.
    \<^item> \<open>Dhcp4_Client\<close>: \<open>landscape/src/wan_service/dhcpv4_client\<close> (\<open>fsm.rs\<close>, \<open>message.rs\<close>, \<open>system.rs\<close>,
      \<open>driver.rs\<close>): well-formed states, conforming messages, the system follows the lease, a lease is
      given up in time.
    \<^item> this theory: the exchange between the client and the server.

  \<^bold>\<open>Bounds and fuel.\<close>  Only \<open>offer_ip\<close> is given fuel, one unit for each round of its search; twice the
  capacity of the pool is enough when only addresses of the pool are allocated.  The other
  loops recurse on their data or on the list of events.

  \<^bold>\<open>Not modelled.\<close>  Sockets, netlink, sysctl and the eBPF data path are input and output of the
  kernel; the database, the web server, the user interface, ACME, dynamic DNS and Docker are calls of
  other programs; the DNS server and the gateway live inside \<open>hickory\<close> and \<open>pingora\<close>.  The service
  manager, the WAN link service and the observer of the DHCP service start and stop tasks over those
  interfaces.  The IPv6 services (prefix delegation, router advertisements, DHCPv6) are not modelled
  yet.  Of the modelled files the serialisation, display and database traits are left out.
\<close>

section \<open>The client against the server\<close>

lemma set_chaddr_client: "client_chaddr m = Some mac" if "dm_hlen m = 6" and "dm_chaddr m = octets mac @ replicate 10 0"
  using that by (simp add: client_chaddr_def)

lemma client_frames:
  "client_chaddr (gen_discover dflt xid mac r h b) = Some mac" "client_chaddr (gen_request dflt xid mac c y opts h) = Some mac"
  by (rule set_chaddr_client; simp add: gen_discover_def gen_request_def Let_def set_chaddr_def)+

lemma gen_request_list: "has_option (gen_request dflt xid mac c y opts h) 55 = Some (ParameterRequestList REQUEST_PARAMS)"
  by (simp add: has_option_def gen_request_def Let_def)

lemma gen_request_requested: "requested_ip (gen_request dflt xid mac 0 y opts h) = Some y"
  by (simp add: requested_ip_def has_option_def gen_request_fields)

lemma requested_mask:
  assumes "options_keyed sv" and "hm_get (sv_options_map sv) 1 = Some opt" and "1 \<notin> set fs"
  shows "hm_get (requested_options cr sv (gen_request dflt xid mac c y opts h) fs opts0) 1 = Some opt"
proof -
  have "1 \<in> set REQUEST_PARAMS" by (simp add: REQUEST_PARAMS_def)
  then show ?thesis
    using add_requested_get [OF assms] by (simp add: requested_options_def request_params_def gen_request_list)
qed

text \<open>An acknowledgement with a mask and a lease time binds the client that asked for its address.\<close>

lemma ack_binds:
  assumes "fsm_state f = SRequesting xid offer" and "dm_opcode reply = BootReply" and "dm_xid reply = xid"
    and "opts_msg_type (dm_opts reply) = Some Ack" and "dm_yiaddr reply = of_yiaddr offer"
    and "hm_get (dm_opts reply) 1 = Some (SubnetMask m)" and "hm_get (dm_opts reply) 51 = Some (AddressLeaseTime t)"
  shows "\<exists>params rest f' l. on_recv dr reply f = (BindLease params # rest, f') \<and> fsm_state f' = SBound l \<and>
    lp_yiaddr params = dm_yiaddr reply \<and> lc_yiaddr l = dm_yiaddr reply \<and> lc_lease_at l = dr_clk dr 0 + from_secs (max (ucast t) 2)"
proof -
  have ty: "hm_get (dm_opts reply) 53 = Some (MessageType Ack)"
    using assms(4) by (auto simp: opts_msg_type_def split: option.splits DhcpV4Option.splits)
  obtain renew rebind where r: "get_renew_times (dm_opts reply) = Some (renew, rebind, max (ucast t) 2)"
    using assms(7) by (simp add: get_renew_times_def Let_def)
  show ?thesis
    using assms(1-3,5,6) ty r
    by (simp add: on_recv_def current_xid_def can_handle_message_def handle_ack_def expected_yiaddr_def Let_def)
qed

text \<open>C2: The client and the server of this repository agree.  When the client discovers, the server
  answers with an offer, and the client sends the request that follows from it, then the server grants
  the offered address: its answer binds the client to that address, for the lease time of the server
  (two seconds at least), and the server's table holds the same address for the client.
\<close>

theorem client_and_server_agree:
  assumes "DHCPv4Server_new cr config ctx lan st0 iface = Returned sv0" and "sv = sv0\<lparr>sv_status := st\<rparr>" and "status_ok st"
    and "default_ok cr"
    and "\<forall>pm. hm_get (st_per_mac_options st) (fsm_mac_addr f) = Some pm \<longrightarrow> validate_filter_options (pm_filter_options pm) = None"
    and "fsm_state f = SDiscovering xid requested"
    and "on_timer (cr_default_msg cr) dr1 0 f = (SendMsg discover dest1 # rest1, f1)"
    and "gen_offer cr clk fuel sv discover = Returned (Some offer, sv1)"
    and "on_recv dr2 offer f1 = (rest2, f2)"
    and "on_timer (cr_default_msg cr) dr3 0 f2 = (SendMsg request dest3 # rest3, f3)"
  shows "\<exists>reply learn sv2 params rest f4 l.
    gen_ack_v4 cr now ifindex iface_mac sv1 request = Returned (Some reply, learn, sv2) \<and>
    on_recv dr_ack reply f3 = (BindLease params # rest, f4) \<and> fsm_state f4 = SBound l \<and>
    lp_yiaddr params = dm_yiaddr offer \<and> lc_yiaddr l = dm_yiaddr offer \<and>
    lc_lease_at l = dr_clk dr_ack 0 + from_secs (max (ucast (sv_address_lease_time sv)) 2) \<and>
    leases (sv_status sv2) (fsm_mac_addr f) = Some (dm_yiaddr offer)"
proof -
  let ?mac = "fsm_mac_addr f" and ?h = "fsm_hostname f" and ?d = "cr_default_msg cr"
  have wf: "server_wf sv" and key: "options_keyed sv"
    and mask: "hm_get (sv_options_map sv) 1 = Some (SubnetMask (cr_inet_mask cr (network_mask config)))"
    using new_server_wf(1) [OF assms(1)] new_server_options [OF assms(1)] by (simp_all add: assms(2) server_wf_def options_keyed_def)
  have disc: "discover = gen_discover ?d xid ?mac requested ?h (fsm_attempts f + 1 \<le> 2)" and f1: "f1 = f\<lparr>fsm_attempts := fsm_attempts f + 1\<rparr>"
    using assms(6,7) by (auto simp: on_timer_discovering split: if_splits)
  have xid: "dm_xid offer = xid" "dm_opcode offer = BootReply" "opts_msg_type (dm_opts offer) = Some Offer"
    using gen_offer_fields [OF assms(8) wf assms(4)] by (simp_all add: disc gen_discover_fields)
  define oc where "oc = \<lparr>of_yiaddr = dm_yiaddr offer, of_siaddr = dm_siaddr offer, of_options = dm_opts offer\<rparr>"
  have "hm_get (dm_opts offer) 53 = Some (MessageType Offer)"
    using xid(3) by (auto simp: opts_msg_type_def split: option.splits DhcpV4Option.splits)
  then have f2: "f2 = f1\<lparr>fsm_state := SRequesting xid oc, fsm_attempts := 0\<rparr>"
    using assms(6,9) xid(1,2) by (auto simp: f1 oc_def on_recv_def current_xid_def can_handle_message_def)
  have req: "request = gen_request ?d xid ?mac 0 (dm_yiaddr offer) (select_options oc) ?h" and f3: "f3 = f2\<lparr>fsm_attempts := 1\<rparr>"
    using assms(10) by (auto simp: on_timer_requesting f2 f1 oc_def REQUEST_ATTEMPTS_def)
  obtain custom fs a st1 where res: "resolve_options_for_mac cr ?mac sv = Returned (custom, fs)"
    and off: "offer_ip (cr_inet_add cr) clk fuel ?mac (get_hostname discover) (sv_status sv) = Returned (Some a, st1)"
    and a: "dm_yiaddr offer = a" and sv1: "sv1 = sv\<lparr>sv_status := st1\<rparr>"
    using assms(8) by (auto simp: gen_offer_def and_then_Returned Let_def split_beta disc client_frames split: option.splits)
  have fr: "st_per_mac_options st1 = st_per_mac_options (sv_status sv)" and l: "leases st1 ?mac = Some a"
    using offer_frame [OF off] by simp_all
  have ok1: "status_ok st1" using offer_refines [OF off] assms(3) by (simp add: ok_refines_def assms(2))
  obtain st2 where ack: "ack_request now ?mac a (get_hostname request) (sv_address_lease_time sv1) (sv_status sv1) = (True, st2)"
    and l2: "leases st2 ?mac = Some a"
    using ack_request_cases [OF ok1, of ?mac a now "get_hostname request" "sv_address_lease_time sv"] l
    by (cases "ack_request now ?mac a (get_hostname request) (sv_address_lease_time sv) st1") (simp add: sv1)
  have res1: "resolve_options_for_mac cr ?mac sv1 = Returned (custom, fs)" using resolve_same [OF fr] res by (simp add: sv1)
  have wf1: "server_wf sv1" "options_keyed sv1" using wf key by (simp_all add: sv1 server_wf_def options_keyed_def)
  have fs: "1 \<notin> set fs" using resolve_filters [OF res _ managed_codes(4)] assms(2,5) by simp
  obtain reply where g: "gen_ack_v4 cr now ifindex iface_mac sv1 request =
      Returned (Some reply, map_option (\<lambda>dev. (ifindex, a, ?mac, dev)) iface_mac, sv1\<lparr>sv_status := st2\<rparr>)"
    and r: "dm_yiaddr reply = a" "dm_xid reply = xid" "dm_opcode reply = BootReply" "opts_msg_type (dm_opts reply) = Some Ack"
      "hm_get (dm_opts reply) 51 = Some (AddressLeaseTime (sv_address_lease_time sv))"
      "hm_get (dm_opts reply) 1 = Some (SubnetMask (cr_inet_mask cr (network_mask config)))"
    using gen_ack_granted [OF _ _ res1 ack wf1(1) assms(4), of ifindex iface_mac] requested_mask [OF wf1(2) _ fs] mask a
    by (auto simp: req client_frames gen_request_requested gen_request_fields sv1)
  have "fsm_state f3 = SRequesting xid oc" by (simp add: f3 f2)
  from ack_binds [OF this r(3,2,4) _ r(6,5), of dr_ack] show ?thesis
    using g r(1) a l2 by (auto simp: oc_def)
qed


lemma ex_server_new:
  "DHCPv4Server_new ex_crates (ex_config4 0xc0a8050a 0xc0a8050c 0xc0a80501) None None (ex_status ds []) [] = Returned (ex_server ds)"
  by (simp add: ex_server_def DHCPv4Server_new_def ex_config4_def Let_def)

lemma ex_offered:
  "client_chaddr frame = Some (ex_mac 1) \<Longrightarrow> get_hostname frame = Some [0x68] \<Longrightarrow>
     \<exists>offer sv1. gen_offer ex_crates (\<lambda>_. 0) 16 (ex_server []) frame = Returned (Some offer, sv1)"
proof -
  assume c: "client_chaddr frame = Some (ex_mac 1)" and h: "get_hostname frame = Some [0x68]"
  have r: "resolve_options_for_mac ex_crates (ex_mac 1) (ex_server []) = Returned ([], [])" by code_simp
  have "map_outcome fst (offer_ip (cr_inet_add ex_crates) (\<lambda>_. 0) 16 (ex_mac 1) (Some [0x68]) (sv_status (ex_server [])))
      = Returned (Some 0xc0a8050a)" by code_simp
  then obtain st where "offer_ip (cr_inet_add ex_crates) (\<lambda>_. 0) 16 (ex_mac 1) (get_hostname frame)
      (sv_status (ex_server [])) = Returned (Some 0xc0a8050a, st)"
    unfolding h by (cases "offer_ip (cr_inet_add ex_crates) (\<lambda>_. 0) 16 (ex_mac 1) (Some [0x68]) (sv_status (ex_server []))") auto
  from gen_offer_returns [OF c r this] show ?thesis .
qed

theorem client_and_server_agree_witness:
  "\<exists>discover offer sv1 request reply learn sv2 f3 params rest f4.
     gen_offer ex_crates (\<lambda>_. 0) 16 (ex_server []) discover = Returned (Some offer, sv1) \<and>
     gen_ack_v4 ex_crates 1 3 None sv1 request = Returned (Some reply, learn, sv2) \<and>
     on_recv (ex_draws 0) reply f3 = (BindLease params # rest, f4) \<and> lp_yiaddr params = dm_yiaddr offer"
proof -
  let ?d = "cr_default_msg ex_crates" and ?f = "DhcpV4Fsm_new 7 (ex_mac 1) [0x68] :: unit DhcpV4Fsm"
  let ?disc = "gen_discover ?d 7 (ex_mac 1) None [0x68] True"
  have st: "fsm_state ?f = SDiscovering 7 None" "fsm_attempts ?f = 0" "fsm_mac_addr ?f = ex_mac 1" "fsm_hostname ?f = [0x68]"
    by (simp_all add: DhcpV4Fsm_new_def DhcpState_init_def)
  have t1: "on_timer ?d (ex_draws 0) 0 ?f =
      (SendMsg ?disc 0xffffffff # [ScheduleTimer (retry_wait (dr_jitter (ex_draws 0)) 1)], ?f\<lparr>fsm_attempts := 1\<rparr>)"
    by (simp add: on_timer_fresh [OF st(2,1)] st)
  have "get_hostname ?disc = Some [0x68]" by (simp add: get_hostname_def gen_discover_def Let_def)
  then obtain offer sv1 where g: "gen_offer ex_crates (\<lambda>_. 0) 16 (ex_server []) ?disc = Returned (Some offer, sv1)"
    using ex_offered client_frames(1) by blast
  have d: "default_ok ex_crates" by code_simp
  have o: "dm_xid offer = 7" "dm_opcode offer = BootReply" "opts_msg_type (dm_opts offer) = Some Offer"
    using gen_offer_fields [OF g ex_server_facts(1) d] by (simp_all add: gen_discover_fields)
  then have "hm_get (dm_opts offer) 53 = Some (MessageType Offer)"
    by (auto simp: opts_msg_type_def split: option.splits DhcpV4Option.splits)
  then have r1: "on_recv (ex_draws 0) offer (?f\<lparr>fsm_attempts := 1\<rparr>) = ([ScheduleTimer 0], ?f\<lparr>fsm_state := SRequesting 7
      \<lparr>of_yiaddr = dm_yiaddr offer, of_siaddr = dm_siaddr offer, of_options = dm_opts offer\<rparr>, fsm_attempts := 0\<rparr>)" (is "_ = (_, ?f2)")
    using o by (simp add: on_recv_def current_xid_def can_handle_message_def st)
  obtain request rest3 f3 where t3: "on_timer ?d (ex_draws 0) 0 ?f2 = (SendMsg request 0xffffffff # rest3, f3)"
    by (simp add: on_timer_requesting REQUEST_ATTEMPTS_def)
  have sv: "ex_server [] = (ex_server [])\<lparr>sv_status := ex_status [] []\<rparr>" using ex_server_facts(2) [of "[]"] by simp
  have fl: "\<forall>pm. hm_get (st_per_mac_options (ex_status [] [])) (fsm_mac_addr ?f) = Some pm \<longrightarrow>
      validate_filter_options (pm_filter_options pm) = None"
  proof -
    have "hm_get (st_per_mac_options (ex_status [] [])) (ex_mac 1) = None" by code_simp
    then show ?thesis by (simp add: st)
  qed
  from client_and_server_agree [OF ex_server_new sv ex_start_ok(1) d fl st(1) t1 g r1 t3,
      where now = 1 and ifindex = 3 and iface_mac = None and dr_ack = "ex_draws 0"] g
  show ?thesis by blast
qed

end
